theory Spec2Isabelle
  imports Complex_Main "HOL-Library.AList" "HOL-Library.Multiset"
begin

section \<open>Quote cache (src/src/cache/index.ts, class Cache)\<close>

text \<open>
  Times and durations are milliseconds as returned by \<^verbatim>\<open>Date.now()\<close>, modelled as
  \<^typ>\<open>int\<close>. Every synchronous method body reads the clock once: the value is the
  parameter \<open>now\<close>. The JavaScript \<^verbatim>\<open>Map\<close> is an association list in insertion order
  (\<^const>\<open>AList.update\<close> overwrites in place or appends, \<^const>\<open>AList.delete\<close> removes the key);
  \<^verbatim>\<open>undefined\<close> as the result of \<^verbatim>\<open>get\<close> is \<^const>\<open>None\<close>.
\<close>

record 'v CacheEntry =
  "value" :: 'v
  expiresAt :: int
  createdAt :: int

record 'v Cache =
  store :: "(string \<times> 'v CacheEntry) list"
  ttlMs :: int
  maxEntries :: int

text \<open>The constructor: \<^verbatim>\<open>maxEntries ?? 1000\<close>.\<close>

definition newCache :: "int \<Rightarrow> int option \<Rightarrow> 'v Cache" where
  "newCache ttl maxE =
     \<lparr>store = [], ttlMs = ttl, maxEntries = (case maxE of None \<Rightarrow> 1000 | Some m \<Rightarrow> m)\<rparr>"

definition cache_size :: "'v Cache \<Rightarrow> int" where
  "cache_size c = int (length (store c))"

text \<open>\<^verbatim>\<open>get(key)\<close>: returns the value and the cache after the call (an expired entry is deleted).\<close>

definition get :: "int \<Rightarrow> string \<Rightarrow> 'v Cache \<Rightarrow> 'v option \<times> 'v Cache" where
  "get now key c =
     (case map_of (store c) key of
        None \<Rightarrow> (None, c)
      | Some entry \<Rightarrow>
          if now > expiresAt entry
          then (None, c\<lparr>store := AList.delete key (store c)\<rparr>)
          else (Some (value entry), c))"

text \<open>
  \<^verbatim>\<open>prune()\<close>: the \<^verbatim>\<open>for...of\<close> loop over the entries; \<open>todo\<close> are the entries still to
  visit, \<open>st\<close> is the live store, \<open>evicted\<close> the counter.
\<close>

fun prune_loop ::
  "int \<Rightarrow> (string \<times> 'v CacheEntry) list \<Rightarrow> (string \<times> 'v CacheEntry) list \<Rightarrow> nat
     \<Rightarrow> nat \<times> (string \<times> 'v CacheEntry) list" where
  "prune_loop now [] st evicted = (evicted, st)"
| "prune_loop now ((key, entry) # todo) st evicted =
     (if now > expiresAt entry
      then prune_loop now todo (AList.delete key st) (evicted + 1)
      else prune_loop now todo st evicted)"

definition prune :: "int \<Rightarrow> 'v Cache \<Rightarrow> nat \<times> 'v Cache" where
  "prune now c =
     (case prune_loop now (store c) (store c) 0 of
        (evicted, st) \<Rightarrow> (evicted, c\<lparr>store := st\<rparr>))"

text \<open>The search for the oldest entry in \<^verbatim>\<open>evictOldest\<close>: the first entry with the least \<^verbatim>\<open>createdAt\<close>.\<close>

fun oldest_loop ::
  "(string \<times> 'v CacheEntry) list \<Rightarrow> (string \<times> int) option \<Rightarrow> (string \<times> int) option" where
  "oldest_loop [] oldest = oldest"
| "oldest_loop ((key, entry) # todo) oldest =
     oldest_loop todo
       (case oldest of
          None \<Rightarrow> Some (key, createdAt entry)
        | Some (k0, c0) \<Rightarrow> if createdAt entry < c0 then Some (key, createdAt entry) else oldest)"

definition evictOldest :: "int \<Rightarrow> 'v Cache \<Rightarrow> 'v Cache" where
  "evictOldest now c =
     (let c1 = snd (prune now c) in
      if cache_size c1 \<ge> maxEntries c1
      then (case oldest_loop (store c1) None of
              None \<Rightarrow> c1
            | Some (k0, c0) \<Rightarrow> c1\<lparr>store := AList.delete k0 (store c1)\<rparr>)
      else c1)"

text \<open>\<^verbatim>\<open>set(key, value, ttlMs?)\<close>; the optional argument is an option and
  \<open>effective_ttl\<close> is \<^verbatim>\<open>ttlMs ?? this.ttlMs\<close>.\<close>

definition effective_ttl :: "int option \<Rightarrow> 'v Cache \<Rightarrow> int" where
  "effective_ttl ttlOpt c = (case ttlOpt of None \<Rightarrow> ttlMs c | Some t \<Rightarrow> t)"

definition set_entry :: "int \<Rightarrow> string \<Rightarrow> 'v \<Rightarrow> int option \<Rightarrow> 'v Cache \<Rightarrow> 'v Cache" where
  "set_entry now key v ttlOpt c =
     (let c1 = (if cache_size c \<ge> maxEntries c then evictOldest now c else c);
          ttl = effective_ttl ttlOpt c1
      in c1\<lparr>store := AList.update key
                 \<lparr>value = v, expiresAt = now + ttl, createdAt = now\<rparr> (store c1)\<rparr>)"

text \<open>An entry of the store is expired at time \<open>now\<close>: the test of \<^verbatim>\<open>get\<close> and \<^verbatim>\<open>prune\<close>.\<close>

definition expired :: "int \<Rightarrow> (string \<times> 'v CacheEntry) \<Rightarrow> bool" where
  "expired now p = (now > expiresAt (snd p))"


section \<open>Idempotency guard (src/unnamed/part_005, IdempotencyManager over MemoryStorage)\<close>

text \<open>
  Stored responses, results of the wrapped function and thrown values are JavaScript values
  of one type \<open>'v\<close>; \<^verbatim>\<open>undefined\<close> is \<^const>\<open>None\<close>. Field names that other records of
  this theory also use carry the prefix \<open>rec_\<close>. \<^verbatim>\<open>hashRequest\<close> (SHA-256 of the JSON
  text, from the platform's crypto library) is the parameter \<open>H\<close>.
\<close>

datatype IdempotencyStatus = Processing | Completed | Failed

record 'v IdempotencyRecord =
  rec_key :: string
  requestHash :: string
  response :: "'v option"
  rec_status :: IdempotencyStatus
  rec_createdAt :: int
  completedAt :: "int option"
  rec_expiresAt :: int
  lockedUntil :: "int option"

record IdempotencyConfig =
  idem_ttlMs :: int
  lockTimeoutMs :: int

text \<open>The constructor's defaults: 24 hours and one minute.\<close>

definition newIdempotencyConfig :: "int option \<Rightarrow> int option \<Rightarrow> IdempotencyConfig" where
  "newIdempotencyConfig ttl lock =
     \<lparr>idem_ttlMs = (case ttl of None \<Rightarrow> 24 * 60 * 60 * 1000 | Some t \<Rightarrow> t),
      lockTimeoutMs = (case lock of None \<Rightarrow> 60000 | Some t \<Rightarrow> t)\<rparr>"

type_synonym 'v MemoryStorage = "(string \<times> 'v IdempotencyRecord) list"

definition storage_get ::
  "int \<Rightarrow> string \<Rightarrow> 'v MemoryStorage \<Rightarrow> 'v IdempotencyRecord option \<times> 'v MemoryStorage" where
  "storage_get now key records =
     (case map_of records key of
        None \<Rightarrow> (None, records)
      | Some record \<Rightarrow>
          if now > rec_expiresAt record then (None, AList.delete key records)
          else (Some record, records))"

definition storage_set ::
  "string \<Rightarrow> 'v IdempotencyRecord \<Rightarrow> 'v MemoryStorage \<Rightarrow> 'v MemoryStorage" where
  "storage_set key record records = AList.update key record records"

datatype IdempotencyErrorCode = KEY_MISMATCH | IN_PROGRESS | NOT_FOUND

text \<open>What \<^verbatim>\<open>execute\<close> can throw: an \<^verbatim>\<open>IdempotencyError\<close> (code and existing record) or the
  value thrown by the wrapped function.\<close>

datatype 'v IdempotencyThrown =
    IdempotencyError IdempotencyErrorCode "'v IdempotencyRecord option"
  | FnThrown 'v

record 'v CheckResult =
  canProceed :: bool
  existingResponse :: "'v option"
  check_record :: "'v IdempotencyRecord option"

text \<open>\<^verbatim>\<open>existing.lockedUntil && Date.now() < existing.lockedUntil\<close>: a number is truthy when it is
  defined and not zero.\<close>

definition lock_held :: "int \<Rightarrow> int option \<Rightarrow> bool" where
  "lock_held now l = (case l of None \<Rightarrow> False | Some u \<Rightarrow> u \<noteq> 0 \<and> now < u)"

definition check ::
  "('p \<Rightarrow> string) \<Rightarrow> int \<Rightarrow> string \<Rightarrow> 'p \<Rightarrow> 'v MemoryStorage
     \<Rightarrow> ('v IdempotencyThrown + 'v CheckResult) \<times> 'v MemoryStorage" where
  "check H now key requestData records =
     (let hash = H requestData in
      case storage_get now key records of
        (None, records1) \<Rightarrow>
          (Inr \<lparr>canProceed = True, existingResponse = None, check_record = None\<rparr>, records1)
      | (Some existing, records1) \<Rightarrow>
          if requestHash existing \<noteq> hash
          then (Inl (IdempotencyError KEY_MISMATCH (Some existing)), records1)
          else if rec_status existing = Completed
          then (Inr \<lparr>canProceed = False, existingResponse = response existing,
                     check_record = Some existing\<rparr>, records1)
          else if rec_status existing = Failed
          then (Inr \<lparr>canProceed = True, existingResponse = None,
                     check_record = Some existing\<rparr>, records1)
          else if rec_status existing = Processing
          then (if lock_held now (lockedUntil existing)
                then (Inl (IdempotencyError IN_PROGRESS (Some existing)), records1)
                else (Inr \<lparr>canProceed = True, existingResponse = None,
                           check_record = Some existing\<rparr>, records1))
          else (Inr \<lparr>canProceed = True, existingResponse = None, check_record = None\<rparr>,
                records1))"

definition startProcessing ::
  "IdempotencyConfig \<Rightarrow> ('p \<Rightarrow> string) \<Rightarrow> int \<Rightarrow> string \<Rightarrow> 'p \<Rightarrow> 'v MemoryStorage
     \<Rightarrow> 'v IdempotencyRecord \<times> 'v MemoryStorage" where
  "startProcessing cfg H now key requestData records =
     (let record = \<lparr>rec_key = key, requestHash = H requestData, response = None,
                     rec_status = Processing, rec_createdAt = now, completedAt = None,
                     rec_expiresAt = now + idem_ttlMs cfg,
                     lockedUntil = Some (now + lockTimeoutMs cfg)\<rparr>
      in (record, storage_set key record records))"

definition complete ::
  "int \<Rightarrow> string \<Rightarrow> 'v option \<Rightarrow> 'v MemoryStorage
     \<Rightarrow> ('v IdempotencyThrown + unit) \<times> 'v MemoryStorage" where
  "complete now key resp records =
     (case storage_get now key records of
        (None, records1) \<Rightarrow> (Inl (IdempotencyError NOT_FOUND None), records1)
      | (Some existing, records1) \<Rightarrow>
          (Inr (), storage_set key
                     (existing\<lparr>rec_status := Completed, response := resp,
                               completedAt := Some now, lockedUntil := None\<rparr>) records1))"

definition fail :: "int \<Rightarrow> string \<Rightarrow> 'v option \<Rightarrow> 'v MemoryStorage \<Rightarrow> 'v MemoryStorage" where
  "fail now key err records =
     (case storage_get now key records of
        (None, records1) \<Rightarrow> records1
      | (Some existing, records1) \<Rightarrow>
          storage_set key
            (existing\<lparr>rec_status := Failed, response := err,
                      completedAt := Some now, lockedUntil := None\<rparr>) records1)"

text \<open>The outcome of the wrapped asynchronous function, when it is invoked.\<close>

datatype 'v FnOutcome = Returns "'v option" | Throws 'v

record 'v ExecuteResult =
  exec_outcome :: "'v IdempotencyThrown + 'v option"
  exec_records :: "'v MemoryStorage"
  fn_invoked :: bool

text \<open>
  \<^verbatim>\<open>execute(key, requestData, fn)\<close>. The three clock readings are those of the check, of
  \<^verbatim>\<open>startProcessing\<close> and of the finalisation after \<^verbatim>\<open>fn\<close> settled. An error of
  \<^verbatim>\<open>complete\<close> is raised inside the \<^verbatim>\<open>try\<close> block, so the \<^verbatim>\<open>catch\<close> clause runs
  \<^verbatim>\<open>fail\<close> with it and rethrows it; \<open>wrap\<close> turns that error into the stored value.
\<close>

definition execute ::
  "IdempotencyConfig \<Rightarrow> ('p \<Rightarrow> string) \<Rightarrow> ('v IdempotencyThrown \<Rightarrow> 'v)
     \<Rightarrow> int \<Rightarrow> int \<Rightarrow> int \<Rightarrow> string \<Rightarrow> 'p \<Rightarrow> 'v FnOutcome \<Rightarrow> 'v MemoryStorage
     \<Rightarrow> 'v ExecuteResult" where
  "execute cfg H wrap tCheck tStart tEnd key requestData fn records =
     (case check H tCheck key requestData records of
        (Inl err, records1) \<Rightarrow>
          \<lparr>exec_outcome = Inl err, exec_records = records1, fn_invoked = False\<rparr>
      | (Inr chk, records1) \<Rightarrow>
          if \<not> canProceed chk \<and> existingResponse chk \<noteq> None
          then \<lparr>exec_outcome = Inr (existingResponse chk), exec_records = records1,
                 fn_invoked = False\<rparr>
          else
            (let records2 = snd (startProcessing cfg H tStart key requestData records1) in
             case fn of
               Returns result \<Rightarrow>
                 (case complete tEnd key result records2 of
                    (Inr u, records3) \<Rightarrow>
                      \<lparr>exec_outcome = Inr result, exec_records = records3, fn_invoked = True\<rparr>
                  | (Inl err, records3) \<Rightarrow>
                      \<lparr>exec_outcome = Inl err,
                       exec_records = fail tEnd key (Some (wrap err)) records3,
                       fn_invoked = True\<rparr>)
             | Throws e \<Rightarrow>
                 \<lparr>exec_outcome = Inl (FnThrown e),
                  exec_records = fail tEnd key (Some e) records2, fn_invoked = True\<rparr>))"


section \<open>Quotes, intents and routing configuration\<close>

text \<open>
  A JavaScript number is an IEEE double: a finite value (\<open>Num r\<close>, where \<open>Num 0\<close> is the
  positive zero), the negative zero, an infinity or NaN. The comparisons \<^verbatim>\<open><\<close>, \<^verbatim>\<open>>\<close>,
  \<^verbatim>\<open><=\<close> and \<^verbatim>\<open>===\<close> and the functions \<^verbatim>\<open>Math.min\<close> and \<^verbatim>\<open>Math.max\<close> do not round; they are
  written out. Every comparison with NaN is false, and the two zeros compare equal.
\<close>

datatype jsnum = Num real | NegZero | PosInf | NegInf | NaN

fun js_class :: "jsnum \<Rightarrow> int" where
  "js_class PosInf = 1"
| "js_class NegInf = - 1"
| "js_class _ = 0"

fun js_fin :: "jsnum \<Rightarrow> real" where
  "js_fin (Num r) = r"
| "js_fin _ = 0"

definition js_lt :: "jsnum \<Rightarrow> jsnum \<Rightarrow> bool" where
  "js_lt a b =
     (a \<noteq> NaN \<and> b \<noteq> NaN
      \<and> (js_class a < js_class b \<or> (js_class a = js_class b \<and> js_fin a < js_fin b)))"

definition js_gt :: "jsnum \<Rightarrow> jsnum \<Rightarrow> bool" where
  "js_gt a b = js_lt b a"

definition js_le :: "jsnum \<Rightarrow> jsnum \<Rightarrow> bool" where
  "js_le a b = (a \<noteq> NaN \<and> b \<noteq> NaN \<and> \<not> js_lt b a)"

definition js_eq :: "jsnum \<Rightarrow> jsnum \<Rightarrow> bool" where
  "js_eq a b =
     (a \<noteq> NaN \<and> b \<noteq> NaN \<and> js_class a = js_class b \<and> js_fin a = js_fin b)"

text \<open>\<^verbatim>\<open>Math.min\<close> and \<^verbatim>\<open>Math.max\<close> of two numbers: NaN if either is, and the negative zero
  is below the positive one.\<close>

definition js_min2 :: "jsnum \<Rightarrow> jsnum \<Rightarrow> jsnum" where
  "js_min2 a b =
     (if a = NaN \<or> b = NaN then NaN
      else if js_lt a b then a
      else if js_lt b a then b
      else if b = NegZero then b else a)"

definition js_max2 :: "jsnum \<Rightarrow> jsnum \<Rightarrow> jsnum" where
  "js_max2 a b =
     (if a = NaN \<or> b = NaN then NaN
      else if js_lt a b then b
      else if js_lt b a then a
      else if a = NegZero then b else a)"

text \<open>
  The operations that round, \<^verbatim>\<open>+\<close>, \<^verbatim>\<open>-\<close>, \<^verbatim>\<open>*\<close> and \<^verbatim>\<open>/\<close>, and the double that a decimal
  literal such as \<^verbatim>\<open>0.8\<close> denotes, belong to the language runtime. The functions that
  calculate take them as the parameter \<open>ops\<close>, about which nothing is assumed. A
  literal that is a whole number \<open>n\<close> is written \<open>Num n\<close>.
\<close>

record FloatOps =
  fadd :: "jsnum \<Rightarrow> jsnum \<Rightarrow> jsnum"
  fsub :: "jsnum \<Rightarrow> jsnum \<Rightarrow> jsnum"
  fmul :: "jsnum \<Rightarrow> jsnum \<Rightarrow> jsnum"
  fdiv :: "jsnum \<Rightarrow> jsnum \<Rightarrow> jsnum"
  lit :: "real \<Rightarrow> jsnum"

text \<open>
  The conversions of a number to text (\<^verbatim>\<open>toFixed\<close> and template interpolation) belong to
  the language runtime as well; the functions that build messages take them as the
  parameter \<open>fmt\<close>.
\<close>

record NumberFormat =
  toFixed :: "nat \<Rightarrow> jsnum \<Rightarrow> string"
  toText :: "jsnum \<Rightarrow> string"

text \<open>
  \<^verbatim>\<open>RegionLimits\<close> and \<^verbatim>\<open>RegionQuote\<close> of src/src/types/quote.ts, with the fields the
  routing code reads; the fields it only carries along (fee breakdown, region currency, FX
  rate, quote time and validity) are left out. Optional fields are options. The limits
  \<^verbatim>\<open>min\<close> and \<^verbatim>\<open>max\<close> are named \<open>limits_min\<close> and \<open>limits_max\<close>.
\<close>

record RegionLimits =
  limits_min :: jsnum
  limits_max :: jsnum
  remainingDaily :: "jsnum option"

record RegionQuote =
  region :: string
  routerId :: string
  routerName :: "string option"
  totalCost :: jsnum
  limits :: RegionLimits
  successRate :: "jsnum option"
  latencyMs :: "jsnum option"
  score :: jsnum
  reasons :: "string list"
  available :: bool
  unavailableReason :: "string option"
  supportedMethods :: "string list option"

text \<open>
  \<^verbatim>\<open>PaymentIntent\<close> (types/intent.ts) and \<^verbatim>\<open>RoutingWeights\<close>, \<^verbatim>\<open>FallbackConfig\<close>,
  \<^verbatim>\<open>RoutingMode\<close>, \<^verbatim>\<open>RoutingConfig\<close> and \<^verbatim>\<open>ComplianceConfig\<close> (types/config.ts), declared at
  src/src/ratelimit/index.ts, lines 661 to 845. The records hold the fields that the filter,
  the scorer and \<^verbatim>\<open>pay()\<close> read: of the intent its \<^verbatim>\<open>id\<close> (named \<open>intent_id\<close>), \<^verbatim>\<open>amount\<close>,
  \<^verbatim>\<open>currency\<close> and \<^verbatim>\<open>paymentMethod\<close>; of the routing configuration everything but
  \<^verbatim>\<open>customScorer\<close> and \<^verbatim>\<open>strategy\<close>; of the compliance configuration
  \<^verbatim>\<open>enforceAllowedRegions\<close>. The fields \<^verbatim>\<open>enabled\<close> and \<^verbatim>\<open>maxTries\<close> of \<^verbatim>\<open>FallbackConfig\<close> are
  declared mandatory; \<^verbatim>\<open>pay()\<close> reads both with a default (\<^verbatim>\<open>?? true\<close>, \<^verbatim>\<open>?? 3\<close>), so
  they are options here, and so is \<^verbatim>\<open>backoffMs\<close>, which is declared optional. \<^verbatim>\<open>maxTries\<close>
  and \<^verbatim>\<open>backoffMs\<close> are whole numbers.
\<close>

record PaymentIntent =
  intent_id :: string
  amount :: jsnum
  currency :: string
  paymentMethod :: string

record RoutingWeights =
  price :: jsnum
  success :: jsnum
  latency :: jsnum

record FallbackConfig =
  enabled :: "bool option"
  maxTries :: "int option"
  backoffMs :: "int option"

datatype RoutingMode = Auto | Pinned | DryRun

record RoutingConfig =
  mode :: RoutingMode
  pinnedRegion :: "string option"
  allowedRegions :: "string list option"
  blockedRegions :: "string list option"
  weights :: "RoutingWeights option"
  fallback :: "FallbackConfig option"

record ComplianceConfig =
  enforceAllowedRegions :: "bool option"


section \<open>Filter engine (routing/filter.ts, in src/src/cache/index.ts)\<close>

datatype FilterReason =
    region_not_allowed
  | region_blocked
  | amount_below_min
  | amount_above_max
  | daily_limit_exceeded
  | method_not_supported
  | region_unavailable
  | compliance_blocked
  | currency_not_supported

record FilteredQuote =
  quote :: RegionQuote
  reason :: FilterReason
  details :: "string option"

record FilterResult =
  passed :: "RegionQuote list"
  filtered :: "FilteredQuote list"

text \<open>
  \<^verbatim>\<open>checkQuote\<close>, guard by guard. \<^verbatim>\<open>routingConfig?.allowedRegions\<close> is undefined when there
  is no configuration or no list; a list is truthy, also the empty one, and the test of
  its length follows. The compliance branch of the source has an empty body.
\<close>

definition checkQuote ::
  "NumberFormat \<Rightarrow> RegionQuote \<Rightarrow> PaymentIntent \<Rightarrow> RoutingConfig option
     \<Rightarrow> ComplianceConfig option \<Rightarrow> FilteredQuote option" where
  "checkQuote fmt q intent routingConfig complianceConfig =
     (if \<not> available q
      then Some \<lparr>quote = q, reason = region_unavailable, details = unavailableReason q\<rparr>
      else if (case routingConfig of
                 None \<Rightarrow> False
               | Some rc \<Rightarrow>
                   (case allowedRegions rc of
                      None \<Rightarrow> False
                    | Some al \<Rightarrow> length al > 0 \<and> \<not> List.member al (region q)))
      then Some \<lparr>quote = q, reason = region_not_allowed,
                 details = Some (''Region '' @ region q @ '' not in allowed list'')\<rparr>
      else if (case routingConfig of
                 None \<Rightarrow> False
               | Some rc \<Rightarrow>
                   (case blockedRegions rc of
                      None \<Rightarrow> False
                    | Some bl \<Rightarrow> length bl > 0 \<and> List.member bl (region q)))
      then Some \<lparr>quote = q, reason = region_blocked,
                 details = Some (''Region '' @ region q @ '' is blocked'')\<rparr>
      else if js_lt (amount intent) (limits_min (limits q))
      then Some \<lparr>quote = q, reason = amount_below_min,
                 details = Some (''Amount '' @ toText fmt (amount intent) @ '' below minimum ''
                                  @ toText fmt (limits_min (limits q)))\<rparr>
      else if js_gt (amount intent) (limits_max (limits q))
      then Some \<lparr>quote = q, reason = amount_above_max,
                 details = Some (''Amount '' @ toText fmt (amount intent) @ '' above maximum ''
                                  @ toText fmt (limits_max (limits q)))\<rparr>
      else if (case remainingDaily (limits q) of
                 None \<Rightarrow> False
               | Some rd \<Rightarrow> js_gt (amount intent) rd)
      then Some \<lparr>quote = q, reason = daily_limit_exceeded,
                 details = Some (''Amount '' @ toText fmt (amount intent)
                                  @ '' exceeds daily limit ''
                                  @ (case remainingDaily (limits q) of
                                       None \<Rightarrow> [] | Some rd \<Rightarrow> toText fmt rd))\<rparr>
      else if (case supportedMethods q of
                 None \<Rightarrow> False
               | Some ms \<Rightarrow> length ms > 0 \<and> \<not> List.member ms (paymentMethod intent))
      then Some \<lparr>quote = q, reason = method_not_supported,
                 details = Some (''Method '' @ paymentMethod intent
                                  @ '' not supported in '' @ region q)\<rparr>
      else None)"

text \<open>\<^verbatim>\<open>filterQuotes\<close>: the loop pushes each quote onto \<^verbatim>\<open>passed\<close> or onto \<^verbatim>\<open>filtered\<close>.\<close>

fun filterQuotes_loop ::
  "NumberFormat \<Rightarrow> PaymentIntent \<Rightarrow> RoutingConfig option \<Rightarrow> ComplianceConfig option
     \<Rightarrow> RegionQuote list \<Rightarrow> FilterResult \<Rightarrow> FilterResult" where
  "filterQuotes_loop fmt intent rc cc [] acc = acc"
| "filterQuotes_loop fmt intent rc cc (q # qs) acc =
     (case checkQuote fmt q intent rc cc of
        None \<Rightarrow> filterQuotes_loop fmt intent rc cc qs (acc\<lparr>passed := passed acc @ [q]\<rparr>)
      | Some f \<Rightarrow> filterQuotes_loop fmt intent rc cc qs (acc\<lparr>filtered := filtered acc @ [f]\<rparr>))"

definition filterQuotes ::
  "NumberFormat \<Rightarrow> RegionQuote list \<Rightarrow> PaymentIntent \<Rightarrow> RoutingConfig option
     \<Rightarrow> ComplianceConfig option \<Rightarrow> FilterResult" where
  "filterQuotes fmt quotes intent rc cc =
     filterQuotes_loop fmt intent rc cc quotes \<lparr>passed = [], filtered = []\<rparr>"

text \<open>
  Modelled from the spec: the seven gates of its filter section, in its order, each a
  reason and whether the gate fails. The gates are worded over plain data: the available
  flag, the region, the allow-list and the block-list (empty when none is configured), the
  amount, the two limits and the optional daily limit, the method and the method list
  (empty when the quote has none). Below and above are the comparisons of the language.
  \<open>first_failing\<close> is the reason of the first failing gate.
\<close>

definition spec_gates ::
  "bool \<Rightarrow> string \<Rightarrow> string list \<Rightarrow> string list \<Rightarrow> jsnum \<Rightarrow> jsnum \<Rightarrow> jsnum
     \<Rightarrow> jsnum option \<Rightarrow> string \<Rightarrow> string list \<Rightarrow> (FilterReason \<times> bool) list" where
  "spec_gates avail reg allow block amt lo hi daily method methods =
     [(region_unavailable, avail = False),
      (region_not_allowed, allow \<noteq> [] \<and> reg \<notin> set allow),
      (region_blocked, reg \<in> set block),
      (amount_below_min, js_lt amt lo),
      (amount_above_max, js_lt hi amt),
      (daily_limit_exceeded, (case daily of None \<Rightarrow> False | Some rd \<Rightarrow> js_lt rd amt)),
      (method_not_supported, methods \<noteq> [] \<and> method \<notin> set methods)]"

definition first_failing :: "(FilterReason \<times> bool) list \<Rightarrow> FilterReason option" where
  "first_failing gates = map_option fst (find snd gates)"


section \<open>Scoring engine (src/src/routing/scorer.ts)\<close>

record Range =
  range_min :: jsnum
  range_max :: jsnum

record Ranges =
  cost :: Range
  successRateRange :: Range
  latencyRange :: Range

record ScoringMeta =
  totalQuotes :: nat
  weightsUsed :: RoutingWeights
  ranges :: Ranges

record ScoringResult =
  quotes :: "RegionQuote list"
  best :: "RegionQuote option"
  meta :: ScoringMeta

definition DEFAULT_WEIGHTS :: "FloatOps \<Rightarrow> RoutingWeights" where
  "DEFAULT_WEIGHTS ops = \<lparr>price = lit ops 0.7, success = lit ops 0.25, latency = lit ops 0.05\<rparr>"

text \<open>\<^verbatim>\<open>Math.min(...xs)\<close> and \<^verbatim>\<open>Math.max(...xs)\<close>: of no argument they are \<open>+\<infinity>\<close> and
  \<open>-\<infinity>\<close>.\<close>

definition math_min :: "jsnum list \<Rightarrow> jsnum" where
  "math_min xs = fold (\<lambda>x acc. js_min2 acc x) xs PosInf"

definition math_max :: "jsnum list \<Rightarrow> jsnum" where
  "math_max xs = fold (\<lambda>x acc. js_max2 acc x) xs NegInf"

definition normalize :: "FloatOps \<Rightarrow> jsnum \<Rightarrow> jsnum \<Rightarrow> jsnum \<Rightarrow> jsnum" where
  "normalize ops v lo hi =
     (if js_eq hi lo then Num 0 else fdiv ops (fsub ops v lo) (fsub ops hi lo))"

definition calculatePenalties :: "FloatOps \<Rightarrow> RegionQuote \<Rightarrow> jsnum" where
  "calculatePenalties ops q =
     (let penalty0 = Num 0;
          penalty1 =
            (case remainingDaily (limits q) of
               None \<Rightarrow> penalty0
             | Some rd \<Rightarrow>
                 (let limitRatio = fsub ops (Num 1) (fdiv ops rd (limits_max (limits q))) in
                  if js_gt limitRatio (lit ops 0.8)
                  then fadd ops penalty0
                         (fmul ops (fmul ops (lit ops 0.1) (fsub ops limitRatio (lit ops 0.8)))
                            (Num 5))
                  else penalty0));
          penalty2 =
            (case successRate q of
               None \<Rightarrow> penalty1
             | Some sr \<Rightarrow>
                 if js_lt sr (lit ops 0.8)
                 then fadd ops penalty1 (fmul ops (fsub ops (lit ops 0.8) sr) (lit ops 0.2))
                 else penalty1);
          penalty3 =
            (case latencyMs q of
               None \<Rightarrow> penalty2
             | Some l \<Rightarrow>
                 if js_gt l (Num 500) then fadd ops penalty2 (lit ops 0.05) else penalty2)
      in penalty3)"

text \<open>\<^verbatim>\<open>calculateScore\<close>: the weighted sum, added from the left, plus the penalties,
  clamped by \<^verbatim>\<open>Math.max(0, Math.min(1, score))\<close>, which leaves NaN as it is.\<close>

definition calculateScore :: "FloatOps \<Rightarrow> RegionQuote \<Rightarrow> RoutingWeights \<Rightarrow> Ranges \<Rightarrow> jsnum" where
  "calculateScore ops q w rs =
     (let normalizedCost =
            normalize ops (totalCost q) (range_min (cost rs)) (range_max (cost rs));
          sr = (case successRate q of None \<Rightarrow> lit ops 0.9 | Some s \<Rightarrow> s);
          normalizedSuccessInverted =
            fsub ops (Num 1)
              (normalize ops sr (range_min (successRateRange rs))
                 (range_max (successRateRange rs)));
          lat = (case latencyMs q of None \<Rightarrow> Num 100 | Some l \<Rightarrow> l);
          normalizedLatency =
            normalize ops lat (range_min (latencyRange rs)) (range_max (latencyRange rs));
          weighted =
            fadd ops
              (fadd ops (fmul ops (price w) normalizedCost)
                 (fmul ops (success w) normalizedSuccessInverted))
              (fmul ops (latency w) normalizedLatency);
          total = fadd ops weighted (calculatePenalties ops q)
      in js_max2 (Num 0) (js_min2 (Num 1) total))"

text \<open>The warning sign that opens two of the reasons, as its UTF-8 bytes (U+26A0, U+FE0F).\<close>

definition warning_sign :: string where
  "warning_sign = [CHR 0xE2, CHR 0x9A, CHR 0xA0, CHR 0xEF, CHR 0xB8, CHR 0x8F]"

definition generateReasons ::
  "FloatOps \<Rightarrow> NumberFormat \<Rightarrow> RegionQuote \<Rightarrow> jsnum \<Rightarrow> RoutingWeights \<Rightarrow> string list" where
  "generateReasons ops fmt q sc w =
     (if js_gt (price w) (lit ops 0.5)
      then [''Cost: '' @ toFixed fmt 2 (totalCost q) @ '' (weight: ''
              @ toText fmt (price w) @ '')'']
      else [])
     @ (case successRate q of
          None \<Rightarrow> []
        | Some sr \<Rightarrow>
            [''Success rate: '' @ toFixed fmt 1 (fmul ops sr (Num 100)) @ ''%'']
            @ (if js_lt sr (lit ops 0.85)
               then [warning_sign @ '' Below average success rate''] else []))
     @ (case latencyMs q of
          None \<Rightarrow> []
        | Some l \<Rightarrow>
            [''Latency: '' @ toText fmt l @ ''ms'']
            @ (if js_gt l (Num 500)
               then [warning_sign @ '' Higher than average latency''] else []))
     @ (case remainingDaily (limits q) of
          None \<Rightarrow> []
        | Some rd \<Rightarrow>
            [''Daily limit: ''
               @ toFixed fmt 0 (fmul ops (fdiv ops rd (limits_max (limits q))) (Num 100))
               @ ''% remaining''])
     @ [''Final score: '' @ toFixed fmt 3 sc]"

definition scoreOne ::
  "FloatOps \<Rightarrow> NumberFormat \<Rightarrow> RoutingWeights \<Rightarrow> Ranges \<Rightarrow> RegionQuote \<Rightarrow> RegionQuote" where
  "scoreOne ops fmt w rs q =
     (let sc = calculateScore ops q w rs in
      q\<lparr>score := sc, reasons := generateReasons ops fmt q sc w\<rparr>)"

text \<open>
  \<^verbatim>\<open>scoredQuotes.sort((a, b) => a.score - b.score)\<close>. \<^verbatim>\<open>Array.prototype.sort\<close> is stable and
  orders by the comparator, whose result it takes as 0 when it is NaN; \<open>sort_after\<close> is
  the comparator's verdict that \<open>a\<close> goes after \<open>b\<close>, a result above 0. The sort is written
  as the insertion sort that puts each element before the first one it does not go after.
  When the comparator is a consistent order of the elements, every stable sort returns
  this list; when it is not (a NaN score can make it so), the language leaves the order to
  the implementation, and the insertion sort stands for it.
\<close>

definition sort_after :: "FloatOps \<Rightarrow> RegionQuote \<Rightarrow> RegionQuote \<Rightarrow> bool" where
  "sort_after ops a b = js_gt (fsub ops (score a) (score b)) (Num 0)"

fun sort_insert :: "FloatOps \<Rightarrow> RegionQuote \<Rightarrow> RegionQuote list \<Rightarrow> RegionQuote list" where
  "sort_insert ops x [] = [x]"
| "sort_insert ops x (y # ys) =
     (if sort_after ops x y then y # sort_insert ops x ys else x # y # ys)"

definition array_sort :: "FloatOps \<Rightarrow> RegionQuote list \<Rightarrow> RegionQuote list" where
  "array_sort ops xs = foldr (sort_insert ops) xs []"

text \<open>
  \<^verbatim>\<open>scoreQuotes\<close>. The default argument \<^verbatim>\<open>DEFAULT_WEIGHTS\<close> is passed by the caller as
  \<^const>\<open>DEFAULT_WEIGHTS\<close>.
\<close>

definition scoreQuotes ::
  "FloatOps \<Rightarrow> NumberFormat \<Rightarrow> RegionQuote list \<Rightarrow> RoutingWeights \<Rightarrow> ScoringResult" where
  "scoreQuotes ops fmt qs w =
     (if length qs = 0
      then \<lparr>quotes = [], best = None,
             meta = \<lparr>totalQuotes = 0, weightsUsed = w,
                     ranges = \<lparr>cost = \<lparr>range_min = Num 0, range_max = Num 0\<rparr>,
                               successRateRange = \<lparr>range_min = Num 0, range_max = Num 0\<rparr>,
                               latencyRange = \<lparr>range_min = Num 0, range_max = Num 0\<rparr>\<rparr>\<rparr>\<rparr>
      else
        (let costs = map totalCost qs;
             successRates =
               map (\<lambda>q. case successRate q of None \<Rightarrow> lit ops 0.9 | Some s \<Rightarrow> s) qs;
             latencies = map (\<lambda>q. case latencyMs q of None \<Rightarrow> Num 100 | Some l \<Rightarrow> l) qs;
             rs = \<lparr>cost = \<lparr>range_min = math_min costs, range_max = math_max costs\<rparr>,
                   successRateRange =
                     \<lparr>range_min = math_min successRates, range_max = math_max successRates\<rparr>,
                   latencyRange = \<lparr>range_min = math_min latencies, range_max = math_max latencies\<rparr>\<rparr>;
             scoredQuotes = array_sort ops (map (scoreOne ops fmt w rs) qs)
         in \<lparr>quotes = scoredQuotes,
              best = (case scoredQuotes of [] \<Rightarrow> None | b # _ \<Rightarrow> Some b),
              meta = \<lparr>totalQuotes = length qs, weightsUsed = w, ranges = rs\<rparr>\<rparr>))"


section \<open>Circuit breaker (src/src/circuit-breaker/index.ts)\<close>

text \<open>
  The breaker is a record passed through its methods. A method body that runs without
  suspension reads the clock once (\<open>now\<close>). \<open>halfOpenTimer\<close> is the time at which the
  pending timer is due. The error type is \<open>'e\<close>. Fields that other records also have carry
  the prefix \<open>call_\<close>.

  The configured functions are the caller's code and may throw. \<^verbatim>\<open>isFailure\<close> gives \<open>Inr\<close>
  of its verdict or \<open>Inl\<close> of what it throws. The callbacks \<^verbatim>\<open>onOpen\<close>, \<^verbatim>\<open>onClose\<close> and
  \<^verbatim>\<open>onHalfOpen\<close> return nothing; each is given by what its runs throw: \<open>onClose cfg n\<close> is
  \<open>Some e\<close> when the callback, run as the breaker's callback number \<open>n\<close> (counted from 0 over
  all three), throws \<open>e\<close>, and \<open>None\<close> when it returns. The statistics passed to a callback
  are not modelled. The callbacks that ran are recorded in \<open>callbacks\<close>, in order, by the
  state they announce.
\<close>

datatype CircuitState = Closed | Open | HalfOpen

record 'e CircuitBreakerConfig =
  failureThreshold :: int
  resetTimeoutMs :: int
  successThreshold :: int
  rollingWindowMs :: int
  isFailure :: "'e \<Rightarrow> 'e + bool"
  onOpen :: "nat \<Rightarrow> 'e option"
  onClose :: "nat \<Rightarrow> 'e option"
  onHalfOpen :: "nat \<Rightarrow> 'e option"
  monitorIntervalMs :: int

text \<open>The constructor's defaults for the optional settings: every error is a failure, and
  the callbacks do nothing.\<close>

definition newCircuitBreakerConfig ::
  "int \<Rightarrow> int \<Rightarrow> int option \<Rightarrow> int option \<Rightarrow> ('e \<Rightarrow> 'e + bool) option
     \<Rightarrow> (nat \<Rightarrow> 'e option) option \<Rightarrow> (nat \<Rightarrow> 'e option) option
     \<Rightarrow> (nat \<Rightarrow> 'e option) option \<Rightarrow> int option \<Rightarrow> 'e CircuitBreakerConfig" where
  "newCircuitBreakerConfig ft rt st rw isF onO onC onH mi =
     \<lparr>failureThreshold = ft, resetTimeoutMs = rt,
      successThreshold = (case st of None \<Rightarrow> 3 | Some n \<Rightarrow> n),
      rollingWindowMs = (case rw of None \<Rightarrow> 60000 | Some n \<Rightarrow> n),
      isFailure = (case isF of None \<Rightarrow> (\<lambda>e. Inr True) | Some f \<Rightarrow> f),
      onOpen = (case onO of None \<Rightarrow> (\<lambda>n. None) | Some f \<Rightarrow> f),
      onClose = (case onC of None \<Rightarrow> (\<lambda>n. None) | Some f \<Rightarrow> f),
      onHalfOpen = (case onH of None \<Rightarrow> (\<lambda>n. None) | Some f \<Rightarrow> f),
      monitorIntervalMs = (case mi of None \<Rightarrow> 10000 | Some n \<Rightarrow> n)\<rparr>"

record 'e CircuitCall =
  call_timestamp :: int
  call_success :: bool
  call_duration :: int
  call_error :: "'e option"

record 'e CircuitBreaker =
  state :: CircuitState
  calls :: "'e CircuitCall list"
  consecutiveSuccesses :: nat
  consecutiveFailures :: nat
  lastFailureTime :: "int option"
  lastSuccessTime :: "int option"
  openedAt :: "int option"
  halfOpenTimer :: "int option"
  callbacks :: "CircuitState list"

definition newCircuitBreaker :: "'e CircuitBreaker" where
  "newCircuitBreaker =
     \<lparr>state = Closed, calls = [], consecutiveSuccesses = 0, consecutiveFailures = 0,
      lastFailureTime = None, lastSuccessTime = None, openedAt = None,
      halfOpenTimer = None, callbacks = []\<rparr>"

definition cleanupOldCalls :: "'e CircuitBreakerConfig \<Rightarrow> int \<Rightarrow> 'e CircuitBreaker \<Rightarrow> 'e CircuitBreaker" where
  "cleanupOldCalls cfg now b =
     (let cutoff = now - rollingWindowMs cfg in
      b\<lparr>calls := filter (\<lambda>c. call_timestamp c \<ge> cutoff) (calls b)\<rparr>)"

text \<open>
  \<^verbatim>\<open>transitionTo\<close>: nothing happens on a transition to the current state; otherwise the
  state is set, the pending timer is cleared, \<^verbatim>\<open>getStats()\<close> cleans the call window, and
  the new state's branch runs, the callback last but for the timer that the open branch
  sets after it. The result is what the callback threw, if it did, and the breaker as the
  method leaves it: the assignments made before the callback stay when it throws.
\<close>

definition transitionTo ::
  "'e CircuitBreakerConfig \<Rightarrow> int \<Rightarrow> CircuitState \<Rightarrow> 'e CircuitBreaker
     \<Rightarrow> 'e option \<times> 'e CircuitBreaker" where
  "transitionTo cfg now newState b =
     (if state b = newState then (None, b)
      else
        (let b1 = cleanupOldCalls cfg now (b\<lparr>state := newState, halfOpenTimer := None\<rparr>);
             n = length (callbacks b1) in
         case newState of
           Open \<Rightarrow>
             (let b2 = b1\<lparr>openedAt := Some now, callbacks := callbacks b1 @ [Open]\<rparr> in
              case onOpen cfg n of
                Some e \<Rightarrow> (Some e, b2)
              | None \<Rightarrow> (None, b2\<lparr>halfOpenTimer := Some (now + resetTimeoutMs cfg)\<rparr>))
         | HalfOpen \<Rightarrow> (onHalfOpen cfg n, b1\<lparr>callbacks := callbacks b1 @ [HalfOpen]\<rparr>)
         | Closed \<Rightarrow>
             (onClose cfg n,
              b1\<lparr>openedAt := None, consecutiveFailures := 0,
                 callbacks := callbacks b1 @ [Closed]\<rparr>)))"

text \<open>\<^verbatim>\<open>shouldAttemptReset\<close>; \<^verbatim>\<open>!this.openedAt\<close> holds for \<^verbatim>\<open>null\<close> and for the time 0.\<close>

definition shouldAttemptReset :: "'e CircuitBreakerConfig \<Rightarrow> int \<Rightarrow> 'e CircuitBreaker \<Rightarrow> bool" where
  "shouldAttemptReset cfg now b =
     (case openedAt b of
        None \<Rightarrow> True
      | Some t \<Rightarrow> if t = 0 then True else now - t \<ge> resetTimeoutMs cfg)"

text \<open>\<^verbatim>\<open>recordSuccess\<close> and \<^verbatim>\<open>recordFailure\<close> end with the transition, if there is one, and
  throw what it throws.\<close>

definition recordSuccess ::
  "'e CircuitBreakerConfig \<Rightarrow> int \<Rightarrow> int \<Rightarrow> 'e CircuitBreaker \<Rightarrow> 'e option \<times> 'e CircuitBreaker" where
  "recordSuccess cfg now dur b =
     (let b1 = b\<lparr>calls := calls b @ [\<lparr>call_timestamp = now, call_success = True,
                                       call_duration = dur, call_error = None\<rparr>],
                 consecutiveSuccesses := consecutiveSuccesses b + 1,
                 consecutiveFailures := 0,
                 lastSuccessTime := Some now\<rparr>;
          b2 = cleanupOldCalls cfg now b1
      in if state b2 = HalfOpen \<and> int (consecutiveSuccesses b2) \<ge> successThreshold cfg
         then transitionTo cfg now Closed b2
         else (None, b2))"

definition recordFailure ::
  "'e CircuitBreakerConfig \<Rightarrow> int \<Rightarrow> int \<Rightarrow> 'e option \<Rightarrow> 'e CircuitBreaker
     \<Rightarrow> 'e option \<times> 'e CircuitBreaker" where
  "recordFailure cfg now dur err b =
     (let b1 = b\<lparr>calls := calls b @ [\<lparr>call_timestamp = now, call_success = False,
                                       call_duration = dur, call_error = err\<rparr>],
                 consecutiveFailures := consecutiveFailures b + 1,
                 consecutiveSuccesses := 0,
                 lastFailureTime := Some now\<rparr>;
          b2 = cleanupOldCalls cfg now b1
      in if state b2 = HalfOpen then transitionTo cfg now Open b2
         else if state b2 = Closed
         then (let failures = length (filter (\<lambda>c. \<not> call_success c) (calls b2)) in
               if int failures \<ge> failureThreshold cfg then transitionTo cfg now Open b2
               else (None, b2))
         else (None, b2))"

text \<open>
  \<^verbatim>\<open>execute(fn)\<close> in two parts, before and after the awaited call. \<open>execute_begin\<close> is the
  check of the state: the function is to be called (\<open>Proceed\<close>), the configured fallback
  is returned instead (\<open>ShortCircuit\<close>), or the transition to half-open threw, which
  \<^verbatim>\<open>execute\<close> does not catch (\<open>BeginThrew\<close>). The outcome of \<^verbatim>\<open>fn\<close> is \<open>Inr\<close> of the value it
  resolves to or \<open>Inl\<close> of what it throws. \<open>execute_catch\<close> is the catch block: it is
  entered with what \<^verbatim>\<open>fn\<close> threw, or with what \<^verbatim>\<open>recordSuccess\<close> threw inside the try
  block after \<^verbatim>\<open>fn\<close> had returned, and whatever is thrown inside it leaves \<^verbatim>\<open>execute\<close>
  before \<^verbatim>\<open>throw error\<close> is reached.
\<close>

datatype ('a, 'e) ExecResult = Returned 'a | Threw 'e | FallbackInvoked

datatype 'e BeginResult =
    Proceed "'e CircuitBreaker"
  | ShortCircuit
  | BeginThrew 'e "'e CircuitBreaker"

definition execute_begin ::
  "'e CircuitBreakerConfig \<Rightarrow> int \<Rightarrow> 'e CircuitBreaker \<Rightarrow> 'e BeginResult" where
  "execute_begin cfg now b =
     (if state b = Open
      then (if shouldAttemptReset cfg now b
            then (case transitionTo cfg now HalfOpen b of
                    (None, b1) \<Rightarrow> Proceed b1
                  | (Some e, b1) \<Rightarrow> BeginThrew e b1)
            else ShortCircuit)
      else Proceed b)"

definition execute_catch ::
  "'e CircuitBreakerConfig \<Rightarrow> int \<Rightarrow> int \<Rightarrow> 'e \<Rightarrow> 'e CircuitBreaker
     \<Rightarrow> ('a, 'e) ExecResult \<times> 'e CircuitBreaker" where
  "execute_catch cfg startTime now error b =
     (case isFailure cfg error of
        Inl thrown \<Rightarrow> (Threw thrown, b)
      | Inr failure \<Rightarrow>
          (case (if failure then recordFailure cfg now (now - startTime) (Some error) b
                 else recordSuccess cfg now (now - startTime) b) of
             (None, b1) \<Rightarrow> (Threw error, b1)
           | (Some thrown, b1) \<Rightarrow> (Threw thrown, b1)))"

definition execute_end ::
  "'e CircuitBreakerConfig \<Rightarrow> int \<Rightarrow> int \<Rightarrow> 'e + 'a \<Rightarrow> 'e CircuitBreaker
     \<Rightarrow> ('a, 'e) ExecResult \<times> 'e CircuitBreaker" where
  "execute_end cfg startTime now fn b =
     (case fn of
        Inr result \<Rightarrow>
          (case recordSuccess cfg now (now - startTime) b of
             (None, b1) \<Rightarrow> (Returned result, b1)
           | (Some thrown, b1) \<Rightarrow> execute_catch cfg startTime now thrown b1)
      | Inl error \<Rightarrow> execute_catch cfg startTime now error b)"

definition breaker_execute ::
  "'e CircuitBreakerConfig \<Rightarrow> int \<Rightarrow> int \<Rightarrow> 'e + 'a \<Rightarrow> 'e CircuitBreaker
     \<Rightarrow> ('a, 'e) ExecResult \<times> 'e CircuitBreaker" where
  "breaker_execute cfg startTime endTime fn b =
     (case execute_begin cfg startTime b of
        ShortCircuit \<Rightarrow> (FallbackInvoked, b)
      | BeginThrew thrown b1 \<Rightarrow> (Threw thrown, b1)
      | Proceed b1 \<Rightarrow> execute_end cfg startTime endTime fn b1)"

text \<open>Whether \<^verbatim>\<open>execute\<close> calls \<^verbatim>\<open>fn\<close>.\<close>

definition calls_fn :: "'e CircuitBreakerConfig \<Rightarrow> int \<Rightarrow> 'e CircuitBreaker \<Rightarrow> bool" where
  "calls_fn cfg startTime b =
     (case execute_begin cfg startTime b of Proceed b1 \<Rightarrow> True | _ \<Rightarrow> False)"

text \<open>The callback of the timer set on opening, and the body of the monitor's interval;
  what they throw is thrown in the timer's turn.\<close>

definition halfOpenTimer_fires ::
  "'e CircuitBreakerConfig \<Rightarrow> int \<Rightarrow> 'e CircuitBreaker \<Rightarrow> 'e option \<times> 'e CircuitBreaker" where
  "halfOpenTimer_fires cfg now b =
     (if state b = Open then transitionTo cfg now HalfOpen b else (None, b))"

definition monitor_tick ::
  "'e CircuitBreakerConfig \<Rightarrow> int \<Rightarrow> 'e CircuitBreaker \<Rightarrow> 'e option \<times> 'e CircuitBreaker" where
  "monitor_tick cfg now b =
     (let b1 = cleanupOldCalls cfg now b in
      if state b1 = Open \<and> shouldAttemptReset cfg now b1
      then transitionTo cfg now HalfOpen b1
      else (None, b1))"

definition trip ::
  "'e CircuitBreakerConfig \<Rightarrow> int \<Rightarrow> 'e CircuitBreaker \<Rightarrow> 'e option \<times> 'e CircuitBreaker" where
  "trip cfg now b = transitionTo cfg now Open b"

definition reset ::
  "'e CircuitBreakerConfig \<Rightarrow> int \<Rightarrow> 'e CircuitBreaker \<Rightarrow> 'e option \<times> 'e CircuitBreaker" where
  "reset cfg now b =
     (case transitionTo cfg now Closed b of
        (Some thrown, b1) \<Rightarrow> (Some thrown, b1)
      | (None, b1) \<Rightarrow>
          (None, b1\<lparr>calls := [], consecutiveSuccesses := 0, consecutiveFailures := 0,
                    lastFailureTime := None, lastSuccessTime := None, openedAt := None\<rparr>))"

text \<open>A run of calls whose functions all throw, or all return, each given by its start and
  end time.\<close>

fun failures_run ::
  "'e CircuitBreakerConfig \<Rightarrow> (int \<times> int \<times> 'e) list \<Rightarrow> 'e CircuitBreaker \<Rightarrow> 'e CircuitBreaker" where
  "failures_run cfg [] b = b"
| "failures_run cfg ((t0, t1, e) # rest) b =
     failures_run cfg rest (snd (breaker_execute cfg t0 t1 (Inl e :: 'e + unit) b))"

fun successes_run ::
  "'e CircuitBreakerConfig \<Rightarrow> (int \<times> int) list \<Rightarrow> 'e CircuitBreaker \<Rightarrow> 'e CircuitBreaker" where
  "successes_run cfg [] b = b"
| "successes_run cfg ((t0, t1) # rest) b =
     successes_run cfg rest (snd (breaker_execute cfg t0 t1 (Inr () :: 'e + unit) b))"

text \<open>The number of failed calls among those inside the rolling window at time \<open>now\<close>:
  what \<^verbatim>\<open>recordFailure\<close> counts after \<^verbatim>\<open>cleanupOldCalls\<close>.\<close>

definition failures_in_window :: "'e CircuitBreakerConfig \<Rightarrow> int \<Rightarrow> 'e CircuitCall list \<Rightarrow> nat" where
  "failures_in_window cfg now cs =
     length (filter (\<lambda>c. \<not> call_success c)
               (filter (\<lambda>c. call_timestamp c \<ge> now - rollingWindowMs cfg) cs))"


section \<open>Errors (src/unnamed/part_002)\<close>

datatype GeoPayErrorCode =
    REGION_NOT_ALLOWED | REGION_NOT_FOUND | NO_AVAILABLE_REGIONS | REGION_LIMIT_EXCEEDED
  | METHOD_NOT_SUPPORTED
  | PAYMENT_DECLINED | INSUFFICIENT_FUNDS | CARD_EXPIRED | INVALID_CARD | FRAUD_DETECTED
  | AUTHENTICATION_REQUIRED | AUTHENTICATION_FAILED
  | TIMEOUT | NETWORK_ERROR | SERVICE_UNAVAILABLE | RATE_LIMITED | INTERNAL_ERROR
  | INVALID_INTENT | MISSING_REQUIRED_FIELD | INVALID_AMOUNT | INVALID_CURRENCY | INVALID_TOKEN
  | SANCTIONS_BLOCKED | KYC_REQUIRED | COMPLIANCE_REJECTED
  | LAYER403_ERROR | INVALID_SIGNATURE | AUTHENTICATION_ERROR
  | UNKNOWN_ERROR

text \<open>
  \<^verbatim>\<open>GeoPayError\<close>; the type of the \<^verbatim>\<open>details\<close> object is the parameter \<open>'d\<close>. The timestamp is
  the clock value the ISO string is made from. Fields that other records also have carry
  the prefix \<open>err_\<close>.
\<close>

record 'd GeoPayError =
  code :: GeoPayErrorCode
  message :: string
  isRetryable :: bool
  err_details :: "'d option"
  err_timestamp :: int
  requestId :: "string option"

definition RETRYABLE_CODES :: "GeoPayErrorCode set" where
  "RETRYABLE_CODES =
     {TIMEOUT, NETWORK_ERROR, SERVICE_UNAVAILABLE, RATE_LIMITED, INTERNAL_ERROR, LAYER403_ERROR}"

definition createError ::
  "int \<Rightarrow> GeoPayErrorCode \<Rightarrow> string \<Rightarrow> 'd option \<Rightarrow> string option \<Rightarrow> 'd GeoPayError" where
  "createError now c msg det rid =
     \<lparr>code = c, message = msg, isRetryable = (c \<in> RETRYABLE_CODES), err_details = det,
      err_timestamp = now, requestId = rid\<rparr>"

text \<open>A thrown value: a \<^verbatim>\<open>GeoPayException\<close>, whose \<^verbatim>\<open>toJSON()\<close> is the error record it was
  made from, or any other error, given by its message.\<close>

datatype 'd Thrown = GeoPayException "'d GeoPayError" | OtherError string

definition isRetryableError :: "'d GeoPayError \<Rightarrow> bool" where
  "isRetryableError error = isRetryable error"


section \<open>Route decisions and the fallback choice (routing/strategy.ts, in src/src/cache/index.ts)\<close>

text \<open>\<^verbatim>\<open>QuoteResult\<close> and \<^verbatim>\<open>RouteDecision\<close> of src/src/types/quote.ts; fields that other
  records also have carry the prefixes \<open>qr_\<close> and \<open>rd_\<close>, and times are clock values.\<close>

record QuoteResult =
  qr_intentId :: string
  qr_quotes :: "RegionQuote list"
  qr_best :: "RegionQuote option"
  generatedAt :: int
  qr_durationMs :: int
  fromCache :: bool
  warnings :: "string list option"

record RouteDecision =
  rd_intentId :: string
  chosenRegion :: string
  chosenRouterId :: string
  alternatives :: "RegionQuote list"
  reasonSummary :: string
  quoteResult :: QuoteResult
  strategy :: string
  decidedAt :: int

definition getNextFallback :: "RouteDecision \<Rightarrow> string set \<Rightarrow> RegionQuote option" where
  "getNextFallback decision failedRegions =
     find (\<lambda>alternative. region alternative \<notin> failedRegions \<and> available alternative)
       (alternatives decision)"


section \<open>Payment executor (src/unnamed/part_004, GeoPaySwitch.pay)\<close>

text \<open>\<^verbatim>\<open>PaymentStatus\<close>, \<^verbatim>\<open>PaymentAttempt\<close>, \<^verbatim>\<open>PaymentResult\<close> and \<^verbatim>\<open>PaymentOptions\<close> of
  types/payment.ts (in src/src/types/quote.ts), and \<^verbatim>\<open>PayRequest\<close> of the gateway client.
  Prefixes: \<open>att_\<close>, \<open>pr_\<close>, \<open>req_\<close>, \<open>opt_\<close>.\<close>

datatype PaymentStatus =
    succeeded | failed | pending | requires_action | processing | cancelled | refunded
  | partially_refunded

datatype AttemptStatus = AttemptSucceeded | AttemptFailed

record PaymentAttempt =
  attemptNumber :: nat
  att_region :: string
  att_routerId :: string
  att_status :: AttemptStatus
  att_error :: "string GeoPayError option"
  att_timestamp :: int
  att_durationMs :: int

record PaymentResult =
  pr_intentId :: string
  pr_status :: PaymentStatus
  regionUsed :: string
  pr_routerId :: string
  providerPaymentId :: string
  costApplied :: jsnum
  amountCharged :: jsnum
  currencyCharged :: string
  attempts :: "PaymentAttempt list"
  idempotencyKey :: string

record PaymentOptions =
  opt_idempotencyKey :: "string option"
  forceRegion :: "string option"
  noFallback :: "bool option"

record PayRequest =
  req_intent :: PaymentIntent
  req_region :: string
  req_routerId :: string
  req_idempotencyKey :: string

text \<open>The decimal text of a natural number, as template interpolation prints the attempt
  number.\<close>

definition digit :: "nat \<Rightarrow> char" where
  "digit d = ''0123456789'' ! d"

function decimal :: "nat \<Rightarrow> string" where
  "decimal n = (if n < 10 then [digit n] else decimal (n div 10) @ [digit (n mod 10)])"
  by pat_completeness auto
termination
  by (relation "measure (\<lambda>n. n)") auto

declare decimal.simps [simp del]

text \<open>
  The events \<^verbatim>\<open>pay()\<close> hands to \<^verbatim>\<open>logger.event\<close>, with the data of each:
  \<^verbatim>\<open>payment.started\<close> (intent), \<^verbatim>\<open>payment.attempt\<close> (intent, attempt, region, router),
  \<^verbatim>\<open>payment.completed\<close> (intent, region, status), \<^verbatim>\<open>payment.failed\<close> of a non-retryable
  error (intent, region, error code), \<^verbatim>\<open>payment.fallback\<close> (intent, from, to, next attempt)
  and \<^verbatim>\<open>payment.failed\<close> after the last attempt (intent, region, error code, length of the
  log).
\<close>

datatype PayEvent =
    PaymentStarted string
  | PaymentAttemptEvent string nat string string
  | PaymentCompleted string string PaymentStatus
  | PaymentNotRetryable string string "GeoPayErrorCode option"
  | PaymentFallback string string string nat
  | PaymentFailed string string "GeoPayErrorCode option" nat

text \<open>
  What \<^verbatim>\<open>pay()\<close> does to the outside is the list of its effects, in order: gateway payment
  calls, sleeps, and events handed to the logger.
\<close>

datatype Effect = GatewayPay PayRequest | Sleep int | Logged PayEvent

text \<open>
  What one call of \<^verbatim>\<open>pay()\<close> gets from outside: the key \<^verbatim>\<open>generateIdempotencyKey()\<close> would
  return; the outcome of \<^verbatim>\<open>decideRoute(intent)\<close>; the outcome of the gateway call of each
  attempt (an attempt makes at most one call, so the attempt number identifies it); for
  each entry of the attempts log, by its position, the clock reading of its timestamp and
  what the attempt's timer gives for its duration; the clock when an error is created;
  and the \<^verbatim>\<open>onEvent\<close> hook of the logger's configuration, which \<^verbatim>\<open>logger.event\<close>
  (src/src/utils/logger.ts) calls with no guard around it: \<open>onEvent env n ev\<close> is \<open>Some e\<close>
  when the hook, called with the event \<open>ev\<close> that is effect number \<open>n\<close> of the run (counted
  from 0), throws \<open>e\<close>, and \<open>None\<close> when it returns or no hook is configured. The logger's
  own output to the console is not modelled.
\<close>

record PayEnv =
  generatedKey :: string
  decideRoute :: "string Thrown + RouteDecision"
  executePayment :: "nat \<Rightarrow> string Thrown + PaymentResult"
  clock :: "nat \<Rightarrow> int \<times> int"
  errorTime :: int
  onEvent :: "nat \<Rightarrow> PayEvent \<Rightarrow> string Thrown option"

text \<open>\<^verbatim>\<open>this.logger.event(...)\<close>: what the hook threw, if it did, and the effects with the
  event added.\<close>

definition logger_event ::
  "PayEnv \<Rightarrow> Effect list \<Rightarrow> PayEvent \<Rightarrow> string Thrown option \<times> Effect list" where
  "logger_event env effs ev = (onEvent env (length effs) ev, effs @ [Logged ev])"

text \<open>The details of the errors \<^verbatim>\<open>pay()\<close> creates itself, and what \<^verbatim>\<open>pay()\<close> throws: a value
  thrown by a collaborator or by the hook, passed on as it is, or a new
  \<^verbatim>\<open>GeoPayException\<close>.\<close>

datatype PayDetails = DecisionDetails RouteDecision | AttemptsDetails "PaymentAttempt list"

datatype PayThrown = Propagated "string Thrown" | Raised "PayDetails GeoPayError"

record PayRun =
  outcome :: "PayThrown + PaymentResult"
  attempts_log :: "PaymentAttempt list"
  effects :: "Effect list"

text \<open>\<^verbatim>\<open>this.routingConfig.fallback?.enabled\<close>, \<^verbatim>\<open>fallback?.maxTries ?? 3\<close> and the truthy
  \<^verbatim>\<open>fallback?.backoffMs\<close>.\<close>

definition fallback_enabled :: "RoutingConfig \<Rightarrow> bool" where
  "fallback_enabled rc = (case fallback rc of Some f \<Rightarrow> enabled f = Some True | None \<Rightarrow> False)"

definition fallback_maxTries :: "RoutingConfig \<Rightarrow> int" where
  "fallback_maxTries rc =
     (case fallback rc of Some f \<Rightarrow> (case maxTries f of Some m \<Rightarrow> m | None \<Rightarrow> 3) | None \<Rightarrow> 3)"

definition fallback_backoff :: "RoutingConfig \<Rightarrow> int option" where
  "fallback_backoff rc =
     (case fallback rc of
        Some f \<Rightarrow> (case backoffMs f of Some ms \<Rightarrow> if ms \<noteq> 0 then Some ms else None | None \<Rightarrow> None)
      | None \<Rightarrow> None)"

text \<open>The check \<^verbatim>\<open>!geoPayError || !isRetryableError(geoPayError)\<close> on a caught value.\<close>

definition non_retryable :: "string Thrown \<Rightarrow> bool" where
  "non_retryable error =
     (case error of GeoPayException e \<Rightarrow> \<not> isRetryableError e | OtherError m \<Rightarrow> True)"

definition toJSON_opt :: "string Thrown \<Rightarrow> string GeoPayError option" where
  "toJSON_opt error = (case error of GeoPayException e \<Rightarrow> Some e | OtherError m \<Rightarrow> None)"

definition pay_request :: "PaymentIntent \<Rightarrow> string \<Rightarrow> string \<Rightarrow> string \<Rightarrow> nat \<Rightarrow> PayRequest" where
  "pay_request intent currentRegion currentRouterId key attempt =
     \<lparr>req_intent = intent, req_region = currentRegion, req_routerId = currentRouterId,
      req_idempotencyKey = key @ ''-'' @ decimal attempt\<rparr>"

text \<open>The entry pushed onto the log at position \<open>pos\<close>.\<close>

definition attempt_record ::
  "PayEnv \<Rightarrow> nat \<Rightarrow> nat \<Rightarrow> string \<Rightarrow> string \<Rightarrow> AttemptStatus \<Rightarrow> string GeoPayError option
     \<Rightarrow> PaymentAttempt" where
  "attempt_record env pos attempt currentRegion currentRouterId st err =
     \<lparr>attemptNumber = attempt, att_region = currentRegion, att_routerId = currentRouterId,
      att_status = st, att_error = err, att_timestamp = fst (clock env pos),
      att_durationMs = snd (clock env pos)\<rparr>"

text \<open>
  The try block of one iteration: it returns the result, or something is thrown inside it
  and the catch block is entered. The \<^verbatim>\<open>payment.attempt\<close> event comes before the gateway
  call; the entry of a successful attempt is pushed before the \<^verbatim>\<open>payment.completed\<close>
  event, so it is in the log when the hook throws on that event.
\<close>

datatype TryResult =
    TryReturned PaymentResult "PaymentAttempt list" "Effect list"
  | TryThrew "string Thrown" "PaymentAttempt list" "Effect list"

definition pay_try ::
  "PayEnv \<Rightarrow> PaymentIntent \<Rightarrow> string \<Rightarrow> nat \<Rightarrow> string \<Rightarrow> string \<Rightarrow> PaymentAttempt list
     \<Rightarrow> Effect list \<Rightarrow> TryResult" where
  "pay_try env intent key attempt currentRegion currentRouterId atts effs =
     (case logger_event env effs
             (PaymentAttemptEvent (intent_id intent) attempt currentRegion currentRouterId) of
        (Some thrown, effs1) \<Rightarrow> TryThrew thrown atts effs1
      | (None, effs1) \<Rightarrow>
          (let effs2 = effs1 @ [GatewayPay (pay_request intent currentRegion currentRouterId
                                             key attempt)]
           in case executePayment env attempt of
                Inl error \<Rightarrow> TryThrew error atts effs2
              | Inr result \<Rightarrow>
                  (let atts1 = atts @ [attempt_record env (length atts) attempt currentRegion
                                         currentRouterId AttemptSucceeded None]
                   in case logger_event env effs2
                             (PaymentCompleted (intent_id intent) currentRegion
                                (pr_status result)) of
                        (Some thrown, effs3) \<Rightarrow> TryThrew thrown atts1 effs3
                      | (None, effs3) \<Rightarrow>
                          TryReturned (result\<lparr>attempts := atts1, idempotencyKey := key\<rparr>)
                            atts1 effs3)))"

text \<open>
  The catch block: it ends the run (\<open>CatchDone\<close>: the caught error is thrown again, or the
  hook threw on an event and that is what leaves \<^verbatim>\<open>pay()\<close>), or the loop continues with
  the next region (\<open>CatchContinue\<close>).
\<close>

datatype CatchResult =
    CatchDone PayRun
  | CatchContinue string string "PaymentAttempt list" "string set" "Effect list"

definition pay_catch ::
  "RoutingConfig \<Rightarrow> PayEnv \<Rightarrow> PaymentIntent \<Rightarrow> RouteDecision \<Rightarrow> int \<Rightarrow> nat \<Rightarrow> string \<Rightarrow> string
     \<Rightarrow> PaymentAttempt list \<Rightarrow> string set \<Rightarrow> Effect list \<Rightarrow> string Thrown \<Rightarrow> CatchResult" where
  "pay_catch rc env intent decision maxAttempts attempt currentRegion currentRouterId atts
       failedRegions effs error =
     (let geoPayError = toJSON_opt error;
          atts1 = atts @ [attempt_record env (length atts) attempt currentRegion currentRouterId
                            AttemptFailed geoPayError];
          failed1 = insert currentRegion failedRegions;
          noMoreFallbacks =
            (case logger_event env effs
                    (PaymentFailed (intent_id intent) currentRegion (map_option code geoPayError)
                       (length atts1)) of
               (Some thrown, effs1) \<Rightarrow>
                 CatchDone \<lparr>outcome = Inl (Propagated thrown), attempts_log = atts1,
                            effects = effs1\<rparr>
             | (None, effs1) \<Rightarrow>
                 CatchDone \<lparr>outcome = Inl (Propagated error), attempts_log = atts1,
                            effects = effs1\<rparr>)
      in if non_retryable error
         then (case logger_event env effs
                      (PaymentNotRetryable (intent_id intent) currentRegion
                         (map_option code geoPayError)) of
                 (Some thrown, effs1) \<Rightarrow>
                   CatchDone \<lparr>outcome = Inl (Propagated thrown), attempts_log = atts1,
                              effects = effs1\<rparr>
               | (None, effs1) \<Rightarrow>
                   CatchDone \<lparr>outcome = Inl (Propagated error), attempts_log = atts1,
                              effects = effs1\<rparr>)
         else if int attempt < maxAttempts \<and> fallback_enabled rc
         then (case getNextFallback decision failed1 of
                 Some fb \<Rightarrow>
                   (case logger_event env effs
                           (PaymentFallback (intent_id intent) currentRegion (region fb)
                              (attempt + 1)) of
                      (Some thrown, effs1) \<Rightarrow>
                        CatchDone \<lparr>outcome = Inl (Propagated thrown), attempts_log = atts1,
                                   effects = effs1\<rparr>
                    | (None, effs1) \<Rightarrow>
                        CatchContinue (region fb) (routerId fb) atts1 failed1
                          (case fallback_backoff rc of
                             Some ms \<Rightarrow> effs1 @ [Sleep (ms * int attempt)]
                           | None \<Rightarrow> effs1))
               | None \<Rightarrow> noMoreFallbacks)
         else noMoreFallbacks)"

text \<open>
  The loop \<^verbatim>\<open>for (let attempt = 1; attempt <= maxAttempts; attempt++)\<close> with its local
  variables as arguments; the last branch is the code after the loop.
\<close>

function pay_loop ::
  "RoutingConfig \<Rightarrow> PayEnv \<Rightarrow> PaymentIntent \<Rightarrow> string \<Rightarrow> RouteDecision \<Rightarrow> int \<Rightarrow> nat
     \<Rightarrow> string \<Rightarrow> string \<Rightarrow> PaymentAttempt list \<Rightarrow> string set \<Rightarrow> Effect list \<Rightarrow> PayRun" where
  "pay_loop rc env intent key decision maxAttempts attempt currentRegion currentRouterId
       atts failedRegions effs =
     (if int attempt \<le> maxAttempts
      then
        (case pay_try env intent key attempt currentRegion currentRouterId atts effs of
           TryReturned result atts1 effs1 \<Rightarrow>
             \<lparr>outcome = Inr result, attempts_log = atts1, effects = effs1\<rparr>
         | TryThrew error atts1 effs1 \<Rightarrow>
             (case pay_catch rc env intent decision maxAttempts attempt currentRegion
                     currentRouterId atts1 failedRegions effs1 error of
                CatchDone run \<Rightarrow> run
              | CatchContinue nextRegion nextRouterId atts2 failed2 effs2 \<Rightarrow>
                  pay_loop rc env intent key decision maxAttempts (attempt + 1)
                    nextRegion nextRouterId atts2 failed2 effs2))
      else \<lparr>outcome = Inl (Raised (createError (errorTime env) INTERNAL_ERROR
                                      ''Payment failed after all attempts''
                                      (Some (AttemptsDetails atts)) None)),
            attempts_log = atts, effects = effs\<rparr>)"
  by pat_completeness auto
termination
  by (relation "measure (\<lambda>(rc, env, intent, key, decision, maxAttempts, attempt, rest).
                           nat (maxAttempts + 1 - int attempt))") auto

declare pay_loop.simps [simp del]

text \<open>\<^verbatim>\<open>pay(intent, options)\<close>. Absent options are a record of absent fields; a string or a
  flag is truthy when it is present and not empty or false. \<open>pay_key\<close> is the local
  \<^verbatim>\<open>idempotencyKey\<close> and \<open>pay_maxAttempts\<close> the local \<^verbatim>\<open>maxAttempts\<close>.\<close>

definition pay_key :: "PayEnv \<Rightarrow> PaymentOptions \<Rightarrow> string" where
  "pay_key env options =
     (case opt_idempotencyKey options of Some k \<Rightarrow> k | None \<Rightarrow> generatedKey env)"

definition pay_maxAttempts :: "RoutingConfig \<Rightarrow> PaymentOptions \<Rightarrow> int" where
  "pay_maxAttempts rc options =
     (if noFallback options = Some True then 1 else fallback_maxTries rc)"

definition pay :: "RoutingConfig \<Rightarrow> PayEnv \<Rightarrow> PaymentIntent \<Rightarrow> PaymentOptions \<Rightarrow> PayRun" where
  "pay rc env intent options =
     (let key = pay_key env options
      in
      case logger_event env [] (PaymentStarted (intent_id intent)) of
        (Some thrown, effs0) \<Rightarrow>
          \<lparr>outcome = Inl (Propagated thrown), attempts_log = [], effects = effs0\<rparr>
      | (None, effs0) \<Rightarrow>
          if mode rc = DryRun
          then (case decideRoute env of
                  Inl error \<Rightarrow>
                    \<lparr>outcome = Inl (Propagated error), attempts_log = [], effects = effs0\<rparr>
                | Inr decision \<Rightarrow>
                    \<lparr>outcome = Inl (Raised (createError (errorTime env) INTERNAL_ERROR
                                              ''Dry-run mode enabled - payment not executed''
                                              (Some (DecisionDetails decision)) None)),
                     attempts_log = [], effects = effs0\<rparr>)
          else
            (case decideRoute env of
               Inl error \<Rightarrow>
                 \<lparr>outcome = Inl (Propagated error), attempts_log = [], effects = effs0\<rparr>
             | Inr decision \<Rightarrow>
                 (let currentRegion =
                        (case forceRegion options of
                           Some r \<Rightarrow> r | None \<Rightarrow> chosenRegion decision);
                      currentRouterId =
                        (case forceRegion options of
                           Some r \<Rightarrow>
                             if r \<noteq> []
                             then (case find (\<lambda>q. region q = r)
                                          (qr_quotes (quoteResult decision)) of
                                     Some forcedQuote \<Rightarrow> routerId forcedQuote
                                   | None \<Rightarrow> chosenRouterId decision)
                             else chosenRouterId decision
                         | None \<Rightarrow> chosenRouterId decision);
                      maxAttempts = pay_maxAttempts rc options
                  in pay_loop rc env intent key decision maxAttempts 1 currentRegion
                       currentRouterId [] {} effs0)))"

definition gateway_calls :: "Effect list \<Rightarrow> PayRequest list" where
  "gateway_calls effs = concat (map (\<lambda>e. case e of GatewayPay r \<Rightarrow> [r] | _ \<Rightarrow> []) effs)"

text \<open>
  What the log and the gateway calls of a run have to do with each other: the \<open>i\<close>-th
  call carries the key \<^verbatim>\<open>"{key}-{i}"\<close> and the intent, and the \<open>i\<close>-th log entry has number
  \<open>i\<close>, the region and router of that call, and the status that the outcome of that call
  gives.
\<close>

definition attempt_ok ::
  "string \<Rightarrow> PaymentIntent \<Rightarrow> PayEnv \<Rightarrow> nat \<times> PayRequest \<Rightarrow> PaymentAttempt \<Rightarrow> bool" where
  "attempt_ok key intent env ic att =
     (req_idempotencyKey (snd ic) = key @ ''-'' @ decimal (fst ic)
    \<and> req_intent (snd ic) = intent
    \<and> attemptNumber att = fst ic
    \<and> att_region att = req_region (snd ic)
    \<and> att_routerId att = req_routerId (snd ic)
    \<and> att_status att = (case executePayment env (fst ic) of
                          Inr result \<Rightarrow> AttemptSucceeded | Inl error \<Rightarrow> AttemptFailed))"

definition log_ok ::
  "string \<Rightarrow> PaymentIntent \<Rightarrow> PayEnv \<Rightarrow> PayRequest list \<Rightarrow> PaymentAttempt list \<Rightarrow> bool" where
  "log_ok key intent env cs lg =
     list_all2 (attempt_ok key intent env) (zip [1 ..< Suc (length cs)] cs) lg"


section \<open>The executor behind the guards, as the specification words it\<close>

text \<open>
  Modelled from the spec: the loop of its payment executor (steps 2 to 5), in which the
  gateway call of each attempt goes through \<^verbatim>\<open>CircuitBreaker.execute\<close>; \<open>stamps\<close> gives the
  clock at the start and at the end of each attempt. When the breaker does not call the
  function, the gateway is not called, and what \<^verbatim>\<open>execute\<close> throws (the default
  fallback's \<^verbatim>\<open>CircuitOpenError\<close>, or what a callback threw) is what the attempt fails
  with. The specification's loop hands no events to a logger.
\<close>

definition CircuitOpenError :: "string Thrown" where
  "CircuitOpenError = OtherError ''Circuit is open''"

function pay_loop_through_breaker ::
  "string Thrown CircuitBreakerConfig \<Rightarrow> string Thrown CircuitBreaker \<Rightarrow> (nat \<Rightarrow> int \<times> int)
     \<Rightarrow> RoutingConfig \<Rightarrow> PayEnv \<Rightarrow> PaymentIntent \<Rightarrow> string \<Rightarrow> RouteDecision \<Rightarrow> int \<Rightarrow> nat
     \<Rightarrow> string \<Rightarrow> string \<Rightarrow> PaymentAttempt list \<Rightarrow> string set \<Rightarrow> Effect list \<Rightarrow> PayRun" where
  "pay_loop_through_breaker cfg b stamps rc env intent key decision maxAttempts attempt
       currentRegion currentRouterId atts failedRegions effs =
     (if int attempt \<le> maxAttempts
      then
        (let effs1 = (if calls_fn cfg (fst (stamps attempt)) b
                      then effs @ [GatewayPay (pay_request intent currentRegion
                                                 currentRouterId key attempt)]
                      else effs);
             ended = breaker_execute cfg (fst (stamps attempt)) (snd (stamps attempt))
                       (executePayment env attempt) b
         in case fst ended of
              Returned result \<Rightarrow>
                (let atts1 = atts @ [attempt_record env (length atts) attempt currentRegion
                                       currentRouterId AttemptSucceeded None]
                 in \<lparr>outcome = Inr (result\<lparr>attempts := atts1, idempotencyKey := key\<rparr>),
                     attempts_log = atts1, effects = effs1\<rparr>)
            | other \<Rightarrow>
                (let error = (case other of Threw e \<Rightarrow> e | _ \<Rightarrow> CircuitOpenError);
                     atts1 = atts @ [attempt_record env (length atts) attempt currentRegion
                                       currentRouterId AttemptFailed (toJSON_opt error)];
                     failed1 = insert currentRegion failedRegions
                 in if non_retryable error
                    then \<lparr>outcome = Inl (Propagated error), attempts_log = atts1, effects = effs1\<rparr>
                    else if int attempt < maxAttempts \<and> fallback_enabled rc
                    then (case getNextFallback decision failed1 of
                            Some fb \<Rightarrow>
                              pay_loop_through_breaker cfg (snd ended) stamps rc env intent key
                                decision maxAttempts (attempt + 1) (region fb) (routerId fb)
                                atts1 failed1
                                (case fallback_backoff rc of
                                   Some ms \<Rightarrow> effs1 @ [Sleep (ms * int attempt)]
                                 | None \<Rightarrow> effs1)
                          | None \<Rightarrow>
                              \<lparr>outcome = Inl (Propagated error), attempts_log = atts1,
                               effects = effs1\<rparr>)
                    else \<lparr>outcome = Inl (Propagated error), attempts_log = atts1,
                          effects = effs1\<rparr>))
      else \<lparr>outcome = Inl (Raised (createError (errorTime env) INTERNAL_ERROR
                                      ''Payment failed after all attempts''
                                      (Some (AttemptsDetails atts)) None)),
            attempts_log = atts, effects = effs\<rparr>)"
  by pat_completeness auto
termination
  by (relation "measure (\<lambda>(cfg, b, stamps, rc, env, intent, key, decision, maxAttempts, attempt, rest).
                           nat (maxAttempts + 1 - int attempt))") auto

declare pay_loop_through_breaker.simps [simp del]

text \<open>
  \<^verbatim>\<open>pay()\<close> wrapped in the idempotency guard by its caller,
  \<^verbatim>\<open>idempotency.execute(key, intent, async () => client.pay(intent, options))\<close>. The values
  the guard stores are payment results, what \<^verbatim>\<open>pay()\<close> threw, or the guard's own error.
  The effects of the wrapped call happen only if the guard invokes it.
\<close>

datatype PayValue =
    ResultValue PaymentResult
  | ThrownValue PayThrown
  | GuardError IdempotencyErrorCode

definition wrap_guard_error :: "PayValue IdempotencyThrown \<Rightarrow> PayValue" where
  "wrap_guard_error t = (case t of IdempotencyError c r \<Rightarrow> GuardError c | FnThrown v \<Rightarrow> v)"

definition pay_outcome_as_fn :: "PayRun \<Rightarrow> PayValue FnOutcome" where
  "pay_outcome_as_fn run =
     (case outcome run of
        Inr result \<Rightarrow> Returns (Some (ResultValue result))
      | Inl thrown \<Rightarrow> Throws (ThrownValue thrown))"

record GuardedPayRun =
  guarded :: "PayValue ExecuteResult"
  guarded_effects :: "Effect list"

definition pay_with_idempotency ::
  "IdempotencyConfig \<Rightarrow> (PaymentIntent \<Rightarrow> string) \<Rightarrow> int \<Rightarrow> int \<Rightarrow> int \<Rightarrow> string
     \<Rightarrow> RoutingConfig \<Rightarrow> PayEnv \<Rightarrow> PaymentIntent \<Rightarrow> PaymentOptions \<Rightarrow> PayValue MemoryStorage
     \<Rightarrow> GuardedPayRun" where
  "pay_with_idempotency icfg H tCheck tStart tEnd key rc env intent options records =
     (let run = pay rc env intent options;
          ex = execute icfg H wrap_guard_error tCheck tStart tEnd key intent
                 (pay_outcome_as_fn run) records
      in \<lparr>guarded = ex, guarded_effects = (if fn_invoked ex then effects run else [])\<rparr>)"


section \<open>Sample inputs\<close>

text \<open>The mock quote and intent of the repository's tests, and a number format.\<close>

definition fmt0 :: NumberFormat where
  "fmt0 = \<lparr>toFixed = (\<lambda>n x. ''#''), toText = (\<lambda>x. ''#'')\<rparr>"

definition mockQuote :: "string \<Rightarrow> real \<Rightarrow> bool \<Rightarrow> string option \<Rightarrow> RegionQuote" where
  "mockQuote r c av why =
     \<lparr>region = r, routerId = ''router_eu_1'', routerName = Some ''EU Router'',
      totalCost = Num c,
      limits = \<lparr>limits_min = Num 1, limits_max = Num 10000, remainingDaily = None\<rparr>,
      successRate = Some (Num 0.95), latencyMs = Some (Num 100), score = Num 0, reasons = [],
      available = av, unavailableReason = why, supportedMethods = None\<rparr>"

definition mockIntent :: PaymentIntent where
  "mockIntent = \<lparr>intent_id = ''test_intent_1'', amount = Num 100, currency = ''USD'',
                  paymentMethod = ''card''\<rparr>"

definition mockRouting :: "string list \<Rightarrow> string list \<Rightarrow> RoutingConfig" where
  "mockRouting allow block =
     \<lparr>mode = Auto, pinnedRegion = None, allowedRegions = Some allow,
      blockedRegions = Some block,
      weights = Some \<lparr>price = Num 0.7, success = Num 0.25, latency = Num 0.05\<rparr>,
      fallback = Some \<lparr>enabled = Some True, maxTries = Some 3, backoffMs = Some 1000\<rparr>\<rparr>"

text \<open>A quote for each gate of the filter: the test intent is for 100 by card.\<close>

definition gateQuote ::
  "string \<Rightarrow> bool \<Rightarrow> real \<Rightarrow> real \<Rightarrow> real option \<Rightarrow> string list option \<Rightarrow> RegionQuote" where
  "gateQuote r av lo hi daily methods =
     \<lparr>region = r, routerId = ''router_1'', routerName = None, totalCost = Num 2,
      limits = \<lparr>limits_min = Num lo, limits_max = Num hi, remainingDaily = map_option Num daily\<rparr>,
      successRate = None, latencyMs = None, score = Num 0, reasons = [],
      available = av, unavailableReason = (if av then None else Some ''Maintenance''),
      supportedMethods = methods\<rparr>"

definition gateQuotes :: "RegionQuote list" where
  "gateQuotes =
     [gateQuote ''UK'' False 1 10000 None None,
      gateQuote ''JP'' True 1 10000 None None,
      gateQuote ''BR'' True 1 10000 None None,
      gateQuote ''EU'' True 500 10000 None None,
      gateQuote ''EU'' True 1 50 None None,
      gateQuote ''EU'' True 1 10000 (Some 10) None,
      gateQuote ''EU'' True 1 10000 None (Some [''bank'']),
      gateQuote ''EU'' True 1 10000 (Some 100) (Some [''bank'', ''card''])]"

text \<open>
  A sample arithmetic: the rules of IEEE arithmetic for zeros, infinities and NaN, overflow
  to an infinity when the exact result reaches \<open>2 ^ 1024\<close> in magnitude, and the exact
  result otherwise. Where the exact result of an operation on doubles is a double or
  overflows so, this is what double arithmetic gives.
\<close>

fun js_negative :: "jsnum \<Rightarrow> bool" where
  "js_negative (Num r) = (r < 0)"
| "js_negative NegZero = True"
| "js_negative NegInf = True"
| "js_negative _ = False"

fun js_is_zero :: "jsnum \<Rightarrow> bool" where
  "js_is_zero (Num r) = (r = 0)"
| "js_is_zero NegZero = True"
| "js_is_zero _ = False"

fun js_is_inf :: "jsnum \<Rightarrow> bool" where
  "js_is_inf PosInf = True"
| "js_is_inf NegInf = True"
| "js_is_inf _ = False"

fun js_negate :: "jsnum \<Rightarrow> jsnum" where
  "js_negate (Num r) = (if r = 0 then NegZero else Num (- r))"
| "js_negate NegZero = Num 0"
| "js_negate PosInf = NegInf"
| "js_negate NegInf = PosInf"
| "js_negate NaN = NaN"

definition signed_zero :: "bool \<Rightarrow> jsnum" where
  "signed_zero neg = (if neg then NegZero else Num 0)"

definition signed_inf :: "bool \<Rightarrow> jsnum" where
  "signed_inf neg = (if neg then NegInf else PosInf)"

definition overflowing :: "real \<Rightarrow> jsnum" where
  "overflowing r = (if r \<ge> 2 ^ 1024 then PosInf else if r \<le> - (2 ^ 1024) then NegInf else Num r)"

definition sample_add :: "jsnum \<Rightarrow> jsnum \<Rightarrow> jsnum" where
  "sample_add a b =
     (if a = NaN \<or> b = NaN then NaN
      else if js_is_inf a then (if js_is_inf b \<and> a \<noteq> b then NaN else a)
      else if js_is_inf b then b
      else if js_is_zero a \<and> js_is_zero b
      then signed_zero (a = NegZero \<and> b = NegZero)
      else overflowing (js_fin a + js_fin b))"

definition sample_mul :: "jsnum \<Rightarrow> jsnum \<Rightarrow> jsnum" where
  "sample_mul a b =
     (if a = NaN \<or> b = NaN then NaN
      else if (js_is_inf a \<and> js_is_zero b) \<or> (js_is_zero a \<and> js_is_inf b) then NaN
      else if js_is_inf a \<or> js_is_inf b then signed_inf (js_negative a \<noteq> js_negative b)
      else if js_is_zero a \<or> js_is_zero b then signed_zero (js_negative a \<noteq> js_negative b)
      else overflowing (js_fin a * js_fin b))"

definition sample_div :: "jsnum \<Rightarrow> jsnum \<Rightarrow> jsnum" where
  "sample_div a b =
     (if a = NaN \<or> b = NaN then NaN
      else if (js_is_inf a \<and> js_is_inf b) \<or> (js_is_zero a \<and> js_is_zero b) then NaN
      else if js_is_inf a \<or> js_is_zero b then signed_inf (js_negative a \<noteq> js_negative b)
      else if js_is_inf b \<or> js_is_zero a then signed_zero (js_negative a \<noteq> js_negative b)
      else overflowing (js_fin a / js_fin b))"

definition sample_ops :: FloatOps where
  "sample_ops = \<lparr>fadd = sample_add, fsub = (\<lambda>a b. sample_add a (js_negate b)),
                  fmul = sample_mul, fdiv = sample_div, lit = Num\<rparr>"

text \<open>Two quotes whose costs are the doubles \<open>2 ^ 1023\<close> and \<open>- (2 ^ 1023)\<close>, with no success
  rate and no latency, and weights that count the price alone.\<close>

definition hugeQuote :: "string \<Rightarrow> jsnum \<Rightarrow> RegionQuote" where
  "hugeQuote r c =
     \<lparr>region = r, routerId = ''router_1'', routerName = None, totalCost = c,
      limits = \<lparr>limits_min = Num 1, limits_max = Num 10000, remainingDaily = None\<rparr>,
      successRate = None, latencyMs = None, score = Num 0, reasons = [],
      available = True, unavailableReason = None, supportedMethods = None\<rparr>"

definition priceOnly :: RoutingWeights where
  "priceOnly = \<lparr>price = Num 1, success = Num 0, latency = Num 0\<rparr>"

text \<open>A breaker that opens after two failures, stays open for a second and closes after two
  successes.\<close>

definition cfg0 :: "'e CircuitBreakerConfig" where
  "cfg0 = newCircuitBreakerConfig 2 1000 (Some 2) None None None None None None"

text \<open>The same breaker with an \<^verbatim>\<open>onClose\<close> callback that throws; and one that closes after
  one success, does not count the error \<open>declined\<close> as a failure, and has that callback.\<close>

definition throwingClose :: "string CircuitBreakerConfig" where
  "throwingClose =
     newCircuitBreakerConfig 2 1000 (Some 2) None None None
       (Some (\<lambda>n. Some ''onClose failed'')) None None"


text \<open>A route decision that chose EU with UK and SG as alternatives, gateway errors, and a
  gateway result.\<close>

definition mockDecision :: RouteDecision where
  "mockDecision =
     \<lparr>rd_intentId = ''test_intent_1'', chosenRegion = ''EU'', chosenRouterId = ''router_eu_1'',
      alternatives = [mockQuote ''UK'' 3 True None, mockQuote ''SG'' 4 True None],
      reasonSummary = ''Selected EU'',
      quoteResult = \<lparr>qr_intentId = ''test_intent_1'',
                       qr_quotes = [mockQuote ''EU'' 2 True None, mockQuote ''UK'' 3 True None,
                                    mockQuote ''SG'' 4 True None],
                       qr_best = Some (mockQuote ''EU'' 2 True None), generatedAt = 0,
                       qr_durationMs = 1, fromCache = False, warnings = None\<rparr>,
      strategy = ''balanced'', decidedAt = 0\<rparr>"

definition gatewayError :: "GeoPayErrorCode \<Rightarrow> string Thrown" where
  "gatewayError c = GeoPayException (createError 0 c ''gateway'' None None)"

definition gatewayResult :: "string \<Rightarrow> string \<Rightarrow> PaymentResult" where
  "gatewayResult r pid =
     \<lparr>pr_intentId = ''test_intent_1'', pr_status = succeeded, regionUsed = r,
      pr_routerId = ''router_eu_1'', providerPaymentId = pid, costApplied = Num 2,
      amountCharged = Num 100, currencyCharged = ''USD'', attempts = [], idempotencyKey = []\<rparr>"

definition mockEnv :: "(nat \<Rightarrow> string Thrown + PaymentResult) \<Rightarrow> PayEnv" where
  "mockEnv gw =
     \<lparr>generatedKey = ''generated'', decideRoute = Inr mockDecision, executePayment = gw,
      clock = (\<lambda>i. (10 * int i + 5, 5)), errorTime = 99, onEvent = (\<lambda>n ev. None)\<rparr>"

definition mockOptions :: PaymentOptions where
  "mockOptions = \<lparr>opt_idempotencyKey = Some ''k'', forceRegion = None, noFallback = None\<rparr>"

text \<open>Gateway scripts: the first attempt is declined; the first times out and the second is
  declined; the first two time out and the third succeeds; the first succeeds.\<close>

definition gwDeclined :: "nat \<Rightarrow> string Thrown + PaymentResult" where
  "gwDeclined i = Inl (gatewayError PAYMENT_DECLINED)"

definition gwTimeoutThenDeclined :: "nat \<Rightarrow> string Thrown + PaymentResult" where
  "gwTimeoutThenDeclined i =
     (if i = 1 then Inl (gatewayError TIMEOUT) else Inl (gatewayError PAYMENT_DECLINED))"

definition gwThirdSucceeds :: "nat \<Rightarrow> string Thrown + PaymentResult" where
  "gwThirdSucceeds i =
     (if i = 3 then Inr (gatewayResult ''SG'' ''p1'') else Inl (gatewayError TIMEOUT))"

definition gwSucceeds :: "string \<Rightarrow> nat \<Rightarrow> string Thrown + PaymentResult" where
  "gwSucceeds pid i = Inr (gatewayResult ''EU'' pid)"

text \<open>The same surroundings with an \<^verbatim>\<open>onEvent\<close> hook that throws on \<^verbatim>\<open>payment.completed\<close>; with
  one that throws on the \<^verbatim>\<open>payment.failed\<close> event of a non-retryable error; and options that
  forbid the fallback.\<close>

definition hookError :: "string Thrown" where
  "hookError = OtherError ''onEvent failed''"

definition throwsOnCompleted :: "nat \<Rightarrow> PayEvent \<Rightarrow> string Thrown option" where
  "throwsOnCompleted n ev =
     (case ev of PaymentCompleted i r s \<Rightarrow> Some hookError | _ \<Rightarrow> None)"

definition throwsOnNotRetryable :: "nat \<Rightarrow> PayEvent \<Rightarrow> string Thrown option" where
  "throwsOnNotRetryable n ev =
     (case ev of PaymentNotRetryable i r c \<Rightarrow> Some hookError | _ \<Rightarrow> None)"

definition noFallbackOptions :: PaymentOptions where
  "noFallbackOptions =
     \<lparr>opt_idempotencyKey = Some ''k'', forceRegion = None, noFallback = Some True\<rparr>"

text \<open>Clock readings for a breaker around the gateway call of each attempt.\<close>

definition attemptTimes :: "nat \<Rightarrow> int \<times> int" where
  "attemptTimes i = (10 * int i, 10 * int i + 5)"


section \<open>Properties of the quote cache\<close>

lemma delete_filter: "AList.delete k st = filter (\<lambda>p. fst p \<noteq> k) st"
  by (induction st) (auto simp: AList.delete_eq)

lemma prune_loop_char:
  "prune_loop now todo st n =
     (n + length (filter (expired now) todo),
      filter (\<lambda>p. fst p \<notin> fst ` set (filter (expired now) todo)) st)"
proof (induction todo arbitrary: st n)
  case Nil
  then show ?case by simp
next
  case (Cons a todo)
  obtain k e where a: "a = (k, e)" by (cases a)
  show ?case
  proof (cases "now > expiresAt e")
    case True
    then show ?thesis
      using Cons.IH[of "AList.delete k st" "n + 1"]
      by (auto simp: a expired_def delete_filter intro!: filter_cong)
  next
    case False
    then show ?thesis
      using Cons.IH[of st n] by (simp add: a expired_def)
  qed
qed

lemma prune_count: "fst (prune now c) = length (filter (expired now) (store c))"
  by (simp add: prune_def prune_loop_char split: prod.splits)

lemma prune_store:
  "store (snd (prune now c)) =
     filter (\<lambda>p. fst p \<notin> fst ` set (filter (expired now) (store c))) (store c)"
  by (simp add: prune_def prune_loop_char split: prod.splits)

lemma effective_ttl_evict [simp]:
  "effective_ttl ttlOpt (evictOldest now c) = effective_ttl ttlOpt c"
  by (simp add: effective_ttl_def evictOldest_def prune_def Let_def
      split: prod.splits option.splits)

lemma set_entry_lookup:
  "map_of (store (set_entry t0 k v ttlOpt c)) k =
     Some \<lparr>value = v, expiresAt = t0 + effective_ttl ttlOpt c, createdAt = t0\<rparr>"
  by (simp add: set_entry_def Let_def update_conv')

lemma prune_removes_expired_key:
  assumes "map_of (store c) k = Some e" "now > expiresAt e"
  shows "fst (prune now c) \<ge> 1" and "map_of (store (snd (prune now c))) k = None"
proof -
  from assms(1) have mem: "(k, e) \<in> set (store c)" by (rule map_of_SomeD)
  with assms(2) have "(k, e) \<in> set (filter (expired now) (store c))"
    by (simp add: expired_def)
  then have "filter (expired now) (store c) \<noteq> []" by (metis empty_iff empty_set)
  then show "fst (prune now c) \<ge> 1"
    by (simp add: prune_count Suc_le_eq)
  have "k \<in> fst ` set (filter (expired now) (store c))"
    using mem assms(2) by (force simp: expired_def)
  then have "k \<notin> fst ` set (store (snd (prune now c)))"
    unfolding prune_store by force
  then show "map_of (store (snd (prune now c))) k = None"
    by (simp add: map_of_eq_None_iff)
qed

lemma filter_delete_length:
  "distinct (map fst st) \<Longrightarrow> map_of st k = Some e \<Longrightarrow> P (k, e) \<Longrightarrow>
     length (filter P (AList.delete k st)) + 1 = length (filter P st)"
proof (induction st)
  case Nil
  then show ?case by simp
next
  case (Cons a st)
  show ?case
  proof (cases "fst a = k")
    case True
    with Cons.prems have "k \<notin> fst ` set st" "a = (k, e)" by (auto)
    then have "AList.delete k st = st" by (simp add: delete_filter filter_id_conv) force
    with True Cons.prems \<open>a = (k, e)\<close> show ?thesis by (simp add: AList.delete_eq)
  next
    case False
    with Cons show ?thesis by (auto simp: AList.delete_eq)
  qed
qed

text \<open>
  C6, as amended. After \<^verbatim>\<open>set(k, v, ttl)\<close> at time \<open>t0\<close>: a \<^verbatim>\<open>get(k)\<close> no later than
  \<open>t0 + ttl\<close> returns \<open>v\<close> and leaves the cache as it is; a \<^verbatim>\<open>get(k)\<close> after
  \<open>t0 + ttl\<close> returns absent; a \<^verbatim>\<open>prune()\<close> after \<open>t0 + ttl\<close>, run on the cache as
  \<^verbatim>\<open>set\<close> left it (no read of the expired entry in between), counts at least one removed
  entry and leaves no entry under \<open>k\<close>.
\<close>

theorem cache_round_trip:
  "(t1 \<le> t0 + effective_ttl ttlOpt c \<longrightarrow>
      get t1 k (set_entry t0 k v ttlOpt c) = (Some v, set_entry t0 k v ttlOpt c))
 \<and> (t1 > t0 + effective_ttl ttlOpt c \<longrightarrow>
      fst (get t1 k (set_entry t0 k v ttlOpt c)) = None)
 \<and> (t1 > t0 + effective_ttl ttlOpt c \<longrightarrow>
      fst (prune t1 (set_entry t0 k v ttlOpt c)) \<ge> 1
    \<and> map_of (store (snd (prune t1 (set_entry t0 k v ttlOpt c)))) k = None)"
  using prune_removes_expired_key[OF set_entry_lookup[of t0 k v ttlOpt c], of t1]
  by (auto simp: get_def set_entry_lookup)

theorem cache_round_trip_witness:
  "(5::int) \<le> 0 + effective_ttl (Some 10) (newCache 1000 None :: nat Cache)
 \<and> (11::int) > 0 + effective_ttl (Some 10) (newCache 1000 None :: nat Cache)
 \<and> fst (get 5 ''k'' (set_entry 0 ''k'' (7::nat) (Some 10) (newCache 1000 None))) = Some 7
 \<and> fst (get 11 ''k'' (set_entry 0 ''k'' (7::nat) (Some 10) (newCache 1000 None))) = None
 \<and> fst (prune 11 (set_entry 0 ''k'' (7::nat) (Some 10) (newCache 1000 None))) \<ge> 1
 \<and> map_of (store (snd (prune 11 (set_entry 0 ''k'' (7::nat) (Some 10) (newCache 1000 None)))))
      ''k'' = None"
  using cache_round_trip[of 5 0 "Some 10" "newCache 1000 None :: nat Cache" "''k''" 7]
        cache_round_trip[of 11 0 "Some 10" "newCache 1000 None :: nat Cache" "''k''" 7]
  by (simp add: effective_ttl_def)

text \<open>
  C6 as stated fails when the three calls follow each other: the read after expiry has
  already deleted the entry, so the \<^verbatim>\<open>prune()\<close> after it removes nothing and returns 0.
\<close>

theorem cache_round_trip_counterexample:
  "fst (get 5 ''k'' (set_entry 0 ''k'' (7::nat) (Some 10) (newCache 1000 None))) = Some 7
 \<and> fst (get 11 ''k''
         (snd (get 5 ''k'' (set_entry 0 ''k'' (7::nat) (Some 10) (newCache 1000 None))))) = None
 \<and> \<not> 1 \<le> fst (prune 12
         (snd (get 11 ''k''
           (snd (get 5 ''k'' (set_entry 0 ''k'' (7::nat) (Some 10) (newCache 1000 None)))))))"
  by (simp add: set_entry_def newCache_def cache_size_def get_def prune_def Let_def
        effective_ttl_def)

text \<open>
  C9. A \<^verbatim>\<open>get(k)\<close> on an entry whose expiry time has passed returns absent and deletes the
  entry: the size drops by one, and a later \<^verbatim>\<open>prune()\<close> counts one entry fewer than it
  would have, namely the expired entries under the other keys. The keys of the store are
  distinct, as those of a \<^verbatim>\<open>Map\<close> are.
\<close>

theorem get_expired_deletes:
  assumes "distinct (map fst (store c))"
      and "map_of (store c) k = Some e"
      and "now > expiresAt e"
      and "now \<le> now2"
  shows "get now k c = (None, c\<lparr>store := AList.delete k (store c)\<rparr>)
       \<and> map_of (store (snd (get now k c))) k = None
       \<and> cache_size (snd (get now k c)) = cache_size c - 1
       \<and> fst (prune now2 (snd (get now k c))) + 1 = fst (prune now2 c)
       \<and> fst (prune now2 (snd (get now k c)))
           = length (filter (\<lambda>p. fst p \<noteq> k \<and> expired now2 p) (store c))"
proof -
  have g: "get now k c = (None, c\<lparr>store := AList.delete k (store c)\<rparr>)"
    using assms(2,3) by (simp add: get_def)
  have l: "length (AList.delete k (store c)) + 1 = length (store c)"
    using filter_delete_length[where P="\<lambda>_. True", OF assms(1,2)] by simp
  have ex: "expired now2 (k, e)" using assms(3,4) by (simp add: expired_def)
  have p: "length (filter (expired now2) (AList.delete k (store c))) + 1
             = length (filter (expired now2) (store c))"
    using filter_delete_length[where P="expired now2", OF assms(1,2)] ex by simp
  have q: "filter (expired now2) (AList.delete k (store c))
             = filter (\<lambda>p. fst p \<noteq> k \<and> expired now2 p) (store c)"
    by (simp add: delete_filter conj_commute)
  show ?thesis
    using l p q by (simp add: g delete_conv' cache_size_def prune_count)
qed

theorem get_expired_deletes_witness:
  "get 11 ''k'' (set_entry 0 ''k'' (7::nat) (Some 10) (newCache 1000 None))
     = (None, newCache 1000 None)
   \<and> fst (prune 12 (set_entry 0 ''k'' (7::nat) (Some 10) (newCache 1000 None))) = 1
   \<and> fst (prune 12 (snd (get 11 ''k'' (set_entry 0 ''k'' (7::nat) (Some 10) (newCache 1000 None))))) = 0"
proof -
  let ?c = "set_entry 0 ''k'' (7::nat) (Some 10) (newCache 1000 None)"
  let ?e = "\<lparr>value = (7::nat), expiresAt = 10, createdAt = 0\<rparr>"
  have st: "store ?c = [(''k'', ?e)]"
    by (simp add: set_entry_def newCache_def cache_size_def Let_def effective_ttl_def)
  have h1: "distinct (map fst (store ?c))" by (simp add: st)
  have h2: "map_of (store ?c) ''k'' = Some ?e" by (simp add: st)
  have h3: "(11::int) > expiresAt ?e" by simp
  have h4: "(11::int) \<le> 12" by simp
  from get_expired_deletes[OF h1 h2 h3 h4]
  show ?thesis
    by (simp add: st get_def prune_def set_entry_def newCache_def cache_size_def Let_def
          effective_ttl_def)
qed


section \<open>Properties of the idempotency guard\<close>

text \<open>
  C8. If an unexpired record is stored under the key and its request hash differs from the
  hash of the payload, \<^verbatim>\<open>check\<close> throws the \<^verbatim>\<open>KEY_MISMATCH\<close> error carrying that
  record: it returns no result at all (neither a cached response nor permission to
  proceed), the storage is unchanged, and \<^verbatim>\<open>execute\<close> throws the same error without
  invoking the wrapped function.
\<close>

theorem check_key_mismatch:
  assumes "map_of records key = Some existing"
      and "now \<le> rec_expiresAt existing"
      and "requestHash existing \<noteq> H requestData"
  shows "check H now key requestData records
           = (Inl (IdempotencyError KEY_MISMATCH (Some existing)), records)
       \<and> (\<forall>r. fst (check H now key requestData records) \<noteq> Inr r)
       \<and> execute cfg H wrap now tStart tEnd key requestData fn records
           = \<lparr>exec_outcome = Inl (IdempotencyError KEY_MISMATCH (Some existing)),
              exec_records = records, fn_invoked = False\<rparr>"
  using assms by (simp add: check_def execute_def storage_get_def)

theorem check_key_mismatch_witness:
  "check (\<lambda>p. p) 5 ''k'' ''B''
     [(''k'', \<lparr>rec_key = ''k'', requestHash = ''A'', response = Some (1::nat),
               rec_status = Completed, rec_createdAt = 0, completedAt = Some 1,
               rec_expiresAt = 100, lockedUntil = None\<rparr>)]
   = (Inl (IdempotencyError KEY_MISMATCH
        (Some \<lparr>rec_key = ''k'', requestHash = ''A'', response = Some (1::nat),
               rec_status = Completed, rec_createdAt = 0, completedAt = Some 1,
               rec_expiresAt = 100, lockedUntil = None\<rparr>)),
      [(''k'', \<lparr>rec_key = ''k'', requestHash = ''A'', response = Some (1::nat),
               rec_status = Completed, rec_createdAt = 0, completedAt = Some 1,
               rec_expiresAt = 100, lockedUntil = None\<rparr>)])"
proof -
  let ?r = "\<lparr>rec_key = ''k'', requestHash = ''A'', response = Some (1::nat),
               rec_status = Completed, rec_createdAt = 0, completedAt = Some 1,
               rec_expiresAt = 100, lockedUntil = None\<rparr>"
  have h1: "map_of [(''k'', ?r)] ''k'' = Some ?r" by simp
  have h2: "(5::int) \<le> rec_expiresAt ?r" by simp
  from check_key_mismatch[where H = "\<lambda>p. p" and requestData = "''B''", OF h1 h2]
  show ?thesis by simp
qed

lemma check_replay_only_completed:
  assumes "check H now key data records = (Inr chk, records1)" "\<not> canProceed chk"
  shows "\<exists>ex. map_of records key = Some ex \<and> records1 = records \<and> rec_status ex = Completed
            \<and> requestHash ex = H data \<and> existingResponse chk = response ex
            \<and> now \<le> rec_expiresAt ex"
proof (cases "map_of records key")
  case None
  with assms show ?thesis by (auto simp: check_def storage_get_def)
next
  case (Some ex)
  show ?thesis
  proof (cases "now > rec_expiresAt ex")
    case True
    with Some assms show ?thesis by (auto simp: check_def storage_get_def)
  next
    case False
    with Some assms show ?thesis
      by (simp add: check_def storage_get_def split: if_splits) auto
  qed
qed

lemma complete_after_start:
  assumes "complete t3 key result (snd (startProcessing cfg H t2 key data records1)) = (Inr u, records3)"
  shows "\<exists>rc. map_of records3 key = Some rc \<and> rec_status rc = Completed
            \<and> response rc = result \<and> requestHash rc = H data
            \<and> rec_expiresAt rc = t2 + idem_ttlMs cfg"
  using assms
  by (auto simp: complete_def startProcessing_def storage_get_def storage_set_def
        update_conv' Let_def split: if_splits)

lemma execute_success_record:
  assumes "exec_outcome (execute cfg H wrap t1 t2 t3 key data fn records) = Inr (Some r)"
  shows "\<exists>rc. map_of (exec_records (execute cfg H wrap t1 t2 t3 key data fn records)) key = Some rc
            \<and> rec_status rc = Completed \<and> response rc = Some r \<and> requestHash rc = H data"
proof -
  obtain res records1 where c: "check H t1 key data records = (res, records1)"
    by (cases "check H t1 key data records")
  show ?thesis
  proof (cases res)
    case (Inl err)
    with c assms show ?thesis by (simp add: execute_def)
  next
    case (Inr chk)
    show ?thesis
    proof (cases "\<not> canProceed chk \<and> existingResponse chk \<noteq> None")
      case True
      with check_replay_only_completed[OF c[unfolded Inr]]
      obtain ex where "map_of records key = Some ex" "records1 = records"
        "rec_status ex = Completed" "requestHash ex = H data"
        "existingResponse chk = response ex" by blast
      with True c Inr assms show ?thesis by (simp add: execute_def)
    next
      case False
      show ?thesis
      proof (cases fn)
        case (Throws e)
        have "exec_outcome (execute cfg H wrap t1 t2 t3 key data fn records) = Inl (FnThrown e)"
          using False by (simp add: execute_def c Inr Throws Let_def)
        with assms show ?thesis by simp
      next
        case (Returns result)
        obtain cr records3 where
          k: "complete t3 key result (snd (startProcessing cfg H t2 key data records1)) = (cr, records3)"
          by (cases "complete t3 key result (snd (startProcessing cfg H t2 key data records1))")
        show ?thesis
        proof (cases cr)
          case (Inl err)
          have "exec_outcome (execute cfg H wrap t1 t2 t3 key data fn records) = Inl err"
            using False by (simp add: execute_def c Inr Returns Let_def k Inl)
          with assms show ?thesis by simp
        next
          case (Inr u)
          have e: "execute cfg H wrap t1 t2 t3 key data fn records
                   = \<lparr>exec_outcome = Inr result, exec_records = records3, fn_invoked = True\<rparr>"
            using False by (simp add: execute_def c \<open>res = Inr chk\<close> Returns Let_def k Inr)
          with assms have "result = Some r" by simp
          with complete_after_start[OF k[unfolded Inr]] show ?thesis by (auto simp: e)
        qed
      qed
    qed
  qed
qed

lemma execute_replay:
  assumes "map_of records key = Some rc" "rec_status rc = Completed" "response rc = Some r"
          "requestHash rc = H data" "t \<le> rec_expiresAt rc"
  shows "execute cfg H wrap t t' t'' key data fn records
          = \<lparr>exec_outcome = Inr (Some r), exec_records = records, fn_invoked = False\<rparr>"
  using assms by (simp add: execute_def check_def storage_get_def)


section \<open>Properties of the filter engine\<close>

text \<open>The gates of the specification for a quote, an intent and a routing configuration:
  a list that is not configured counts as empty.\<close>

abbreviation gates_for ::
  "RegionQuote \<Rightarrow> PaymentIntent \<Rightarrow> RoutingConfig option \<Rightarrow> (FilterReason \<times> bool) list" where
  "gates_for q intent rc \<equiv>
     spec_gates (available q) (region q)
       (case rc of None \<Rightarrow> [] | Some c \<Rightarrow> (case allowedRegions c of None \<Rightarrow> [] | Some l \<Rightarrow> l))
       (case rc of None \<Rightarrow> [] | Some c \<Rightarrow> (case blockedRegions c of None \<Rightarrow> [] | Some l \<Rightarrow> l))
       (amount intent) (limits_min (limits q)) (limits_max (limits q))
       (remainingDaily (limits q)) (paymentMethod intent)
       (case supportedMethods q of None \<Rightarrow> [] | Some ms \<Rightarrow> ms)"

lemma checkQuote_reason:
  "map_option reason (checkQuote fmt q intent rc cc) = first_failing (gates_for q intent rc)"
  by (simp add: checkQuote_def spec_gates_def first_failing_def js_gt_def
        split: option.splits)

lemma checkQuote_quote: "checkQuote fmt q intent rc cc = Some f \<Longrightarrow> quote f = q"
  by (auto simp: checkQuote_def split: if_splits)

lemma checkQuote_unavailable:
  "\<not> available q \<Longrightarrow> checkQuote fmt q intent rc cc
      = Some \<lparr>quote = q, reason = region_unavailable, details = unavailableReason q\<rparr>"
  by (simp add: checkQuote_def)

lemma filterQuotes_loop_char:
  "filterQuotes_loop fmt intent rc cc qs acc =
     \<lparr>passed = passed acc @ filter (\<lambda>q. checkQuote fmt q intent rc cc = None) qs,
      filtered = filtered acc @ List.map_filter (\<lambda>q. checkQuote fmt q intent rc cc) qs\<rparr>"
  by (induction qs arbitrary: acc) (auto simp: List.map_filter_simps split: option.splits)

lemma filterQuotes_char:
  "passed (filterQuotes fmt qs intent rc cc)
      = filter (\<lambda>q. checkQuote fmt q intent rc cc = None) qs"
  "filtered (filterQuotes fmt qs intent rc cc)
      = List.map_filter (\<lambda>q. checkQuote fmt q intent rc cc) qs"
  by (simp_all add: filterQuotes_def filterQuotes_loop_char)

lemma map_filter_quote:
  "map quote (List.map_filter (\<lambda>q. checkQuote fmt q intent rc cc) qs)
     = filter (\<lambda>q. checkQuote fmt q intent rc cc \<noteq> None) qs"
  by (induction qs) (auto simp: List.map_filter_simps checkQuote_quote split: option.splits)

text \<open>
  C5. \<^verbatim>\<open>checkQuote\<close> returns the reason of the first gate that fails, in the order
  available flag, allow-list, block-list, amount below minimum, amount above maximum,
  remaining daily limit, supported payment methods, and nothing when no gate fails; the
  entry it returns is about the quote it was given. \<^verbatim>\<open>filterQuotes\<close> puts the quotes
  that fail no gate in \<^verbatim>\<open>passed\<close> and records one entry with one reason for each other
  quote, in input order. A quote that is not available is in \<^verbatim>\<open>filtered\<close> with reason
  \<^verbatim>\<open>region_unavailable\<close> and not in \<^verbatim>\<open>passed\<close>, whatever the routing configuration.
\<close>

theorem filter_gate_order:
  "map_option reason (checkQuote fmt q intent rc cc) = first_failing (gates_for q intent rc)
 \<and> (\<forall>f. checkQuote fmt q intent rc cc = Some f \<longrightarrow> quote f = q)
 \<and> passed (filterQuotes fmt qs intent rc cc)
      = filter (\<lambda>q. first_failing (gates_for q intent rc) = None) qs
 \<and> map quote (filtered (filterQuotes fmt qs intent rc cc))
      = filter (\<lambda>q. first_failing (gates_for q intent rc) \<noteq> None) qs
 \<and> (\<forall>f \<in> set (filtered (filterQuotes fmt qs intent rc cc)).
        Some (reason f) = first_failing (gates_for (quote f) intent rc))
 \<and> (q \<in> set qs \<and> \<not> available q \<longrightarrow>
        \<lparr>quote = q, reason = region_unavailable, details = unavailableReason q\<rparr>
          \<in> set (filtered (filterQuotes fmt qs intent rc cc))
        \<and> q \<notin> set (passed (filterQuotes fmt qs intent rc cc)))"
proof -
  have n: "\<And>q. (checkQuote fmt q intent rc cc = None)
                 = (first_failing (gates_for q intent rc) = None)"
    using checkQuote_reason[of fmt _ intent rc cc] by (metis option.map_disc_iff)
  have a: "\<forall>f \<in> set (filtered (filterQuotes fmt qs intent rc cc)).
        Some (reason f) = first_failing (gates_for (quote f) intent rc)"
  proof
    fix f assume "f \<in> set (filtered (filterQuotes fmt qs intent rc cc))"
    then obtain q' where q': "checkQuote fmt q' intent rc cc = Some f"
      by (auto simp: filterQuotes_char List.map_filter_def)
    from checkQuote_reason[of fmt q' intent rc cc] q' checkQuote_quote[OF q']
    show "Some (reason f) = first_failing (gates_for (quote f) intent rc)" by simp
  qed
  have b: "q \<in> set qs \<and> \<not> available q \<longrightarrow>
        \<lparr>quote = q, reason = region_unavailable, details = unavailableReason q\<rparr>
          \<in> set (filtered (filterQuotes fmt qs intent rc cc))
        \<and> q \<notin> set (passed (filterQuotes fmt qs intent rc cc))"
    by (auto simp: filterQuotes_char List.map_filter_def checkQuote_unavailable image_iff
          intro!: bexI[of _ q])
  have c: "passed (filterQuotes fmt qs intent rc cc)
      = filter (\<lambda>q. first_failing (gates_for q intent rc) = None) qs"
    by (simp add: filterQuotes_char(1) n)
  have d: "map quote (filtered (filterQuotes fmt qs intent rc cc))
      = filter (\<lambda>q. first_failing (gates_for q intent rc) \<noteq> None) qs"
    by (simp add: filterQuotes_char(2) map_filter_quote n)
  show ?thesis
    using a b c d checkQuote_reason[of fmt q intent rc cc] checkQuote_quote[of fmt q intent rc cc]
    by blast
qed

text \<open>One quote for each gate, in the order of the gates, and one that passes them all.\<close>

theorem filter_gate_order_witness:
  "gateQuote ''UK'' False 1 10000 None None \<in> set gateQuotes
 \<and> \<not> available (gateQuote ''UK'' False 1 10000 None None)
 \<and> map (\<lambda>f. (region (quote f), reason f))
       (filtered (filterQuotes fmt0 gateQuotes mockIntent
                    (Some (mockRouting [''UK'', ''BR'', ''EU''] [''UK'', ''BR''])) None))
     = [(''UK'', region_unavailable), (''JP'', region_not_allowed), (''BR'', region_blocked),
        (''EU'', amount_below_min), (''EU'', amount_above_max),
        (''EU'', daily_limit_exceeded), (''EU'', method_not_supported)]
 \<and> passed (filterQuotes fmt0 gateQuotes mockIntent
              (Some (mockRouting [''UK'', ''BR'', ''EU''] [''UK'', ''BR''])) None)
     = [gateQuote ''EU'' True 1 10000 (Some 100) (Some [''bank'', ''card''])]
 \<and> checkQuote fmt0 (gateQuote ''UK'' False 1 10000 None None) mockIntent
       (Some (mockRouting [''UK'', ''BR'', ''EU''] [''UK'', ''BR''])) None
     = Some \<lparr>quote = gateQuote ''UK'' False 1 10000 None None,
              reason = region_unavailable, details = Some ''Maintenance''\<rparr>
 \<and> \<lparr>quote = gateQuote ''UK'' False 1 10000 None None,
     reason = region_unavailable, details = Some ''Maintenance''\<rparr>
     \<in> set (filtered (filterQuotes fmt0 gateQuotes mockIntent
                (Some (mockRouting [''UK'', ''BR'', ''EU''] [''UK'', ''BR''])) None))
 \<and> gateQuote ''UK'' False 1 10000 None None
     \<notin> set (passed (filterQuotes fmt0 gateQuotes mockIntent
                (Some (mockRouting [''UK'', ''BR'', ''EU''] [''UK'', ''BR''])) None))"
proof -
  let ?rc = "Some (mockRouting [''UK'', ''BR'', ''EU''] [''UK'', ''BR''])"
  let ?uk = "gateQuote ''UK'' False 1 10000 None None"
  have m: "?uk \<in> set gateQuotes" by (simp add: gateQuotes_def)
  have u: "\<not> available ?uk" "unavailableReason ?uk = Some ''Maintenance''"
    by (simp_all add: gateQuote_def)
  have f: "map (\<lambda>f. (region (quote f), reason f))
       (filtered (filterQuotes fmt0 gateQuotes mockIntent ?rc None))
     = [(''UK'', region_unavailable), (''JP'', region_not_allowed), (''BR'', region_blocked),
        (''EU'', amount_below_min), (''EU'', amount_above_max),
        (''EU'', daily_limit_exceeded), (''EU'', method_not_supported)]"
    by (simp add: filterQuotes_def gateQuotes_def gateQuote_def mockIntent_def mockRouting_def
          checkQuote_def js_lt_def js_gt_def)
  have p: "passed (filterQuotes fmt0 gateQuotes mockIntent ?rc None)
     = [gateQuote ''EU'' True 1 10000 (Some 100) (Some [''bank'', ''card''])]"
    by (simp add: filterQuotes_def gateQuotes_def gateQuote_def mockIntent_def mockRouting_def
          checkQuote_def js_lt_def js_gt_def)
  have c: "checkQuote fmt0 ?uk mockIntent ?rc None
     = Some \<lparr>quote = ?uk, reason = region_unavailable, details = Some ''Maintenance''\<rparr>"
    using u by (simp add: checkQuote_def)
  have "?uk \<in> set gateQuotes \<and> \<not> available ?uk \<longrightarrow>
        \<lparr>quote = ?uk, reason = region_unavailable, details = unavailableReason ?uk\<rparr>
          \<in> set (filtered (filterQuotes fmt0 gateQuotes mockIntent ?rc None))
        \<and> ?uk \<notin> set (passed (filterQuotes fmt0 gateQuotes mockIntent ?rc None))"
    using filter_gate_order[of fmt0 ?uk mockIntent ?rc None gateQuotes] by blast
  with m u have i: "\<lparr>quote = ?uk, reason = region_unavailable, details = Some ''Maintenance''\<rparr>
          \<in> set (filtered (filterQuotes fmt0 gateQuotes mockIntent ?rc None))"
    and o: "?uk \<notin> set (passed (filterQuotes fmt0 gateQuotes mockIntent ?rc None))"
    by simp_all
  show ?thesis using m u(1) f p c i o by blast
qed


section \<open>Properties of the scoring engine\<close>

lemma scoreOne_frame:
  "(scoreOne ops fmt w rs q)\<lparr>score := s, reasons := r\<rparr> = q\<lparr>score := s, reasons := r\<rparr>"
  by (simp add: scoreOne_def Let_def)

lemma sort_insert_mset: "mset (sort_insert ops x ys) = add_mset x (mset ys)"
  by (induction ys) simp_all

lemma array_sort_mset: "mset (array_sort ops xs) = mset xs"
  by (induction xs) (simp_all add: array_sort_def sort_insert_mset)

lemma array_sort_set: "set (array_sort ops xs) = set xs"
  by (metis array_sort_mset set_mset_mset)

lemma js_le_trans: "js_le a b \<Longrightarrow> js_le b c \<Longrightarrow> js_le a c"
  by (auto simp: js_le_def js_lt_def)

lemma sort_insert_sorted:
  assumes "\<forall>a\<in>set (x # ys). \<forall>b\<in>set (x # ys).
             score a \<noteq> NaN
             \<and> (js_gt (fsub ops (score a) (score b)) (Num 0) = js_gt (score a) (score b))"
      and "sorted_wrt (\<lambda>a b. js_le (score a) (score b)) ys"
  shows "sorted_wrt (\<lambda>a b. js_le (score a) (score b)) (sort_insert ops x ys)"
  using assms
proof (induction ys)
  case Nil
  then show ?case by simp
next
  case (Cons y ys)
  have nx: "score x \<noteq> NaN" and ny: "score y \<noteq> NaN" using Cons.prems(1) by auto
  have ag: "sort_after ops x y = js_lt (score y) (score x)"
    using Cons.prems(1) by (simp add: sort_after_def js_gt_def)
  have tl: "\<forall>z\<in>set ys. js_le (score y) (score z)"
    and st: "sorted_wrt (\<lambda>a b. js_le (score a) (score b)) ys"
    using Cons.prems(2) by auto
  show ?case
  proof (cases "sort_after ops x y")
    case True
    have yx: "js_le (score y) (score x)"
      using True ag nx ny by (auto simp: js_le_def js_lt_def)
    have sub: "\<forall>a\<in>set (x # ys). \<forall>b\<in>set (x # ys).
             score a \<noteq> NaN
             \<and> (js_gt (fsub ops (score a) (score b)) (Num 0) = js_gt (score a) (score b))"
      using Cons.prems(1) by auto
    have ih: "sorted_wrt (\<lambda>a b. js_le (score a) (score b)) (sort_insert ops x ys)"
      by (rule Cons.IH[OF sub st])
    have "\<forall>z\<in>set (sort_insert ops x ys). js_le (score y) (score z)"
      using yx tl by (metis insert_iff mset.simps(2) set_mset_mset sort_insert_mset set_mset_add_mset_insert)
    with ih True show ?thesis by simp
  next
    case False
    have xy: "js_le (score x) (score y)"
      using False ag nx ny by (simp add: js_le_def)
    have "\<forall>z\<in>set ys. js_le (score x) (score z)"
      using xy tl js_le_trans by blast
    with xy Cons.prems(2) False show ?thesis by simp
  qed
qed

lemma array_sort_sorted:
  assumes "\<forall>a\<in>set xs. \<forall>b\<in>set xs.
             score a \<noteq> NaN
             \<and> (js_gt (fsub ops (score a) (score b)) (Num 0) = js_gt (score a) (score b))"
  shows "sorted_wrt (\<lambda>a b. js_le (score a) (score b)) (array_sort ops xs)"
  using assms
proof (induction xs)
  case Nil
  then show ?case by (simp add: array_sort_def)
next
  case (Cons x xs)
  have ih: "sorted_wrt (\<lambda>a b. js_le (score a) (score b)) (array_sort ops xs)"
    using Cons by simp
  have "\<forall>a\<in>set (x # array_sort ops xs). \<forall>b\<in>set (x # array_sort ops xs).
             score a \<noteq> NaN
             \<and> (js_gt (fsub ops (score a) (score b)) (Num 0) = js_gt (score a) (score b))"
    using Cons.prems by (simp add: array_sort_set)
  from sort_insert_sorted[OF this ih]
  show ?case by (simp add: array_sort_def)
qed

lemma clamp_range:
  "js_max2 (Num 0) (js_min2 (Num 1) t) = NaN
   \<or> (js_le (Num 0) (js_max2 (Num 0) (js_min2 (Num 1) t))
      \<and> js_le (js_max2 (Num 0) (js_min2 (Num 1) t)) (Num 1))"
  by (cases t) (auto simp: js_max2_def js_min2_def js_le_def js_lt_def)

lemma scoreQuotes_quotes:
  "qs \<noteq> [] \<Longrightarrow> quotes (scoreQuotes ops fmt qs w)
     = array_sort ops (map (scoreOne ops fmt w (ranges (meta (scoreQuotes ops fmt qs w)))) qs)"
  by (simp add: scoreQuotes_def Let_def)

lemma scoreQuotes_best:
  "qs \<noteq> [] \<Longrightarrow> best (scoreQuotes ops fmt qs w) = Some (hd (quotes (scoreQuotes ops fmt qs w)))"
proof -
  assume ne: "qs \<noteq> []"
  let ?l = "quotes (scoreQuotes ops fmt qs w)"
  have "mset ?l \<noteq> {#}" using ne by (simp add: scoreQuotes_quotes array_sort_mset)
  then have "?l \<noteq> []" by auto
  then obtain b bs where l: "?l = b # bs" by (cases ?l) auto
  have "best (scoreQuotes ops fmt qs w) = (case ?l of [] \<Rightarrow> None | b # _ \<Rightarrow> Some b)"
    using ne by (simp add: scoreQuotes_def Let_def)
  with l show ?thesis by simp
qed

text \<open>The sample arithmetic on finite operands, and on the infinite ones the examples meet.\<close>

lemma overflowing_small: "\<bar>r\<bar> \<le> 1000000 \<Longrightarrow> overflowing r = Num r"
proof -
  assume a: "\<bar>r\<bar> \<le> 1000000"
  then have "r \<le> 1000000" "- 1000000 \<le> r" by (simp_all add: abs_le_iff)
  then have "r < 2 ^ 1024" "- (2 ^ 1024) < r" by simp_all
  then show ?thesis by (simp add: overflowing_def)
qed

lemma overflowing_0: "overflowing 0 = Num 0" by (simp add: overflowing_small)

lemma sample_Num:
  "sample_add (Num a) (Num b) = overflowing (a + b)"
  "sample_add (Num a) NegZero = overflowing a"
  "sample_mul (Num a) (Num b)
     = (if a = 0 \<or> b = 0 then signed_zero ((a < 0) \<noteq> (b < 0)) else overflowing (a * b))"
  "sample_div (Num a) (Num b)
     = (if a = 0 \<and> b = 0 then NaN
        else if b = 0 then signed_inf (a < 0)
        else if a = 0 then signed_zero (b < 0)
        else overflowing (a / b))"
  "sample_div (Num a) PosInf = signed_zero (a < 0)"
  "sample_div PosInf PosInf = NaN"
  "sample_add NaN x = NaN"
  "sample_add x NaN = NaN"
  "sample_mul x NaN = NaN"
  "sample_mul NaN x = NaN"
  by (simp_all add: sample_add_def sample_mul_def sample_div_def overflowing_0 signed_zero_def)

lemma scoreQuotes_ranges:
  "qs \<noteq> [] \<Longrightarrow> ranges (meta (scoreQuotes ops fmt qs w)) =
     \<lparr>cost = \<lparr>range_min = math_min (map totalCost qs), range_max = math_max (map totalCost qs)\<rparr>,
      successRateRange =
        \<lparr>range_min = math_min (map (\<lambda>q. case successRate q of None \<Rightarrow> lit ops 0.9 | Some s \<Rightarrow> s) qs),
         range_max = math_max (map (\<lambda>q. case successRate q of None \<Rightarrow> lit ops 0.9 | Some s \<Rightarrow> s) qs)\<rparr>,
      latencyRange =
        \<lparr>range_min = math_min (map (\<lambda>q. case latencyMs q of None \<Rightarrow> Num 100 | Some l \<Rightarrow> l) qs),
         range_max = math_max (map (\<lambda>q. case latencyMs q of None \<Rightarrow> Num 100 | Some l \<Rightarrow> l) qs)\<rparr>\<rparr>"
  by (simp add: scoreQuotes_def Let_def)

lemma scoreOne_fields:
  "score (scoreOne ops fmt w rs q) = calculateScore ops q w rs"
  "region (scoreOne ops fmt w rs q) = region q"
  by (simp_all add: scoreOne_def Let_def)

text \<open>
  C4. For a non-empty list of quotes and any weights, the list returned by
  \<^verbatim>\<open>scoreQuotes\<close> is a permutation of the input quotes, each with its \<^verbatim>\<open>score\<close> and
  \<^verbatim>\<open>reasons\<close> fields overwritten by the scorer and otherwise unchanged, and \<^verbatim>\<open>best\<close> is its
  first element. Every score is NaN or lies between 0 and 1. The list is in non-decreasing
  order of score when no score in it is NaN and the difference of two scores, as the
  arithmetic computes it, is above zero exactly when the first is above the second (which
  holds of the subtraction of finite doubles).
\<close>

theorem scoreQuotes_sorted_permutation:
  assumes "qs \<noteq> []"
  shows "mset (quotes (scoreQuotes ops fmt qs w))
           = mset (map (scoreOne ops fmt w (ranges (meta (scoreQuotes ops fmt qs w)))) qs)
       \<and> mset (map (\<lambda>q. q\<lparr>score := s, reasons := r\<rparr>) (quotes (scoreQuotes ops fmt qs w)))
           = mset (map (\<lambda>q. q\<lparr>score := s, reasons := r\<rparr>) qs)
       \<and> best (scoreQuotes ops fmt qs w) = Some (hd (quotes (scoreQuotes ops fmt qs w)))
       \<and> (\<forall>a\<in>set (quotes (scoreQuotes ops fmt qs w)).
             score a = NaN \<or> (js_le (Num 0) (score a) \<and> js_le (score a) (Num 1)))
       \<and> ((\<forall>a\<in>set (quotes (scoreQuotes ops fmt qs w)).
            \<forall>b\<in>set (quotes (scoreQuotes ops fmt qs w)).
              score a \<noteq> NaN
              \<and> (js_gt (fsub ops (score a) (score b)) (Num 0) = js_gt (score a) (score b)))
           \<longrightarrow> sorted_wrt (\<lambda>a b. js_le (score a) (score b))
                 (quotes (scoreQuotes ops fmt qs w)))"
proof -
  let ?rs = "ranges (meta (scoreQuotes ops fmt qs w))"
  let ?R = "quotes (scoreQuotes ops fmt qs w)"
  have q: "?R = array_sort ops (map (scoreOne ops fmt w ?rs) qs)"
    by (rule scoreQuotes_quotes[OF assms])
  have m: "mset ?R = mset (map (scoreOne ops fmt w ?rs) qs)"
    by (simp add: q array_sort_mset)
  have "mset (map (\<lambda>q. q\<lparr>score := s, reasons := r\<rparr>) ?R)
          = image_mset (\<lambda>q. q\<lparr>score := s, reasons := r\<rparr>) (mset (map (scoreOne ops fmt w ?rs) qs))"
    using m by (metis mset_map)
  also have "\<dots> = mset (map (\<lambda>q. q\<lparr>score := s, reasons := r\<rparr>) qs)"
    by (simp add: multiset.map_comp comp_def scoreOne_frame)
  finally have p: "mset (map (\<lambda>q. q\<lparr>score := s, reasons := r\<rparr>) ?R)
           = mset (map (\<lambda>q. q\<lparr>score := s, reasons := r\<rparr>) qs)" .
  have c: "\<forall>a\<in>set ?R. score a = NaN \<or> (js_le (Num 0) (score a) \<and> js_le (score a) (Num 1))"
  proof
    fix a assume "a \<in> set ?R"
    then have "a \<in> set (map (scoreOne ops fmt w ?rs) qs)"
      using q by (simp only: array_sort_set)
    then obtain q0 where a: "a = scoreOne ops fmt w ?rs q0" by auto
    have "score a = calculateScore ops q0 w ?rs" by (simp add: a scoreOne_def Let_def)
    then show "score a = NaN \<or> (js_le (Num 0) (score a) \<and> js_le (score a) (Num 1))"
      using clamp_range by (simp add: calculateScore_def Let_def)
  qed
  have s: "(\<forall>a\<in>set ?R. \<forall>b\<in>set ?R.
              score a \<noteq> NaN
              \<and> (js_gt (fsub ops (score a) (score b)) (Num 0) = js_gt (score a) (score b)))
           \<longrightarrow> sorted_wrt (\<lambda>a b. js_le (score a) (score b)) ?R"
  proof
    assume h: "\<forall>a\<in>set ?R. \<forall>b\<in>set ?R.
              score a \<noteq> NaN
              \<and> (js_gt (fsub ops (score a) (score b)) (Num 0) = js_gt (score a) (score b))"
    have "set ?R = set (map (scoreOne ops fmt w ?rs) qs)"
      using q by (simp only: array_sort_set)
    with h have "\<forall>a\<in>set (map (scoreOne ops fmt w ?rs) qs).
                 \<forall>b\<in>set (map (scoreOne ops fmt w ?rs) qs).
              score a \<noteq> NaN
              \<and> (js_gt (fsub ops (score a) (score b)) (Num 0) = js_gt (score a) (score b))"
      by simp
    from array_sort_sorted[OF this]
    show "sorted_wrt (\<lambda>a b. js_le (score a) (score b)) ?R" using q by simp
  qed
  show ?thesis using m p c s scoreQuotes_best[OF assms] by blast
qed

theorem scoreQuotes_sorted_permutation_witness:
  "[mockQuote ''EU'' 3 True None, mockQuote ''UK'' 2 True None, mockQuote ''SG'' 4 True None] \<noteq> []
 \<and> map region (quotes (scoreQuotes sample_ops fmt0
        [mockQuote ''EU'' 3 True None, mockQuote ''UK'' 2 True None, mockQuote ''SG'' 4 True None]
        priceOnly)) = [''UK'', ''EU'', ''SG'']
 \<and> map score (quotes (scoreQuotes sample_ops fmt0
        [mockQuote ''EU'' 3 True None, mockQuote ''UK'' 2 True None, mockQuote ''SG'' 4 True None]
        priceOnly)) = [Num 0, Num (1 / 2), Num 1]
 \<and> sorted_wrt (\<lambda>a b. js_le (score a) (score b)) (quotes (scoreQuotes sample_ops fmt0
        [mockQuote ''EU'' 3 True None, mockQuote ''UK'' 2 True None, mockQuote ''SG'' 4 True None]
        priceOnly))
 \<and> map_option region (best (scoreQuotes sample_ops fmt0
        [mockQuote ''EU'' 3 True None, mockQuote ''UK'' 2 True None, mockQuote ''SG'' 4 True None]
        priceOnly)) = Some ''UK''"
proof -
  let ?qs = "[mockQuote ''EU'' 3 True None, mockQuote ''UK'' 2 True None,
              mockQuote ''SG'' 4 True None]"
  let ?rs = "\<lparr>cost = \<lparr>range_min = Num 2, range_max = Num 4\<rparr>,
             successRateRange = \<lparr>range_min = Num (19 / 20), range_max = Num (19 / 20)\<rparr>,
             latencyRange = \<lparr>range_min = Num 100, range_max = Num 100\<rparr>\<rparr>"
  have ne: "?qs \<noteq> []" by simp
  have rs: "ranges (meta (scoreQuotes sample_ops fmt0 ?qs priceOnly)) = ?rs"
    unfolding scoreQuotes_ranges[OF ne]
    by (simp add: mockQuote_def math_min_def math_max_def js_min2_def js_max2_def js_lt_def)
  have sc: "calculateScore sample_ops (mockQuote r 3 True None) priceOnly ?rs = Num (1 / 2)"
      "calculateScore sample_ops (mockQuote r 2 True None) priceOnly ?rs = Num 0"
      "calculateScore sample_ops (mockQuote r 4 True None) priceOnly ?rs = Num 1" for r
    by (simp_all add: calculateScore_def mockQuote_def Let_def normalize_def calculatePenalties_def
          js_eq_def js_lt_def js_gt_def priceOnly_def js_min2_def js_max2_def sample_ops_def
          sample_Num overflowing_small signed_zero_def signed_inf_def)
  define a where "a = scoreOne sample_ops fmt0 priceOnly ?rs (mockQuote ''EU'' 3 True None)"
  define b where "b = scoreOne sample_ops fmt0 priceOnly ?rs (mockQuote ''UK'' 2 True None)"
  define c where "c = scoreOne sample_ops fmt0 priceOnly ?rs (mockQuote ''SG'' 4 True None)"
  have f: "score a = Num (1 / 2)" "score b = Num 0" "score c = Num 1"
    by (simp_all add: a_def b_def c_def scoreOne_fields sc)
  have g: "region a = ''EU''" "region b = ''UK''" "region c = ''SG''"
    by (simp_all add: a_def b_def c_def scoreOne_fields mockQuote_def)
  have "quotes (scoreQuotes sample_ops fmt0 ?qs priceOnly) = array_sort sample_ops [a, b, c]"
    unfolding scoreQuotes_quotes[OF ne] rs by (simp add: a_def b_def c_def)
  also have "\<dots> = [b, a, c]"
    by (simp add: array_sort_def sort_after_def f js_gt_def js_lt_def sample_ops_def sample_Num
          overflowing_small)
  finally have l: "quotes (scoreQuotes sample_ops fmt0 ?qs priceOnly) = [b, a, c]" .
  have hyp: "\<forall>a\<in>set (quotes (scoreQuotes sample_ops fmt0 ?qs priceOnly)).
             \<forall>b\<in>set (quotes (scoreQuotes sample_ops fmt0 ?qs priceOnly)).
              score a \<noteq> NaN
              \<and> (js_gt (fsub sample_ops (score a) (score b)) (Num 0) = js_gt (score a) (score b))"
    unfolding l
    by (simp add: f sample_ops_def sample_Num overflowing_small js_gt_def js_lt_def)
  have st: "sorted_wrt (\<lambda>a b. js_le (score a) (score b))
              (quotes (scoreQuotes sample_ops fmt0 ?qs priceOnly))"
    using scoreQuotes_sorted_permutation[OF ne, of sample_ops fmt0 priceOnly] hyp by blast
  have bs: "best (scoreQuotes sample_ops fmt0 ?qs priceOnly)
              = Some (hd (quotes (scoreQuotes sample_ops fmt0 ?qs priceOnly)))"
    using scoreQuotes_sorted_permutation[OF ne, of sample_ops fmt0 priceOnly] by blast
  show ?thesis using st by (simp add: bs l f g)
qed

text \<open>
  With costs \<open>2 ^ 1023\<close> and \<open>- (2 ^ 1023)\<close> the width of the cost range overflows to
  infinity, the normalised cost of the first quote is infinity by infinity, and its score
  is NaN; the comparator returns NaN, the sort leaves the quote first, and the score after
  it is 0: the list is not in non-decreasing order of score.
\<close>

theorem scoreQuotes_nan_counterexample:
  "map region (quotes (scoreQuotes sample_ops fmt0
        [hugeQuote ''A'' (Num (2 ^ 1023)), hugeQuote ''B'' (Num (- (2 ^ 1023)))] priceOnly))
     = [''A'', ''B'']
 \<and> map score (quotes (scoreQuotes sample_ops fmt0
        [hugeQuote ''A'' (Num (2 ^ 1023)), hugeQuote ''B'' (Num (- (2 ^ 1023)))] priceOnly))
     = [NaN, Num 0]
 \<and> \<not> js_le NaN (Num 0)"
proof -
  let ?qs = "[hugeQuote ''A'' (Num (2 ^ 1023)), hugeQuote ''B'' (Num (- (2 ^ 1023)))]"
  let ?rs = "\<lparr>cost = \<lparr>range_min = Num (- (2 ^ 1023)), range_max = Num (2 ^ 1023)\<rparr>,
             successRateRange = \<lparr>range_min = Num (9 / 10), range_max = Num (9 / 10)\<rparr>,
             latencyRange = \<lparr>range_min = Num 100, range_max = Num 100\<rparr>\<rparr>"
  have ne: "?qs \<noteq> []" by simp
  have rs: "ranges (meta (scoreQuotes sample_ops fmt0 ?qs priceOnly)) = ?rs"
    unfolding scoreQuotes_ranges[OF ne]
    by (simp add: hugeQuote_def math_min_def math_max_def js_min2_def js_max2_def js_lt_def
          sample_ops_def)
  have w: "overflowing (2 * 2 ^ 1023) = PosInf"
    by (simp add: overflowing_def)
  have sa: "calculateScore sample_ops (hugeQuote r (Num (2 ^ 1023))) priceOnly ?rs = NaN" for r
    by (simp add: calculateScore_def hugeQuote_def Let_def normalize_def calculatePenalties_def
          js_eq_def js_lt_def js_gt_def priceOnly_def js_min2_def js_max2_def sample_ops_def
          sample_Num overflowing_small w signed_zero_def signed_inf_def del: power_numeral)
  have sb: "calculateScore sample_ops (hugeQuote r (Num (- (2 ^ 1023)))) priceOnly ?rs = Num 0" for r
    by (simp add: calculateScore_def hugeQuote_def Let_def normalize_def calculatePenalties_def
          js_eq_def js_lt_def js_gt_def priceOnly_def js_min2_def js_max2_def sample_ops_def
          sample_Num overflowing_small w signed_zero_def signed_inf_def del: power_numeral)
  define a where "a = scoreOne sample_ops fmt0 priceOnly ?rs (hugeQuote ''A'' (Num (2 ^ 1023)))"
  define b where "b = scoreOne sample_ops fmt0 priceOnly ?rs (hugeQuote ''B'' (Num (- (2 ^ 1023))))"
  have f: "score a = NaN" "score b = Num 0"
    by (simp_all add: a_def b_def scoreOne_fields sa sb del: power_numeral)
  have g: "region a = ''A''" "region b = ''B''"
    by (simp_all add: a_def b_def scoreOne_fields hugeQuote_def)
  have "quotes (scoreQuotes sample_ops fmt0 ?qs priceOnly) = array_sort sample_ops [a, b]"
    unfolding scoreQuotes_quotes[OF ne] rs by (simp add: a_def b_def)
  also have "\<dots> = [a, b]"
    by (simp add: array_sort_def sort_after_def f js_gt_def js_lt_def sample_ops_def sample_Num)
  finally show ?thesis by (simp add: f g js_le_def)
qed


section \<open>Properties of the circuit breaker\<close>

lemma state_cleanup [simp]: "state (cleanupOldCalls cfg now b) = state b"
  by (simp add: cleanupOldCalls_def)

lemma state_transitionTo [simp]: "state (snd (transitionTo cfg now s b)) = s"
  by (cases s) (simp_all add: transitionTo_def Let_def split: option.splits)

lemma transitionTo_thrown:
  "state b \<noteq> Closed \<Longrightarrow> fst (transitionTo cfg now Closed b) = onClose cfg (length (callbacks b))"
  "state b \<noteq> Open \<Longrightarrow> fst (transitionTo cfg now Open b) = onOpen cfg (length (callbacks b))"
  "state b \<noteq> HalfOpen
     \<Longrightarrow> fst (transitionTo cfg now HalfOpen b) = onHalfOpen cfg (length (callbacks b))"
  by (simp_all add: transitionTo_def Let_def cleanupOldCalls_def split: option.splits)

lemma recordFailure_closed:
  "state b = Closed \<Longrightarrow>
     (state (snd (recordFailure cfg now dur err b)) = Open)
       = (int (failures_in_window cfg now
                (calls b @ [\<lparr>call_timestamp = now, call_success = False,
                             call_duration = dur, call_error = err\<rparr>]))
            \<ge> failureThreshold cfg)"
  by (simp add: recordFailure_def Let_def failures_in_window_def cleanupOldCalls_def)

lemma recordFailure_halfopen:
  "state b = HalfOpen \<Longrightarrow> state (snd (recordFailure cfg now dur err b)) = Open"
  by (simp add: recordFailure_def Let_def)

lemma execute_catch_snd:
  "isFailure cfg e = Inr True \<Longrightarrow>
     snd (execute_catch cfg t0 t1 e b :: ('a, 'e) ExecResult \<times> 'e CircuitBreaker)
       = snd (recordFailure cfg t1 (t1 - t0) (Some e) b)"
  "isFailure cfg e = Inr False \<Longrightarrow>
     snd (execute_catch cfg t0 t1 e b :: ('a, 'e) ExecResult \<times> 'e CircuitBreaker)
       = snd (recordSuccess cfg t1 (t1 - t0) b)"
  by (simp_all add: execute_catch_def split: prod.splits option.splits)


lemma execute_failure_halfopen:
  "state b = HalfOpen \<Longrightarrow> isFailure cfg e = Inr True \<Longrightarrow>
     state (snd (breaker_execute cfg t0 t1 (Inl e) b)) = Open"
  by (simp add: breaker_execute_def execute_begin_def execute_end_def execute_catch_snd
        recordFailure_halfopen)

lemma execute_begin_after_timeout:
  assumes "state b = Open" "openedAt b = Some t" "now - t \<ge> resetTimeoutMs cfg"
  shows "execute_begin cfg now b
           = (case fst (transitionTo cfg now HalfOpen b) of
                None \<Rightarrow> Proceed (snd (transitionTo cfg now HalfOpen b))
              | Some thrown \<Rightarrow> BeginThrew thrown (snd (transitionTo cfg now HalfOpen b)))"
  using assms
  by (simp add: execute_begin_def shouldAttemptReset_def split: prod.splits option.splits)

lemma recordSuccess_quiet:
  "\<forall>n. onClose cfg n = None \<Longrightarrow> fst (recordSuccess cfg now dur b) = None"
  by (simp add: recordSuccess_def Let_def transitionTo_def split: option.splits)

lemma execute_success_quiet:
  assumes "\<forall>n. onClose cfg n = None" "state b \<noteq> Open"
  shows "breaker_execute cfg t0 t1 (Inr r) b = (Returned r, snd (recordSuccess cfg t1 (t1 - t0) b))"
proof -
  obtain b1 where r: "recordSuccess cfg t1 (t1 - t0) b = (None, b1)"
    using recordSuccess_quiet[OF assms(1), of t1 "t1 - t0" b]
    by (cases "recordSuccess cfg t1 (t1 - t0) b") auto
  show ?thesis
    using assms(2) by (simp add: breaker_execute_def execute_begin_def execute_end_def r)
qed

lemma successes_run_closes:
  assumes q: "\<forall>n. onClose cfg n = None"
  shows "state b = Closed \<or> (state b = HalfOpen \<and> rs \<noteq> []
      \<and> int (consecutiveSuccesses b) + int (length rs) \<ge> successThreshold cfg)
   \<Longrightarrow> state (successes_run cfg rs b) = Closed"
proof (induction rs arbitrary: b)
  case Nil
  then show ?case by simp
next
  case (Cons x rs)
  obtain t0 t1 where x: "x = (t0, t1)" by (cases x)
  let ?b' = "snd (breaker_execute cfg t0 t1 (Inr () :: 'a + unit) b)"
  from Cons.prems have no: "state b \<noteq> Open" by auto
  then have b': "?b' = snd (recordSuccess cfg t1 (t1 - t0) b)"
    by (simp add: execute_success_quiet[OF q])
  have "state ?b' = Closed \<or> (state ?b' = HalfOpen \<and> rs \<noteq> []
      \<and> int (consecutiveSuccesses ?b') + int (length rs) \<ge> successThreshold cfg)"
  proof (cases "state b = Closed")
    case True
    then show ?thesis by (simp add: b' recordSuccess_def Let_def)
  next
    case False
    with Cons.prems have h: "state b = HalfOpen"
      "int (consecutiveSuccesses b) + int (length (x # rs)) \<ge> successThreshold cfg" by auto
    show ?thesis
    proof (cases "int (consecutiveSuccesses b + 1) \<ge> successThreshold cfg")
      case True
      with h(1) show ?thesis
        by (simp add: b' recordSuccess_def Let_def cleanupOldCalls_def)
    next
      case False
      with h have "state ?b' = HalfOpen" "consecutiveSuccesses ?b' = consecutiveSuccesses b + 1"
        by (simp_all add: b' recordSuccess_def Let_def cleanupOldCalls_def)
      moreover from False h(2) have "rs \<noteq> []" by auto
      ultimately show ?thesis using h(2) by simp
    qed
  qed
  from Cons.IH[OF this] show ?case by (simp add: x)
qed

lemma failures_run_opens_gen:
  assumes "state b = Closed"
      and "\<forall>c \<in> set (calls b). \<not> call_success c"
      and "\<forall>c \<in> set (calls b). \<forall>x \<in> set run. fst (snd x) - call_timestamp c \<le> rollingWindowMs cfg"
      and "sorted_wrt (\<lambda>x y. fst (snd y) - fst (snd x) \<le> rollingWindowMs cfg) run"
      and "0 \<le> rollingWindowMs cfg"
      and "\<forall>x \<in> set run. isFailure cfg (snd (snd x)) = Inr True"
      and "run \<noteq> []"
      and "int (length (calls b)) + int (length run) = failureThreshold cfg"
  shows "state (failures_run cfg run b) = Open"
  using assms
proof (induction run arbitrary: b)
  case Nil
  then show ?case by simp
next
  case (Cons x run)
  obtain t0 t1 e where x: "x = (t0, t1, e)" by (cases x)
  let ?new = "\<lparr>call_timestamp = t1, call_success = False,
               call_duration = t1 - t0, call_error = Some e\<rparr>"
  let ?b' = "snd (breaker_execute cfg t0 t1 (Inl e :: 'a + unit) b)"
  have isf: "isFailure cfg e = Inr True" using Cons.prems(6) by (simp add: x)
  have keep: "filter (\<lambda>c. call_timestamp c \<ge> t1 - rollingWindowMs cfg) (calls b @ [?new])
                = calls b @ [?new]"
    using Cons.prems(3,5) by (auto simp: x filter_id_conv)
  have cnt: "length (filter (\<lambda>c. \<not> call_success c) (calls b @ [?new])) = length (calls b) + 1"
    using Cons.prems(2) by (simp add: filter_id_conv)
  have b': "?b' = snd (recordFailure cfg t1 (t1 - t0) (Some e) b)"
    using Cons.prems(1) isf
    by (simp add: breaker_execute_def execute_begin_def execute_end_def execute_catch_snd)
  show ?case
  proof (cases "run = []")
    case True
    with Cons.prems(8) have "int (length (calls b)) + 1 = failureThreshold cfg" by simp
    then have "state ?b' = Open"
      using Cons.prems(1) keep cnt
      by (simp add: b' recordFailure_def Let_def cleanupOldCalls_def)
    with True show ?thesis by (simp add: x)
  next
    case False
    with Cons.prems(8) have lt: "int (length (calls b)) + 1 < failureThreshold cfg"
      by (cases run) auto
    have st: "state ?b' = Closed" and cl: "calls ?b' = calls b @ [?new]"
      using Cons.prems(1) keep cnt lt
      by (simp_all add: b' recordFailure_def Let_def cleanupOldCalls_def)
    have "state (failures_run cfg run ?b') = Open"
    proof (rule Cons.IH[OF st])
      show "\<forall>c\<in>set (calls ?b'). \<not> call_success c" using Cons.prems(2) by (simp add: cl)
      show "\<forall>c\<in>set (calls ?b'). \<forall>x\<in>set run. fst (snd x) - call_timestamp c \<le> rollingWindowMs cfg"
        using Cons.prems(3,4) by (auto simp: cl x)
      show "sorted_wrt (\<lambda>x y. fst (snd y) - fst (snd x) \<le> rollingWindowMs cfg) run"
        using Cons.prems(4) by simp
      show "0 \<le> rollingWindowMs cfg" by (rule Cons.prems(5))
      show "\<forall>x\<in>set run. isFailure cfg (snd (snd x)) = Inr True" using Cons.prems(6) by simp
      show "run \<noteq> []" by (rule False)
      show "int (length (calls ?b')) + int (length run) = failureThreshold cfg"
        using Cons.prems(8) by (simp add: cl)
    qed
    then show ?thesis by (simp add: x)
  qed
qed

text \<open>
  C3. (1) In the closed state, recording a failure opens the circuit exactly when the
  failed calls inside the rolling window, the new one included, number at least
  \<^verbatim>\<open>failureThreshold\<close>; and a new breaker (closed) that sees \<^verbatim>\<open>failureThreshold\<close> calls
  fail with errors that \<^verbatim>\<open>isFailure\<close> counts, each within the rolling window of the later
  ones, is open after them. (2) When the circuit is open and \<^verbatim>\<open>resetTimeoutMs\<close> has elapsed
  since it opened, the next call of \<^verbatim>\<open>execute\<close> moves it to half-open, and runs the
  function if the \<^verbatim>\<open>onHalfOpen\<close> callback returns. (3) From half-open, \<^verbatim>\<open>successThreshold\<close>
  successful calls in a row leave it closed, provided the \<^verbatim>\<open>onClose\<close> callback returns
  normally. (4) From half-open, one recorded failure leaves it open. In (1), (2) and (4)
  the state is reached whether the callback of the transition returns or throws.
\<close>

theorem circuit_breaker_transitions:
  "(state b = Closed \<longrightarrow>
      (state (snd (recordFailure cfg now dur err b)) = Open)
        = (int (failures_in_window cfg now
                 (calls b @ [\<lparr>call_timestamp = now, call_success = False,
                              call_duration = dur, call_error = err\<rparr>]))
             \<ge> failureThreshold cfg))
 \<and> (run \<noteq> [] \<and> int (length run) = failureThreshold cfg
      \<and> (\<forall>x \<in> set run. isFailure cfg (snd (snd x)) = Inr True)
      \<and> 0 \<le> rollingWindowMs cfg
      \<and> sorted_wrt (\<lambda>x y. fst (snd y) - fst (snd x) \<le> rollingWindowMs cfg) run
      \<longrightarrow> state (failures_run cfg run newCircuitBreaker) = Open)
 \<and> (state b = Open \<and> openedAt b = Some t \<and> now - t \<ge> resetTimeoutMs cfg \<longrightarrow>
      (\<exists>b1. (execute_begin cfg now b = Proceed b1
              \<or> (\<exists>thrown. execute_begin cfg now b = BeginThrew thrown b1))
            \<and> state b1 = HalfOpen)
      \<and> (onHalfOpen cfg (length (callbacks b)) = None \<longrightarrow> calls_fn cfg now b))
 \<and> (state b = HalfOpen \<and> rs \<noteq> [] \<and> int (length rs) = successThreshold cfg
      \<and> (\<forall>n. onClose cfg n = None)
      \<longrightarrow> state (successes_run cfg rs b) = Closed)
 \<and> (state b = HalfOpen \<longrightarrow>
      state (snd (recordFailure cfg now dur err b)) = Open
      \<and> (isFailure cfg e = Inr True
           \<longrightarrow> state (snd (breaker_execute cfg t0 t1 (Inl e :: 'e + unit) b)) = Open))"
proof -
  have a: "run \<noteq> [] \<and> int (length run) = failureThreshold cfg
      \<and> (\<forall>x \<in> set run. isFailure cfg (snd (snd x)) = Inr True)
      \<and> 0 \<le> rollingWindowMs cfg
      \<and> sorted_wrt (\<lambda>x y. fst (snd y) - fst (snd x) \<le> rollingWindowMs cfg) run
      \<longrightarrow> state (failures_run cfg run newCircuitBreaker) = Open"
  proof
    assume h: "run \<noteq> [] \<and> int (length run) = failureThreshold cfg
      \<and> (\<forall>x \<in> set run. isFailure cfg (snd (snd x)) = Inr True)
      \<and> 0 \<le> rollingWindowMs cfg
      \<and> sorted_wrt (\<lambda>x y. fst (snd y) - fst (snd x) \<le> rollingWindowMs cfg) run"
    show "state (failures_run cfg run newCircuitBreaker) = Open"
      by (rule failures_run_opens_gen) (use h in \<open>simp_all add: newCircuitBreaker_def\<close>)
  qed
  have b: "state b = Open \<and> openedAt b = Some t \<and> now - t \<ge> resetTimeoutMs cfg \<longrightarrow>
      (\<exists>b1. (execute_begin cfg now b = Proceed b1
              \<or> (\<exists>thrown. execute_begin cfg now b = BeginThrew thrown b1))
            \<and> state b1 = HalfOpen)
      \<and> (onHalfOpen cfg (length (callbacks b)) = None \<longrightarrow> calls_fn cfg now b)"
  proof
    assume h: "state b = Open \<and> openedAt b = Some t \<and> now - t \<ge> resetTimeoutMs cfg"
    then have e: "execute_begin cfg now b
           = (case fst (transitionTo cfg now HalfOpen b) of
                None \<Rightarrow> Proceed (snd (transitionTo cfg now HalfOpen b))
              | Some thrown \<Rightarrow> BeginThrew thrown (snd (transitionTo cfg now HalfOpen b)))"
      using execute_begin_after_timeout by blast
    have f: "fst (transitionTo cfg now HalfOpen b) = onHalfOpen cfg (length (callbacks b))"
      using h by (simp add: transitionTo_thrown)
    have 1: "\<exists>b1. (execute_begin cfg now b = Proceed b1
              \<or> (\<exists>thrown. execute_begin cfg now b = BeginThrew thrown b1))
            \<and> state b1 = HalfOpen"
      by (rule exI[of _ "snd (transitionTo cfg now HalfOpen b)"])
         (simp add: e split: option.splits)
    have 2: "onHalfOpen cfg (length (callbacks b)) = None \<longrightarrow> calls_fn cfg now b"
      by (simp add: calls_fn_def e f)
    from 1 2 show "(\<exists>b1. (execute_begin cfg now b = Proceed b1
              \<or> (\<exists>thrown. execute_begin cfg now b = BeginThrew thrown b1))
            \<and> state b1 = HalfOpen)
      \<and> (onHalfOpen cfg (length (callbacks b)) = None \<longrightarrow> calls_fn cfg now b)" by blast
  qed
  have c: "state b = HalfOpen \<and> rs \<noteq> [] \<and> int (length rs) = successThreshold cfg
      \<and> (\<forall>n. onClose cfg n = None)
      \<longrightarrow> state (successes_run cfg rs b) = Closed"
    using successes_run_closes[of cfg b rs] by auto
  have d: "state b = Closed \<longrightarrow>
      (state (snd (recordFailure cfg now dur err b)) = Open)
        = (int (failures_in_window cfg now
                 (calls b @ [\<lparr>call_timestamp = now, call_success = False,
                              call_duration = dur, call_error = err\<rparr>]))
             \<ge> failureThreshold cfg)"
    by (simp add: recordFailure_closed)
  have e: "state b = HalfOpen \<longrightarrow>
      state (snd (recordFailure cfg now dur err b)) = Open
      \<and> (isFailure cfg e = Inr True
           \<longrightarrow> state (snd (breaker_execute cfg t0 t1 (Inl e :: 'e + unit) b)) = Open)"
    by (simp add: recordFailure_halfopen execute_failure_halfopen)
  show ?thesis using a b c d e by blast
qed

lemmas breaker_eval = cfg0_def newCircuitBreakerConfig_def newCircuitBreaker_def breaker_execute_def
      execute_begin_def execute_end_def execute_catch_def recordFailure_def recordSuccess_def
      Let_def cleanupOldCalls_def transitionTo_def shouldAttemptReset_def failures_in_window_def

theorem circuit_breaker_transitions_witness:
  "state (newCircuitBreaker :: string CircuitBreaker) = Closed
 \<and> state (failures_run cfg0 [(0, 1, ''E'')] newCircuitBreaker) = Closed
 \<and> state (failures_run cfg0 [(0, 1, ''E''), (2, 3, ''E'')] newCircuitBreaker) = Open
 \<and> openedAt (failures_run cfg0 [(0, 1, ''E''), (2, 3, ''E'')] newCircuitBreaker) = Some 3
 \<and> calls_fn cfg0 1003 (failures_run cfg0 [(0, 1, ''E''), (2, 3, ''E'')] newCircuitBreaker)
 \<and> state (snd (transitionTo cfg0 1003 HalfOpen
      (failures_run cfg0 [(0, 1, ''E''), (2, 3, ''E'')] newCircuitBreaker))) = HalfOpen
 \<and> state (successes_run cfg0 [(1003, 1004), (1005, 1006)]
      (snd (transitionTo cfg0 1003 HalfOpen
         (failures_run cfg0 [(0, 1, ''E''), (2, 3, ''E'')] newCircuitBreaker)))) = Closed
 \<and> state (snd (breaker_execute cfg0 1003 1004 (Inl ''E'' :: string + unit)
      (snd (transitionTo cfg0 1003 HalfOpen
         (failures_run cfg0 [(0, 1, ''E''), (2, 3, ''E'')] newCircuitBreaker))))) = Open"
proof -
  let ?run = "[(0, 1, ''E''), (2, 3, ''E'')] :: (int \<times> int \<times> string) list"
  let ?bo = "failures_run cfg0 ?run newCircuitBreaker"
  let ?bh = "snd (transitionTo cfg0 1003 HalfOpen ?bo)"
  let ?rs = "[(1003, 1004), (1005, 1006)] :: (int \<times> int) list"
  have s1: "state (failures_run cfg0 [(0, 1, ''E'')] newCircuitBreaker) = Closed"
    by (simp add: breaker_eval)
  have h2: "?run \<noteq> [] \<and> int (length ?run) = failureThreshold cfg0
      \<and> (\<forall>x \<in> set ?run. isFailure cfg0 (snd (snd x)) = Inr True)
      \<and> 0 \<le> rollingWindowMs cfg0
      \<and> sorted_wrt (\<lambda>x y. fst (snd y) - fst (snd x) \<le> rollingWindowMs cfg0) ?run"
    by (simp add: cfg0_def newCircuitBreakerConfig_def)
  have o: "openedAt ?bo = Some 3" by (simp add: breaker_eval)
  have h3: "(1003::int) - 3 \<ge> resetTimeoutMs cfg0"
    by (simp add: cfg0_def newCircuitBreakerConfig_def)
  have h3': "onHalfOpen cfg0 (length (callbacks ?bo)) = None"
    by (simp add: cfg0_def newCircuitBreakerConfig_def)
  have h4: "?rs \<noteq> [] \<and> int (length ?rs) = successThreshold cfg0
              \<and> (\<forall>n. onClose cfg0 n = None)"
    by (simp add: cfg0_def newCircuitBreakerConfig_def)
  have h5: "isFailure cfg0 ''E'' = Inr True" by (simp add: cfg0_def newCircuitBreakerConfig_def)
  have t1: "state ?bo = Open"
    using circuit_breaker_transitions[where cfg = cfg0 and run = ?run] h2 by blast
  have t2: "calls_fn cfg0 1003 ?bo"
    using circuit_breaker_transitions[where cfg = cfg0 and b = ?bo and t = 3 and now = 1003]
      t1 o h3 h3' by blast
  have sh: "state ?bh = HalfOpen" by simp
  have t3: "state (successes_run cfg0 ?rs ?bh) = Closed"
    using circuit_breaker_transitions[where cfg = cfg0 and b = ?bh and rs = ?rs] sh h4 by blast
  have t4: "state (snd (breaker_execute cfg0 1003 1004 (Inl ''E'' :: string + unit) ?bh)) = Open"
    using circuit_breaker_transitions[where cfg = cfg0 and b = ?bh and e = "''E''"
        and ?t0.0 = 1003 and ?t1.0 = 1004] sh h5 by blast
  show ?thesis using s1 t1 o t2 sh t3 t4 by (simp add: newCircuitBreaker_def)
qed

text \<open>
  A breaker whose \<^verbatim>\<open>onClose\<close> callback throws: two failures open it; after the reset
  timeout the first successful call runs in half-open; the second reaches
  \<^verbatim>\<open>successThreshold\<close>, and the transition to closed runs the callback inside the try
  block of \<^verbatim>\<open>execute\<close>; the catch block takes what it threw for a failure of the call and
  records it, the two earlier failures are still in the window, and the breaker is open
  again. \<^verbatim>\<open>execute\<close> throws the callback's error although the function returned.
\<close>

theorem onClose_throws_counterexample:
  "successThreshold throwingClose = 2
 \<and> state (failures_run throwingClose [(0, 1, ''E''), (2, 3, ''E'')] newCircuitBreaker) = Open
 \<and> state (successes_run throwingClose [(1003, 1004)]
      (failures_run throwingClose [(0, 1, ''E''), (2, 3, ''E'')] newCircuitBreaker)) = HalfOpen
 \<and> state (successes_run throwingClose [(1003, 1004), (1005, 1006)]
      (failures_run throwingClose [(0, 1, ''E''), (2, 3, ''E'')] newCircuitBreaker)) = Open
 \<and> fst (breaker_execute throwingClose 1005 1006 (Inr () :: string + unit)
      (successes_run throwingClose [(1003, 1004)]
         (failures_run throwingClose [(0, 1, ''E''), (2, 3, ''E'')] newCircuitBreaker)))
     = Threw ''onClose failed''"
  by (simp add: throwingClose_def newCircuitBreakerConfig_def newCircuitBreaker_def
        breaker_execute_def execute_begin_def execute_end_def execute_catch_def
        recordFailure_def recordSuccess_def Let_def cleanupOldCalls_def transitionTo_def
        shouldAttemptReset_def)





section \<open>Properties of the payment executor\<close>

text \<open>The events of an attempt.\<close>

abbreviation attemptEvent :: "PaymentIntent \<Rightarrow> nat \<Rightarrow> string \<Rightarrow> string \<Rightarrow> Effect" where
  "attemptEvent intent attempt reg rid \<equiv>
     Logged (PaymentAttemptEvent (intent_id intent) attempt reg rid)"

abbreviation notRetryableEvent :: "PaymentIntent \<Rightarrow> string \<Rightarrow> string Thrown \<Rightarrow> PayEvent" where
  "notRetryableEvent intent reg error \<equiv>
     PaymentNotRetryable (intent_id intent) reg (map_option code (toJSON_opt error))"

lemma gateway_calls_simps [simp]:
  "gateway_calls [] = []"
  "gateway_calls (GatewayPay r # effs) = r # gateway_calls effs"
  "gateway_calls (Sleep ms # effs) = gateway_calls effs"
  "gateway_calls (Logged ev # effs) = gateway_calls effs"
  "gateway_calls (effs @ effs') = gateway_calls effs @ gateway_calls effs'"
  by (simp_all add: gateway_calls_def)

lemma logger_event_quiet:
  "\<forall>n ev. onEvent env n ev = None \<Longrightarrow> logger_event env effs ev = (None, effs @ [Logged ev])"
  by (simp add: logger_event_def)

text \<open>The try block when the hook returns; the catch block and the loop for any hook.\<close>

lemma pay_try_quiet:
  assumes "\<forall>n ev. onEvent env n ev = None"
  shows "pay_try env intent key attempt reg rid atts effs =
     (case executePayment env attempt of
        Inl error \<Rightarrow>
          TryThrew error atts
            (effs @ [attemptEvent intent attempt reg rid,
                     GatewayPay (pay_request intent reg rid key attempt)])
      | Inr result \<Rightarrow>
          TryReturned
            (result\<lparr>attempts := atts @ [attempt_record env (length atts) attempt reg rid
                                          AttemptSucceeded None],
                    idempotencyKey := key\<rparr>)
            (atts @ [attempt_record env (length atts) attempt reg rid AttemptSucceeded None])
            (effs @ [attemptEvent intent attempt reg rid,
                     GatewayPay (pay_request intent reg rid key attempt),
                     Logged (PaymentCompleted (intent_id intent) reg (pr_status result))]))"
  by (simp add: pay_try_def logger_event_quiet[OF assms] Let_def split: sum.splits)

lemma pay_try_returned:
  "pay_try env intent key attempt reg rid atts effs = TryReturned result atts1 effs1
   \<Longrightarrow> attempts result = atts1 \<and> idempotencyKey result = key"
  by (auto simp: pay_try_def Let_def split: prod.splits option.splits sum.splits)

lemma pay_catch_done:
  "pay_catch rc env intent decision maxAttempts attempt reg rid atts fr effs error = CatchDone run
   \<Longrightarrow> attempts_log run
         = atts @ [attempt_record env (length atts) attempt reg rid AttemptFailed (toJSON_opt error)]
     \<and> gateway_calls (effects run) = gateway_calls effs
     \<and> (\<exists>thrown. outcome run = Inl (Propagated thrown))"
  by (auto simp: pay_catch_def logger_event_def Let_def
        split: if_splits prod.splits option.splits)

lemma pay_catch_continue:
  "pay_catch rc env intent decision maxAttempts attempt reg rid atts fr effs error
     = CatchContinue reg' rid' atts2 fr2 effs2
   \<Longrightarrow> atts2 = atts @ [attempt_record env (length atts) attempt reg rid AttemptFailed
                          (toJSON_opt error)]
     \<and> gateway_calls effs2 = gateway_calls effs
     \<and> int attempt < maxAttempts"
  by (auto simp: pay_catch_def logger_event_def Let_def
        split: if_splits prod.splits option.splits)

lemma pay_loop_exit:
  "\<not> int attempt \<le> maxAttempts \<Longrightarrow>
   pay_loop rc env intent key decision maxAttempts attempt reg rid atts fr effs =
     \<lparr>outcome = Inl (Raised (createError (errorTime env) INTERNAL_ERROR
                                ''Payment failed after all attempts''
                                (Some (AttemptsDetails atts)) None)),
      attempts_log = atts, effects = effs\<rparr>"
  by (subst pay_loop.simps) simp

lemma pay_loop_returned:
  "int attempt \<le> maxAttempts \<Longrightarrow>
   pay_try env intent key attempt reg rid atts effs = TryReturned result atts1 effs1 \<Longrightarrow>
   pay_loop rc env intent key decision maxAttempts attempt reg rid atts fr effs =
     \<lparr>outcome = Inr result, attempts_log = atts1, effects = effs1\<rparr>"
  by (subst pay_loop.simps) simp

lemma pay_loop_done:
  "int attempt \<le> maxAttempts \<Longrightarrow>
   pay_try env intent key attempt reg rid atts effs = TryThrew error atts1 effs1 \<Longrightarrow>
   pay_catch rc env intent decision maxAttempts attempt reg rid atts1 fr effs1 error
     = CatchDone run \<Longrightarrow>
   pay_loop rc env intent key decision maxAttempts attempt reg rid atts fr effs = run"
  by (subst pay_loop.simps) simp

lemma pay_loop_next:
  "int attempt \<le> maxAttempts \<Longrightarrow>
   pay_try env intent key attempt reg rid atts effs = TryThrew error atts1 effs1 \<Longrightarrow>
   pay_catch rc env intent decision maxAttempts attempt reg rid atts1 fr effs1 error
     = CatchContinue reg' rid' atts2 fr2 effs2 \<Longrightarrow>
   pay_loop rc env intent key decision maxAttempts attempt reg rid atts fr effs =
     pay_loop rc env intent key decision maxAttempts (attempt + 1) reg' rid' atts2 fr2 effs2"
  by (subst pay_loop.simps) simp

lemma log_ok_length: "log_ok key intent env cs lg \<Longrightarrow> length lg = length cs"
  unfolding log_ok_def by (drule list_all2_lengthD) (simp del: upt_Suc)

lemma log_ok_snoc:
  assumes "log_ok key intent env cs lg" "attempt_ok key intent env (Suc (length cs), c) a"
  shows "log_ok key intent env (cs @ [c]) (lg @ [a])"
proof -
  have u: "[1 ..< Suc (length (cs @ [c]))] = [1 ..< Suc (length cs)] @ [Suc (length cs)]"
    by (simp del: upt_Suc add: upt_Suc_append)
  have z: "zip [1 ..< Suc (length (cs @ [c]))] (cs @ [c])
             = zip [1 ..< Suc (length cs)] cs @ [(Suc (length cs), c)]"
    unfolding u by (simp del: upt_Suc)
  show ?thesis
    unfolding log_ok_def z
    using assms by (auto simp: log_ok_def simp del: upt_Suc intro!: list_all2_appendI)
qed

lemma attempt_ok_record:
  "st = (case executePayment env attempt of Inr result \<Rightarrow> AttemptSucceeded | Inl error \<Rightarrow> AttemptFailed)
   \<Longrightarrow> attempt_ok key intent env (attempt, pay_request intent reg rid key attempt)
         (attempt_record env pos attempt reg rid st err)"
  by (simp add: attempt_ok_def pay_request_def attempt_record_def)

lemma log_ok_Nil [simp]: "log_ok key intent env [] []"
  by (simp add: log_ok_def)

lemma pay_loop_log_ok:
  "\<forall>n ev. onEvent env n ev = None \<Longrightarrow>
   log_ok key intent env (gateway_calls effs) atts \<Longrightarrow> Suc (length atts) = attempt \<Longrightarrow>
   log_ok key intent env
     (gateway_calls (effects (pay_loop rc env intent key decision maxAttempts attempt reg rid
                                atts fr effs)))
     (attempts_log (pay_loop rc env intent key decision maxAttempts attempt reg rid
                                atts fr effs))
   \<and> int (length (attempts_log (pay_loop rc env intent key decision maxAttempts attempt reg rid
                                atts fr effs)))
       \<le> max (int (length atts)) maxAttempts"
proof (induction rc env intent key decision maxAttempts attempt reg rid atts fr effs
       rule: pay_loop.induct)
  case (1 rc env intent key decision maxAttempts attempt reg rid atts fr effs)
  let ?req = "pay_request intent reg rid key attempt"
  note q = "1.prems"(1)
  note ok = "1.prems"(2)
  note at = "1.prems"(3)
  have len: "Suc (length (gateway_calls effs)) = attempt"
    using ok at log_ok_length by fastforce
  show ?case
  proof (cases "int attempt \<le> maxAttempts")
    case False
    then show ?thesis using ok by (simp add: pay_loop_exit)
  next
    case le: True
    show ?thesis
    proof (cases "executePayment env attempt")
      case (Inr result)
      let ?atts1 = "atts @ [attempt_record env (length atts) attempt reg rid AttemptSucceeded None]"
      have t: "pay_try env intent key attempt reg rid atts effs =
          TryReturned (result\<lparr>attempts := ?atts1, idempotencyKey := key\<rparr>) ?atts1
            (effs @ [attemptEvent intent attempt reg rid, GatewayPay ?req,
                     Logged (PaymentCompleted (intent_id intent) reg (pr_status result))])"
        by (simp add: pay_try_quiet[OF q] Inr)
      have "log_ok key intent env (gateway_calls effs @ [?req]) ?atts1"
        by (rule log_ok_snoc[OF ok]) (simp add: len attempt_ok_record Inr)
      then show ?thesis
        using le at by (simp add: pay_loop_returned[OF le t])
    next
      case (Inl error)
      let ?atts1 = "atts @ [attempt_record env (length atts) attempt reg rid AttemptFailed
                             (toJSON_opt error)]"
      let ?effs1 = "effs @ [attemptEvent intent attempt reg rid, GatewayPay ?req]"
      have t: "pay_try env intent key attempt reg rid atts effs = TryThrew error atts ?effs1"
        by (simp add: pay_try_quiet[OF q] Inl)
      have ok1: "log_ok key intent env (gateway_calls effs @ [?req]) ?atts1"
        by (rule log_ok_snoc[OF ok]) (simp add: len attempt_ok_record Inl)
      show ?thesis
      proof (cases "pay_catch rc env intent decision maxAttempts attempt reg rid atts fr
                      ?effs1 error")
        case (CatchDone run)
        from pay_catch_done[OF CatchDone]
        have "attempts_log run = ?atts1" "gateway_calls (effects run) = gateway_calls effs @ [?req]"
          by simp_all
        then show ?thesis
          using ok1 le at by (simp add: pay_loop_done[OF le t CatchDone])
      next
        case (CatchContinue reg' rid' atts2 fr2 effs2)
        from pay_catch_continue[OF CatchContinue]
        have a2: "atts2 = ?atts1" and g2: "gateway_calls effs2 = gateway_calls effs @ [?req]"
          and lt: "int attempt < maxAttempts"
          by simp_all
        have "log_ok key intent env
                (gateway_calls (effects (pay_loop rc env intent key decision maxAttempts
                     (attempt + 1) reg' rid' atts2 fr2 effs2)))
                (attempts_log (pay_loop rc env intent key decision maxAttempts
                     (attempt + 1) reg' rid' atts2 fr2 effs2))
            \<and> int (length (attempts_log (pay_loop rc env intent key decision maxAttempts
                     (attempt + 1) reg' rid' atts2 fr2 effs2)))
                \<le> max (int (length atts2)) maxAttempts"
          apply (rule "1.IH"[OF le t CatchContinue q])
          using ok1 a2 g2 at by auto
        then show ?thesis
          using lt a2 at by (simp add: pay_loop_next[OF le t CatchContinue])
      qed
    qed
  qed
qed

lemma pay_loop_result:
  "outcome (pay_loop rc env intent key decision maxAttempts attempt reg rid atts fr effs) = Inr res
   \<Longrightarrow> attempts res = attempts_log (pay_loop rc env intent key decision maxAttempts attempt reg rid
                                         atts fr effs)
     \<and> idempotencyKey res = key"
proof (induction rc env intent key decision maxAttempts attempt reg rid atts fr effs
       rule: pay_loop.induct)
  case (1 rc env intent key decision maxAttempts attempt reg rid atts fr effs)
  show ?case
  proof (cases "int attempt \<le> maxAttempts")
    case False
    then show ?thesis using "1.prems" by (simp add: pay_loop_exit)
  next
    case le: True
    show ?thesis
    proof (cases "pay_try env intent key attempt reg rid atts effs")
      case (TryReturned result atts1 effs1)
      then show ?thesis
        using "1.prems" pay_try_returned[OF TryReturned]
        by (auto simp add: pay_loop_returned[OF le TryReturned])
    next
      case (TryThrew error atts1 effs1)
      show ?thesis
      proof (cases "pay_catch rc env intent decision maxAttempts attempt reg rid atts1 fr
                      effs1 error")
        case (CatchDone run)
        then show ?thesis
          using "1.prems" pay_catch_done[OF CatchDone]
          by (auto simp add: pay_loop_done[OF le TryThrew CatchDone])
      next
        case (CatchContinue reg' rid' atts2 fr2 effs2)
        show ?thesis
          using "1.IH"[OF le TryThrew CatchContinue] "1.prems"
          by (simp add: pay_loop_next[OF le TryThrew CatchContinue])
      qed
    qed
  qed
qed

text \<open>
  C2, as amended. \<^verbatim>\<open>pay()\<close> calls the gateway client directly; no circuit breaker is
  involved. When the logger's \<^verbatim>\<open>onEvent\<close> hook returns normally (or none is configured):
  for every attempt the loop makes (numbered 1, 2, ... without gaps, and no more of them
  than \<^verbatim>\<open>maxAttempts\<close>, which is 1 when \<^verbatim>\<open>noFallback\<close> is set and else \<^verbatim>\<open>fallback.maxTries\<close> or
  its default 3) the gateway call carries the idempotency key \<^verbatim>\<open>"{baseKey}-{i}"\<close>, and the
  attempts log gets an entry with the number, region and router of that call, with status
  succeeded when the call returned and failed when it threw. A result that \<^verbatim>\<open>pay()\<close>
  returns carries the log and the base key, whatever the hook does.
\<close>

theorem pay_attempts_recorded:
  "((\<forall>n ev. onEvent env n ev = None) \<longrightarrow>
      log_ok (case opt_idempotencyKey options of Some k \<Rightarrow> k | None \<Rightarrow> generatedKey env)
        intent env
        (gateway_calls (effects (pay rc env intent options)))
        (attempts_log (pay rc env intent options))
    \<and> length (gateway_calls (effects (pay rc env intent options)))
        = length (attempts_log (pay rc env intent options))
    \<and> int (length (attempts_log (pay rc env intent options)))
        \<le> max 0 (if noFallback options = Some True then 1
                  else (case fallback rc of
                          None \<Rightarrow> 3
                        | Some f \<Rightarrow> (case maxTries f of None \<Rightarrow> 3 | Some m \<Rightarrow> m))))
 \<and> (\<forall>res. outcome (pay rc env intent options) = Inr res \<longrightarrow>
        attempts res = attempts_log (pay rc env intent options)
      \<and> idempotencyKey res
          = (case opt_idempotencyKey options of Some k \<Rightarrow> k | None \<Rightarrow> generatedKey env))"
proof (cases "onEvent env 0 (PaymentStarted (intent_id intent)) \<noteq> None \<or> mode rc = DryRun
                \<or> (\<exists>error. decideRoute env = Inl error)")
  case True
  then show ?thesis
    by (auto simp: pay_def logger_event_def Let_def split: sum.splits option.splits)
next
  case False
  then obtain decision where d: "decideRoute env = Inr decision" and m: "mode rc \<noteq> DryRun"
    and s: "onEvent env 0 (PaymentStarted (intent_id intent)) = None"
    by (cases "decideRoute env") auto
  let ?key = "case opt_idempotencyKey options of Some k \<Rightarrow> k | None \<Rightarrow> generatedKey env"
  let ?max = "if noFallback options = Some True then 1
              else (case fallback rc of
                      None \<Rightarrow> 3
                    | Some f \<Rightarrow> (case maxTries f of None \<Rightarrow> 3 | Some m \<Rightarrow> m))"
  let ?effs0 = "[Logged (PaymentStarted (intent_id intent))]"
  have k: "pay_key env options = ?key" by (simp add: pay_key_def)
  have mx: "pay_maxAttempts rc options = ?max"
    by (simp add: pay_maxAttempts_def fallback_maxTries_def split: option.splits)
  let ?reg = "case forceRegion options of Some r \<Rightarrow> r | None \<Rightarrow> chosenRegion decision"
  let ?rid = "case forceRegion options of
                Some r \<Rightarrow>
                  if r \<noteq> []
                  then (case find (\<lambda>q. region q = r) (qr_quotes (quoteResult decision)) of
                          Some forcedQuote \<Rightarrow> routerId forcedQuote
                        | None \<Rightarrow> chosenRouterId decision)
                  else chosenRouterId decision
              | None \<Rightarrow> chosenRouterId decision"
  have "pay rc env intent options
      = pay_loop rc env intent (pay_key env options) decision (pay_maxAttempts rc options) 1
          ?reg ?rid [] {} ?effs0"
    using d m s by (simp add: pay_def logger_event_def Let_def)
  then have p: "pay rc env intent options
      = pay_loop rc env intent ?key decision ?max 1 ?reg ?rid [] {} ?effs0"
    unfolding k mx .
  have a: "(\<forall>n ev. onEvent env n ev = None) \<longrightarrow>
      log_ok ?key intent env (gateway_calls (effects (pay rc env intent options)))
        (attempts_log (pay rc env intent options))
    \<and> length (gateway_calls (effects (pay rc env intent options)))
        = length (attempts_log (pay rc env intent options))
    \<and> int (length (attempts_log (pay rc env intent options))) \<le> max 0 ?max"
  proof
    assume q: "\<forall>n ev. onEvent env n ev = None"
    have "log_ok ?key intent env (gateway_calls (effects (pay rc env intent options)))
            (attempts_log (pay rc env intent options))
        \<and> int (length (attempts_log (pay rc env intent options)))
            \<le> max (int (length ([] :: PaymentAttempt list))) ?max"
      unfolding p by (rule pay_loop_log_ok[OF q]) simp_all
    then show "log_ok ?key intent env (gateway_calls (effects (pay rc env intent options)))
        (attempts_log (pay rc env intent options))
    \<and> length (gateway_calls (effects (pay rc env intent options)))
        = length (attempts_log (pay rc env intent options))
    \<and> int (length (attempts_log (pay rc env intent options))) \<le> max 0 ?max"
      using log_ok_length by fastforce
  qed
  have b: "\<forall>res. outcome (pay rc env intent options) = Inr res \<longrightarrow>
        attempts res = attempts_log (pay rc env intent options) \<and> idempotencyKey res = ?key"
    unfolding p using pay_loop_result by blast
  show ?thesis using a b by blast
qed

lemmas pay_eval = pay_def pay_key_def pay_maxAttempts_def pay_loop.simps pay_try_def pay_catch_def
  logger_event_def mockEnv_def mockOptions_def noFallbackOptions_def
  mockDecision_def mockRouting_def
  gatewayError_def gatewayResult_def createError_def RETRYABLE_CODES_def non_retryable_def
  isRetryableError_def toJSON_opt_def fallback_enabled_def fallback_maxTries_def fallback_backoff_def
  getNextFallback_def mockQuote_def pay_request_def attempt_record_def Let_def
  decimal.simps digit_def gwDeclined_def gwTimeoutThenDeclined_def gwThirdSucceeds_def
  gwSucceeds_def mockIntent_def hookError_def throwsOnCompleted_def throwsOnNotRetryable_def

theorem pay_attempts_recorded_witness:
  "(\<forall>n ev. onEvent (mockEnv gwThirdSucceeds) n ev = None)
 \<and> outcome (pay (mockRouting [] []) (mockEnv gwThirdSucceeds) mockIntent mockOptions)
     = Inr ((gatewayResult ''SG'' ''p1'')
              \<lparr>attempts := attempts_log (pay (mockRouting [] []) (mockEnv gwThirdSucceeds)
                                          mockIntent mockOptions),
               idempotencyKey := ''k''\<rparr>)
 \<and> log_ok ''k'' mockIntent (mockEnv gwThirdSucceeds)
      (gateway_calls (effects (pay (mockRouting [] []) (mockEnv gwThirdSucceeds) mockIntent
                                 mockOptions)))
      (attempts_log (pay (mockRouting [] []) (mockEnv gwThirdSucceeds) mockIntent mockOptions))
 \<and> map req_idempotencyKey
      (gateway_calls (effects (pay (mockRouting [] []) (mockEnv gwThirdSucceeds) mockIntent
                                 mockOptions))) = [''k-1'', ''k-2'', ''k-3'']
 \<and> map (\<lambda>a. (attemptNumber a, att_region a, att_status a))
      (attempts_log (pay (mockRouting [] []) (mockEnv gwThirdSucceeds) mockIntent mockOptions))
     = [(1, ''EU'', AttemptFailed), (2, ''UK'', AttemptFailed), (3, ''SG'', AttemptSucceeded)]
 \<and> map (\<lambda>a. (attemptNumber a, att_region a, att_status a))
      (attempts_log (pay (mockRouting [] []) (mockEnv gwThirdSucceeds) mockIntent
                       noFallbackOptions))
     = [(1, ''EU'', AttemptFailed)]
 \<and> int (length (attempts_log (pay (mockRouting [] []) (mockEnv gwThirdSucceeds) mockIntent
                                 noFallbackOptions))) \<le> 1"
proof -
  let ?env = "mockEnv gwThirdSucceeds"
  let ?run = "pay (mockRouting [] []) ?env mockIntent mockOptions"
  let ?run1 = "pay (mockRouting [] []) ?env mockIntent noFallbackOptions"
  have q: "\<forall>n ev. onEvent ?env n ev = None" by (simp add: mockEnv_def)
  have k: "(case opt_idempotencyKey mockOptions of Some k \<Rightarrow> k | None \<Rightarrow> generatedKey ?env) = ''k''"
    by (simp add: mockOptions_def)
  have m1: "max 0 (if noFallback noFallbackOptions = Some True then 1
                  else (case fallback (mockRouting [] []) of
                          None \<Rightarrow> 3
                        | Some f \<Rightarrow> (case maxTries f of None \<Rightarrow> 3 | Some m \<Rightarrow> m))) = (1::int)"
    by (simp add: noFallbackOptions_def)
  have o: "outcome ?run = Inr ((gatewayResult ''SG'' ''p1'')
              \<lparr>attempts := attempts_log ?run, idempotencyKey := ''k''\<rparr>)"
    by (simp add: pay_eval)
  have c: "map req_idempotencyKey (gateway_calls (effects ?run)) = [''k-1'', ''k-2'', ''k-3'']"
    by (simp add: pay_eval)
  have a: "map (\<lambda>a. (attemptNumber a, att_region a, att_status a)) (attempts_log ?run)
     = [(1, ''EU'', AttemptFailed), (2, ''UK'', AttemptFailed), (3, ''SG'', AttemptSucceeded)]"
    by (simp add: pay_eval)
  have a1: "map (\<lambda>a. (attemptNumber a, att_region a, att_status a)) (attempts_log ?run1)
     = [(1, ''EU'', AttemptFailed)]"
    by (simp add: pay_eval)
  from pay_attempts_recorded[of ?env mockOptions mockIntent "mockRouting [] []"] q
  have l: "log_ok ''k'' mockIntent ?env (gateway_calls (effects ?run)) (attempts_log ?run)"
    unfolding k by blast
  from pay_attempts_recorded[of ?env noFallbackOptions mockIntent "mockRouting [] []"] q
  have b: "int (length (attempts_log ?run1)) \<le> 1"
    unfolding m1 by blast
  from q o l c a a1 b show ?thesis by blast
qed

text \<open>
  C2 as stated fails. The gateway call does not go through a circuit breaker: with a
  breaker that was tripped a moment ago, a call through it is answered by the fallback and
  never reaches the gateway; \<^verbatim>\<open>pay()\<close> reaches the gateway all the same. And the log does
  not have one entry for each attempt when the \<^verbatim>\<open>onEvent\<close> hook throws: with a hook that
  throws on \<^verbatim>\<open>payment.completed\<close>, the one attempt, whose gateway call returned a result, is
  in the log twice, as succeeded and as failed, and \<^verbatim>\<open>pay()\<close> throws the hook's error.
\<close>

theorem pay_through_breaker_counterexample:
  "gateway_calls (effects (pay (mockRouting [] []) (mockEnv (gwSucceeds ''p1'')) mockIntent
                             mockOptions))
     = [pay_request mockIntent ''EU'' ''router_eu_1'' ''k'' 1]
 \<and> gateway_calls (effects (pay_loop_through_breaker cfg0 (snd (trip cfg0 1 newCircuitBreaker))
        attemptTimes (mockRouting [] []) (mockEnv (gwSucceeds ''p1'')) mockIntent ''k''
        mockDecision 3 1 ''EU'' ''router_eu_1'' [] {} [])) = []
 \<and> gateway_calls (effects (pay (mockRouting [] [])
        ((mockEnv (gwSucceeds ''p1''))\<lparr>onEvent := throwsOnCompleted\<rparr>) mockIntent mockOptions))
     = [pay_request mockIntent ''EU'' ''router_eu_1'' ''k'' 1]
 \<and> map attemptNumber (attempts_log (pay (mockRouting [] [])
        ((mockEnv (gwSucceeds ''p1''))\<lparr>onEvent := throwsOnCompleted\<rparr>) mockIntent mockOptions))
     = [1, 1]
 \<and> map att_status (attempts_log (pay (mockRouting [] [])
        ((mockEnv (gwSucceeds ''p1''))\<lparr>onEvent := throwsOnCompleted\<rparr>) mockIntent mockOptions))
     = [AttemptSucceeded, AttemptFailed]
 \<and> outcome (pay (mockRouting [] [])
        ((mockEnv (gwSucceeds ''p1''))\<lparr>onEvent := throwsOnCompleted\<rparr>) mockIntent mockOptions)
     = Inl (Propagated hookError)"
  by (simp add: pay_eval pay_loop_through_breaker.simps CircuitOpenError_def
        cfg0_def newCircuitBreakerConfig_def newCircuitBreaker_def trip_def transitionTo_def
        cleanupOldCalls_def execute_begin_def shouldAttemptReset_def calls_fn_def
        breaker_execute_def attemptTimes_def)

text \<open>
  C7, as amended. When the gateway call of an attempt throws an error classified as
  non-retryable (not a \<^verbatim>\<open>GeoPayException\<close>, or one whose \<^verbatim>\<open>isRetryable\<close> is false), the loop
  stops at once: the failed attempt is the last entry of the log, and after the gateway
  call comes the \<^verbatim>\<open>payment.failed\<close> event and nothing else (no sleep, no further call). The
  caller gets the caught error itself, thrown again unchanged, if the \<^verbatim>\<open>onEvent\<close> hook
  returns on that event; if the hook throws there, the caller gets what the hook threw.
  The log stays in \<^verbatim>\<open>pay()\<close>; it is not attached to the error.
\<close>

theorem non_retryable_aborts:
  assumes "int attempt \<le> maxAttempts"
      and "onEvent env (length effs) (PaymentAttemptEvent (intent_id intent) attempt reg rid) = None"
      and "executePayment env attempt = Inl error"
      and "non_retryable error"
  shows "pay_loop rc env intent key decision maxAttempts attempt reg rid atts fr effs =
     \<lparr>outcome =
        Inl (Propagated
               (case onEvent env (length effs + 2)
                       (PaymentNotRetryable (intent_id intent) reg
                          (map_option code (toJSON_opt error))) of
                  None \<Rightarrow> error
                | Some thrown \<Rightarrow> thrown)),
      attempts_log = atts @ [attempt_record env (length atts) attempt reg rid AttemptFailed
                               (toJSON_opt error)],
      effects = effs @ [Logged (PaymentAttemptEvent (intent_id intent) attempt reg rid),
                        GatewayPay (pay_request intent reg rid key attempt),
                        Logged (PaymentNotRetryable (intent_id intent) reg
                                  (map_option code (toJSON_opt error)))]\<rparr>"
  using assms
  by (subst pay_loop.simps)
     (simp add: pay_try_def pay_catch_def logger_event_def Let_def split: option.splits)

theorem non_retryable_aborts_witness:
  "(2::int) \<le> 3
 \<and> executePayment (mockEnv gwTimeoutThenDeclined) 2 = Inl (gatewayError PAYMENT_DECLINED)
 \<and> non_retryable (gatewayError PAYMENT_DECLINED)
 \<and> pay (mockRouting [] []) (mockEnv gwTimeoutThenDeclined) mockIntent mockOptions =
     \<lparr>outcome = Inl (Propagated (gatewayError PAYMENT_DECLINED)),
      attempts_log =
        [attempt_record (mockEnv gwTimeoutThenDeclined) 0 1 ''EU'' ''router_eu_1'' AttemptFailed
           (toJSON_opt (gatewayError TIMEOUT)),
         attempt_record (mockEnv gwTimeoutThenDeclined) 1 2 ''UK'' ''router_eu_1'' AttemptFailed
           (toJSON_opt (gatewayError PAYMENT_DECLINED))],
      effects =
        [Logged (PaymentStarted ''test_intent_1''),
         Logged (PaymentAttemptEvent ''test_intent_1'' 1 ''EU'' ''router_eu_1''),
         GatewayPay (pay_request mockIntent ''EU'' ''router_eu_1'' ''k'' 1),
         Logged (PaymentFallback ''test_intent_1'' ''EU'' ''UK'' 2),
         Sleep 1000,
         Logged (PaymentAttemptEvent ''test_intent_1'' 2 ''UK'' ''router_eu_1''),
         GatewayPay (pay_request mockIntent ''UK'' ''router_eu_1'' ''k'' 2),
         Logged (PaymentNotRetryable ''test_intent_1'' ''UK'' (Some PAYMENT_DECLINED))]\<rparr>
 \<and> outcome (pay (mockRouting [] [])
      ((mockEnv gwTimeoutThenDeclined)\<lparr>onEvent := throwsOnNotRetryable\<rparr>) mockIntent mockOptions)
     = Inl (Propagated hookError)
 \<and> gateway_calls (effects (pay (mockRouting [] [])
      ((mockEnv gwTimeoutThenDeclined)\<lparr>onEvent := throwsOnNotRetryable\<rparr>) mockIntent mockOptions))
     = [pay_request mockIntent ''EU'' ''router_eu_1'' ''k'' 1,
        pay_request mockIntent ''UK'' ''router_eu_1'' ''k'' 2]"
proof -
  let ?env = "mockEnv gwTimeoutThenDeclined"
  let ?env' = "(mockEnv gwTimeoutThenDeclined)\<lparr>onEvent := throwsOnNotRetryable\<rparr>"
  let ?rc = "mockRouting [] []"
  let ?a1 = "attempt_record ?env 0 1 ''EU'' ''router_eu_1'' AttemptFailed
               (toJSON_opt (gatewayError TIMEOUT))"
  let ?a1' = "attempt_record ?env' 0 1 ''EU'' ''router_eu_1'' AttemptFailed
               (toJSON_opt (gatewayError TIMEOUT))"
  let ?effs = "[Logged (PaymentStarted ''test_intent_1''),
         Logged (PaymentAttemptEvent ''test_intent_1'' 1 ''EU'' ''router_eu_1''),
         GatewayPay (pay_request mockIntent ''EU'' ''router_eu_1'' ''k'' 1),
         Logged (PaymentFallback ''test_intent_1'' ''EU'' ''UK'' 2),
         Sleep 1000]"
  have h1: "int 2 \<le> 3" by simp
  have h2: "executePayment ?env 2 = Inl (gatewayError PAYMENT_DECLINED)"
       "executePayment ?env' 2 = Inl (gatewayError PAYMENT_DECLINED)"
    by (simp_all add: mockEnv_def gwTimeoutThenDeclined_def)
  have h3: "non_retryable (gatewayError PAYMENT_DECLINED)"
    by (simp add: non_retryable_def gatewayError_def createError_def isRetryableError_def
          RETRYABLE_CODES_def)
  have h4: "onEvent ?env (length ?effs) (PaymentAttemptEvent (intent_id mockIntent) 2 ''UK''
              ''router_eu_1'') = None"
       "onEvent ?env' (length ?effs) (PaymentAttemptEvent (intent_id mockIntent) 2 ''UK''
              ''router_eu_1'') = None"
    by (simp_all add: mockEnv_def throwsOnNotRetryable_def)
  have start: "pay ?rc env mockIntent mockOptions
      = pay_loop ?rc env mockIntent ''k'' mockDecision 3 1 ''EU'' ''router_eu_1''
          [] {} [Logged (PaymentStarted ''test_intent_1'')]"
    if "onEvent env = (\<lambda>n ev. None) \<or> onEvent env = throwsOnNotRetryable"
       "decideRoute env = Inr mockDecision" for env
    using that
    by (auto simp add: pay_def pay_key_def pay_maxAttempts_def mockOptions_def
          mockRouting_def fallback_maxTries_def Let_def logger_event_def mockIntent_def
          throwsOnNotRetryable_def mockDecision_def)
  have step: "pay_loop ?rc env mockIntent ''k'' mockDecision 3 1 ''EU'' ''router_eu_1''
          [] {} [Logged (PaymentStarted ''test_intent_1'')]
      = pay_loop ?rc env mockIntent ''k'' mockDecision 3 2 ''UK'' ''router_eu_1''
          [attempt_record env 0 1 ''EU'' ''router_eu_1'' AttemptFailed
             (toJSON_opt (gatewayError TIMEOUT))] {''EU''} ?effs"
    if "onEvent env = (\<lambda>n ev. None) \<or> onEvent env = throwsOnNotRetryable"
       "executePayment env 1 = Inl (gatewayError TIMEOUT)" for env
    using that
    by (subst pay_loop.simps)
       (auto simp add: pay_try_def pay_catch_def logger_event_def Let_def mockIntent_def
          throwsOnNotRetryable_def non_retryable_def gatewayError_def createError_def
          isRetryableError_def RETRYABLE_CODES_def toJSON_opt_def fallback_enabled_def
          fallback_backoff_def mockRouting_def getNextFallback_def mockDecision_def
          mockQuote_def numeral_2_eq_2)
  have e1: "onEvent ?env = (\<lambda>n ev. None) \<or> onEvent ?env = throwsOnNotRetryable"
           "onEvent ?env' = (\<lambda>n ev. None) \<or> onEvent ?env' = throwsOnNotRetryable"
    by (simp_all add: mockEnv_def)
  have e2: "decideRoute ?env = Inr mockDecision" "decideRoute ?env' = Inr mockDecision"
    by (simp_all add: mockEnv_def)
  have e3: "executePayment ?env 1 = Inl (gatewayError TIMEOUT)"
           "executePayment ?env' 1 = Inl (gatewayError TIMEOUT)"
    by (simp_all add: mockEnv_def gwTimeoutThenDeclined_def)
  have first: "pay ?rc ?env mockIntent mockOptions
      = pay_loop ?rc ?env mockIntent ''k'' mockDecision 3 2 ''UK'' ''router_eu_1''
          [?a1] {''EU''} ?effs"
    by (simp only: start[OF e1(1) e2(1)] step[OF e1(1) e3(1)])
  have first': "pay ?rc ?env' mockIntent mockOptions
      = pay_loop ?rc ?env' mockIntent ''k'' mockDecision 3 2 ''UK'' ''router_eu_1''
          [?a1'] {''EU''} ?effs"
    by (simp only: start[OF e1(2) e2(2)] step[OF e1(2) e3(2)])
  have r: "pay ?rc ?env mockIntent mockOptions =
     \<lparr>outcome = Inl (Propagated (gatewayError PAYMENT_DECLINED)),
      attempts_log =
        [?a1, attempt_record ?env 1 2 ''UK'' ''router_eu_1'' AttemptFailed
                (toJSON_opt (gatewayError PAYMENT_DECLINED))],
      effects = ?effs @
        [Logged (PaymentAttemptEvent ''test_intent_1'' 2 ''UK'' ''router_eu_1''),
         GatewayPay (pay_request mockIntent ''UK'' ''router_eu_1'' ''k'' 2),
         Logged (PaymentNotRetryable ''test_intent_1'' ''UK'' (Some PAYMENT_DECLINED))]\<rparr>"
    unfolding first
    using non_retryable_aborts[OF h1 h4(1) h2(1) h3, of ?rc "''k''" mockDecision "[?a1]" "{''EU''}"]
    by (simp add: mockEnv_def mockIntent_def toJSON_opt_def gatewayError_def createError_def)
  have r': "outcome (pay ?rc ?env' mockIntent mockOptions) = Inl (Propagated hookError)
          \<and> gateway_calls (effects (pay ?rc ?env' mockIntent mockOptions))
              = [pay_request mockIntent ''EU'' ''router_eu_1'' ''k'' 1,
                 pay_request mockIntent ''UK'' ''router_eu_1'' ''k'' 2]"
    unfolding first'
    using non_retryable_aborts[OF h1 h4(2) h2(2) h3, of ?rc "''k''" mockDecision "[?a1']" "{''EU''}"]
    by (simp add: throwsOnNotRetryable_def)
  show ?thesis using h2(1) h3 r r' by simp
qed

text \<open>
  C7 as stated fails: the error that reaches the caller does not carry the attempts log.
  A run declined at its first attempt and a run declined at its second, after a timeout
  and a fallback, throw one and the same error, with logs of one and of two entries.
\<close>

theorem non_retryable_aborts_counterexample:
  "outcome (pay (mockRouting [] []) (mockEnv gwDeclined) mockIntent mockOptions)
     = outcome (pay (mockRouting [] []) (mockEnv gwTimeoutThenDeclined) mockIntent mockOptions)
 \<and> outcome (pay (mockRouting [] []) (mockEnv gwDeclined) mockIntent mockOptions)
     = Inl (Propagated (gatewayError PAYMENT_DECLINED))
 \<and> length (attempts_log (pay (mockRouting [] []) (mockEnv gwDeclined) mockIntent mockOptions)) = 1
 \<and> length (attempts_log (pay (mockRouting [] []) (mockEnv gwTimeoutThenDeclined) mockIntent
                            mockOptions)) = 2"
  by (simp add: pay_eval)

lemma guarded_effects_eq:
  "guarded_effects (pay_with_idempotency icfg H t1 t2 t3 key rc env intent opts records)
     = (if fn_invoked (guarded (pay_with_idempotency icfg H t1 t2 t3 key rc env intent opts records))
        then effects (pay rc env intent opts) else [])"
  by (simp add: pay_with_idempotency_def Let_def)

text \<open>
  C1, as amended. \<^verbatim>\<open>pay()\<close> keeps no record of completed payments; the deduplication is the
  idempotency guard's, which the caller wraps around it:
  \<^verbatim>\<open>idempotency.execute(k, intent, () => client.pay(intent, options))\<close>. If a first such
  call with key \<^verbatim>\<open>k\<close> completed successfully with a defined result, then a second one with
  the same key and an identical payload, made while the record has not expired, returns
  that result from the record: \<^verbatim>\<open>pay()\<close> is not invoked, so no gateway call is made, and
  the storage is left as it was.
\<close>

theorem guarded_pay_replays:
  assumes first: "exec_outcome (guarded (pay_with_idempotency icfg H t1 t2 t3 key rc env1 intent
                     opts1 records)) = Inr (Some v)"
      and alive: "\<forall>r. map_of (exec_records (guarded (pay_with_idempotency icfg H t1 t2 t3 key rc
                     env1 intent opts1 records))) key = Some r \<longrightarrow> t4 \<le> rec_expiresAt r"
  shows "guarded (pay_with_idempotency icfg' H t4 t5 t6 key rc' env2 intent opts2
            (exec_records (guarded (pay_with_idempotency icfg H t1 t2 t3 key rc env1 intent
                     opts1 records))))
          = \<lparr>exec_outcome = Inr (Some v),
             exec_records = exec_records (guarded (pay_with_idempotency icfg H t1 t2 t3 key rc
                     env1 intent opts1 records)),
             fn_invoked = False\<rparr>
       \<and> guarded_effects (pay_with_idempotency icfg' H t4 t5 t6 key rc' env2 intent opts2
            (exec_records (guarded (pay_with_idempotency icfg H t1 t2 t3 key rc env1 intent
                     opts1 records)))) = []"
proof -
  let ?fn1 = "pay_outcome_as_fn (pay rc env1 intent opts1)"
  let ?ex1 = "execute icfg H wrap_guard_error t1 t2 t3 key intent ?fn1 records"
  have g1: "guarded (pay_with_idempotency icfg H t1 t2 t3 key rc env1 intent opts1 records) = ?ex1"
    by (simp add: pay_with_idempotency_def Let_def)
  from first have "exec_outcome ?ex1 = Inr (Some v)" by (simp add: g1)
  from execute_success_record[OF this]
  obtain r where r: "map_of (exec_records ?ex1) key = Some r" "rec_status r = Completed"
    "response r = Some v" "requestHash r = H intent" by blast
  from alive r(1) have a: "t4 \<le> rec_expiresAt r" by (simp add: g1)
  have "execute icfg' H wrap_guard_error t4 t5 t6 key intent
           (pay_outcome_as_fn (pay rc' env2 intent opts2)) (exec_records ?ex1)
          = \<lparr>exec_outcome = Inr (Some v), exec_records = exec_records ?ex1, fn_invoked = False\<rparr>"
    by (rule execute_replay[where H = H and data = intent, OF r a])
  then show ?thesis by (simp add: pay_with_idempotency_def Let_def g1)
qed

theorem guarded_pay_replays_witness:
  "exec_outcome (guarded (pay_with_idempotency (newIdempotencyConfig None None) intent_id 1 2 3
       ''order'' (mockRouting [] []) (mockEnv (gwSucceeds ''p1'')) mockIntent mockOptions []))
     = Inr (Some (ResultValue ((gatewayResult ''EU'' ''p1'')
         \<lparr>attempts := [attempt_record (mockEnv (gwSucceeds ''p1'')) 0 1 ''EU'' ''router_eu_1''
                          AttemptSucceeded None],
          idempotencyKey := ''k''\<rparr>)))
 \<and> guarded_effects (pay_with_idempotency (newIdempotencyConfig None None) intent_id 1 2 3
       ''order'' (mockRouting [] []) (mockEnv (gwSucceeds ''p1'')) mockIntent mockOptions [])
     = [Logged (PaymentStarted ''test_intent_1''),
        Logged (PaymentAttemptEvent ''test_intent_1'' 1 ''EU'' ''router_eu_1''),
        GatewayPay (pay_request mockIntent ''EU'' ''router_eu_1'' ''k'' 1),
        Logged (PaymentCompleted ''test_intent_1'' ''EU'' succeeded)]
 \<and> exec_outcome (guarded (pay_with_idempotency (newIdempotencyConfig None None) intent_id 50 51 52
       ''order'' (mockRouting [] []) (mockEnv (gwSucceeds ''p2'')) mockIntent mockOptions
       (exec_records (guarded (pay_with_idempotency (newIdempotencyConfig None None) intent_id
          1 2 3 ''order'' (mockRouting [] []) (mockEnv (gwSucceeds ''p1'')) mockIntent
          mockOptions [])))))
     = Inr (Some (ResultValue ((gatewayResult ''EU'' ''p1'')
         \<lparr>attempts := [attempt_record (mockEnv (gwSucceeds ''p1'')) 0 1 ''EU'' ''router_eu_1''
                          AttemptSucceeded None],
          idempotencyKey := ''k''\<rparr>)))
 \<and> guarded_effects (pay_with_idempotency (newIdempotencyConfig None None) intent_id 50 51 52
       ''order'' (mockRouting [] []) (mockEnv (gwSucceeds ''p2'')) mockIntent mockOptions
       (exec_records (guarded (pay_with_idempotency (newIdempotencyConfig None None) intent_id
          1 2 3 ''order'' (mockRouting [] []) (mockEnv (gwSucceeds ''p1'')) mockIntent
          mockOptions [])))) = []"
proof -
  let ?icfg = "newIdempotencyConfig None None"
  let ?rc = "mockRouting [] []"
  let ?first = "pay_with_idempotency ?icfg intent_id 1 2 3 ''order'' ?rc
                  (mockEnv (gwSucceeds ''p1'')) mockIntent mockOptions []"
  let ?v = "ResultValue ((gatewayResult ''EU'' ''p1'')
         \<lparr>attempts := [attempt_record (mockEnv (gwSucceeds ''p1'')) 0 1 ''EU'' ''router_eu_1''
                          AttemptSucceeded None],
          idempotencyKey := ''k''\<rparr>)"
  have p1: "pay ?rc (mockEnv (gwSucceeds ''p1'')) mockIntent mockOptions
      = \<lparr>outcome = Inr ((gatewayResult ''EU'' ''p1'')
         \<lparr>attempts := [attempt_record (mockEnv (gwSucceeds ''p1'')) 0 1 ''EU'' ''router_eu_1''
                          AttemptSucceeded None],
          idempotencyKey := ''k''\<rparr>),
         attempts_log = [attempt_record (mockEnv (gwSucceeds ''p1'')) 0 1 ''EU'' ''router_eu_1''
                          AttemptSucceeded None],
         effects = [Logged (PaymentStarted ''test_intent_1''),
        Logged (PaymentAttemptEvent ''test_intent_1'' 1 ''EU'' ''router_eu_1''),
        GatewayPay (pay_request mockIntent ''EU'' ''router_eu_1'' ''k'' 1),
        Logged (PaymentCompleted ''test_intent_1'' ''EU'' succeeded)]\<rparr>"
    by (simp add: pay_def pay_key_def pay_maxAttempts_def mockEnv_def mockOptions_def
          mockRouting_def fallback_maxTries_def Let_def mockDecision_def pay_loop.simps
          pay_try_def logger_event_def gwSucceeds_def mockIntent_def gatewayResult_def)
  have f: "guarded ?first = \<lparr>exec_outcome = Inr (Some ?v),
             exec_records = [(''order'',
                \<lparr>rec_key = ''order'', requestHash = intent_id mockIntent, response = Some ?v,
                 rec_status = Completed, rec_createdAt = 2, completedAt = Some 3,
                 rec_expiresAt = 2 + 24 * 60 * 60 * 1000, lockedUntil = None\<rparr>)],
             fn_invoked = True\<rparr>"
    by (simp add: pay_with_idempotency_def p1 pay_outcome_as_fn_def execute_def check_def
          storage_get_def storage_set_def startProcessing_def complete_def Let_def
          newIdempotencyConfig_def)
  have fe: "guarded_effects ?first = [Logged (PaymentStarted ''test_intent_1''),
        Logged (PaymentAttemptEvent ''test_intent_1'' 1 ''EU'' ''router_eu_1''),
        GatewayPay (pay_request mockIntent ''EU'' ''router_eu_1'' ''k'' 1),
        Logged (PaymentCompleted ''test_intent_1'' ''EU'' succeeded)]"
    by (simp add: guarded_effects_eq f p1)
  have h1: "exec_outcome (guarded ?first) = Inr (Some ?v)" by (simp add: f)
  have h2: "\<forall>r. map_of (exec_records (guarded ?first)) ''order'' = Some r \<longrightarrow> 50 \<le> rec_expiresAt r"
    by (simp add: f)
  from guarded_pay_replays[OF h1 h2, of ?icfg 51 52 ?rc "mockEnv (gwSucceeds ''p2'')" mockOptions]
  show ?thesis using h1 fe by simp
qed

text \<open>
  C1 as stated fails: a second bare call of \<^verbatim>\<open>pay()\<close> with the same key and intent, after
  the first one returned a result, calls the gateway again (with the same per-attempt key
  \<^verbatim>\<open>"k-1"\<close>) and returns what the gateway answers this time, not the first result.
\<close>

theorem pay_twice_counterexample:
  "outcome (pay (mockRouting [] []) (mockEnv (gwSucceeds ''p1'')) mockIntent mockOptions)
     = Inr ((gatewayResult ''EU'' ''p1'')
         \<lparr>attempts := [attempt_record (mockEnv (gwSucceeds ''p1'')) 0 1 ''EU'' ''router_eu_1''
                          AttemptSucceeded None],
          idempotencyKey := ''k''\<rparr>)
 \<and> gateway_calls (effects (pay (mockRouting [] []) (mockEnv (gwSucceeds ''p2'')) mockIntent
                             mockOptions))
     = [pay_request mockIntent ''EU'' ''router_eu_1'' ''k'' 1]
 \<and> outcome (pay (mockRouting [] []) (mockEnv (gwSucceeds ''p2'')) mockIntent mockOptions)
     \<noteq> outcome (pay (mockRouting [] []) (mockEnv (gwSucceeds ''p1'')) mockIntent mockOptions)"
  by (simp add: pay_def pay_key_def pay_maxAttempts_def mockEnv_def mockOptions_def
          mockRouting_def fallback_maxTries_def Let_def mockDecision_def pay_loop.simps
          pay_try_def logger_event_def gwSucceeds_def gatewayResult_def)

end
